(* ===== verification/Py_Prelude.thy ===== *)
theory Py_Prelude
  imports Main "HOL-Library.Char_ord" "HOL-Library.List_Lexorder"
begin

text \<open>
  The shared prelude: exceptions and result values, the string operations of Python that
  the modelled modules call, and the generic lemmas the component proofs rest on.

  A Python string is a \<^typ>\<open>string\<close>, one \<^typ>\<open>char\<close> per code point, so the model covers
  texts whose code points are below 256. Strings are ordered by code point
  (HOL-Library.Char_ord and List_Lexorder), as Python orders them.
\<close>

section \<open>Exceptions and results\<close>

text \<open>
  \<open>ErrorCode\<close> of domain/errors.py is a \<open>str\<close> enumeration, so a code is the string it equals.
  A \<open>RepoForgeError\<close> is kept with its code and its message; the other constructors are the
  built-in exceptions the modelled code can raise.
\<close>

datatype exn =
    RepoForgeError (exn_code: string) (exn_message: string)
  | ValueError string
  | OverflowError string
  | KeyError string
  | TypeError string
  | RuntimeError string
  | StopIteration

type_synonym 'a result = "exn + 'a"

text \<open>
  A validator that returns nothing is a value of \<^typ>\<open>exn option\<close>: \<^const>\<open>None\<close> when it
  returns, \<^const>\<open>Some\<close> of what it raises otherwise. \<open>first_error\<close> runs validators in order.
\<close>

fun first_error :: "exn option list \<Rightarrow> exn option" where
  "first_error [] = None"
| "first_error (None # cs) = first_error cs"
| "first_error (Some e # cs) = Some e"

definition raise_if :: "bool \<Rightarrow> exn \<Rightarrow> exn option" where
  "raise_if b e = (if b then Some e else None)"

definition checked :: "exn option \<Rightarrow> 'a \<Rightarrow> 'a result" where
  "checked c a = (case c of None \<Rightarrow> Inr a | Some e \<Rightarrow> Inl e)"

definition raised :: "'a result \<Rightarrow> exn option" where
  "raised r = (case r of Inl e \<Rightarrow> Some e | Inr _ \<Rightarrow> None)"

definition bind_result :: "'a result \<Rightarrow> ('a \<Rightarrow> 'b result) \<Rightarrow> 'b result" where
  "bind_result r f = (case r of Inl e \<Rightarrow> Inl e | Inr a \<Rightarrow> f a)"

lemma first_error_None [simp]: "first_error cs = None \<longleftrightarrow> (\<forall>c \<in> set cs. c = None)"
  by (induction cs rule: first_error.induct) auto

lemma first_error_append [simp]:
  "first_error (cs @ ds) = (case first_error cs of None \<Rightarrow> first_error ds | Some e \<Rightarrow> Some e)"
  by (induction cs rule: first_error.induct) auto

lemma first_error_Some_in: "first_error cs = Some e \<Longrightarrow> Some e \<in> set cs"
  by (induction cs rule: first_error.induct) auto

lemma raise_if_None [simp]: "raise_if b e = None \<longleftrightarrow> \<not> b"
  by (simp add: raise_if_def)

lemma raise_if_Some [simp]: "raise_if b e = Some e' \<longleftrightarrow> b \<and> e' = e"
  by (auto simp: raise_if_def)

lemma raise_if_simps [simp]: "raise_if True e = Some e" "raise_if False e = None"
  by (simp_all add: raise_if_def)

lemma checked_Inr [simp]: "checked c a = Inr b \<longleftrightarrow> c = None \<and> b = a"
  by (auto simp: checked_def split: option.splits)

lemma checked_Inl [simp]: "checked c a = Inl e \<longleftrightarrow> c = Some e"
  by (auto simp: checked_def split: option.splits)

lemma checked_simps [simp]: "checked None a = Inr a" "checked (Some e) a = Inl e"
  by (simp_all add: checked_def)

lemma raised_None [simp]: "raised r = None \<longleftrightarrow> (\<exists>a. r = Inr a)"
  by (auto simp: raised_def split: sum.splits)

lemma raised_Some [simp]: "raised r = Some e \<longleftrightarrow> r = Inl e"
  by (auto simp: raised_def split: sum.splits)

lemma raised_simps [simp]: "raised (Inl e) = Some e" "raised (Inr a) = None"
  by (simp_all add: raised_def)

lemma bind_result_simps [simp]:
  "bind_result (Inl e) f = Inl e"
  "bind_result (Inr a) f = f a"
  by (simp_all add: bind_result_def)

lemma bind_result_Inr_iff:
  "bind_result r f = Inr b \<longleftrightarrow> (\<exists>a. r = Inr a \<and> f a = Inr b)"
  by (cases r) auto

lemma bind_result_InrE:
  assumes "bind_result r f = Inr b"
  obtains a where "r = Inr a" and "f a = Inr b"
  using assms by (auto simp: bind_result_Inr_iff)

lemma bind_result_Inl_iff:
  "bind_result r f = Inl e \<longleftrightarrow> r = Inl e \<or> (\<exists>a. r = Inr a \<and> f a = Inl e)"
  by (cases r) auto

section \<open>Character classes\<close>

abbreviation ord_c :: "char \<Rightarrow> nat" where
  "ord_c c \<equiv> of_char c"

definition in_range :: "char \<Rightarrow> char \<Rightarrow> char \<Rightarrow> bool" where
  "in_range lo hi c \<longleftrightarrow> ord_c lo \<le> ord_c c \<and> ord_c c \<le> ord_c hi"

definition is_digit :: "char \<Rightarrow> bool" where
  "is_digit c \<longleftrightarrow> in_range CHR ''0'' CHR ''9'' c"

definition is_ascii_lower :: "char \<Rightarrow> bool" where
  "is_ascii_lower c \<longleftrightarrow> in_range CHR ''a'' CHR ''z'' c"

definition is_ascii_upper :: "char \<Rightarrow> bool" where
  "is_ascii_upper c \<longleftrightarrow> in_range CHR ''A'' CHR ''Z'' c"

definition is_ascii_alnum :: "char \<Rightarrow> bool" where
  "is_ascii_alnum c \<longleftrightarrow> is_digit c \<or> is_ascii_lower c \<or> is_ascii_upper c"

definition is_lower_hex :: "char \<Rightarrow> bool" where
  "is_lower_hex c \<longleftrightarrow> is_digit c \<or> in_range CHR ''a'' CHR ''f'' c"

text \<open>
  \<open>str.isspace\<close>, \<open>str.islower\<close>, \<open>str.isupper\<close>, \<open>str.isdigit\<close> and \<open>str.isalnum\<close> on one
  code point below 256.
\<close>

definition is_space :: "char \<Rightarrow> bool" where
  "is_space c \<longleftrightarrow> ord_c c \<in> {9, 10, 11, 12, 13, 28, 29, 30, 31, 32, 133, 160}"

definition py_islower :: "char \<Rightarrow> bool" where
  "py_islower c \<longleftrightarrow> is_ascii_lower c \<or> ord_c c \<in> {170, 181, 186} \<or>
     (223 \<le> ord_c c \<and> ord_c c \<noteq> 247)"

definition py_isupper :: "char \<Rightarrow> bool" where
  "py_isupper c \<longleftrightarrow> is_ascii_upper c \<or> (192 \<le> ord_c c \<and> ord_c c \<le> 222 \<and> ord_c c \<noteq> 215)"

definition py_isdigit :: "char \<Rightarrow> bool" where
  "py_isdigit c \<longleftrightarrow> is_digit c \<or> ord_c c \<in> {178, 179, 185}"

definition py_isalnum :: "char \<Rightarrow> bool" where
  "py_isalnum c \<longleftrightarrow> py_islower c \<or> py_isupper c \<or> py_isdigit c \<or> ord_c c \<in> {188, 189, 190}"

definition lower_c :: "char \<Rightarrow> char" where
  "lower_c c = (if py_isupper c then char_of (ord_c c + 32) else c)"

definition py_lower :: "string \<Rightarrow> string" where
  "py_lower s = map lower_c s"

text \<open>
  \<open>str.casefold\<close>: the lower case, with the sharp s (code point 223) folded to two letters.
  (The micro sign, which Python folds to a code point above 255, is kept.)
\<close>

definition py_casefold :: "string \<Rightarrow> string" where
  "py_casefold s = concat (map (\<lambda>c. if ord_c c = 223 then ''ss'' else [lower_c c]) s)"

section \<open>Strings\<close>

definition startswith :: "string \<Rightarrow> string \<Rightarrow> bool" where
  "startswith s p \<longleftrightarrow> take (length p) s = p"

definition endswith :: "string \<Rightarrow> string \<Rightarrow> bool" where
  "endswith s p \<longleftrightarrow> length p \<le> length s \<and> drop (length s - length p) s = p"

fun contains_sub :: "string \<Rightarrow> string \<Rightarrow> bool" where
  "contains_sub [] p = (p = [])"
| "contains_sub (c # s) p = (startswith (c # s) p \<or> contains_sub s p)"

definition replace_char :: "char \<Rightarrow> char \<Rightarrow> string \<Rightarrow> string" where
  "replace_char a b s = map (\<lambda>c. if c = a then b else c) s"

definition py_lstrip :: "string \<Rightarrow> string" where
  "py_lstrip s = dropWhile is_space s"

definition py_strip :: "string \<Rightarrow> string" where
  "py_strip s = rev (dropWhile is_space (rev (dropWhile is_space s)))"

text \<open>A half-open slice \<open>s[i:j]\<close> with non-negative bounds.\<close>

definition str_slice :: "nat \<Rightarrow> nat \<Rightarrow> 'a list \<Rightarrow> 'a list" where
  "str_slice i j s = take (j - i) (drop i s)"

fun join_with :: "string \<Rightarrow> string list \<Rightarrow> string" where
  "join_with sep [] = []"
| "join_with sep [x] = x"
| "join_with sep (x # y # ys) = x @ sep @ join_with sep (y # ys)"

fun split_on :: "char \<Rightarrow> string \<Rightarrow> string list" where
  "split_on d [] = [[]]"
| "split_on d (c # s) =
     (if c = d then [] # split_on d s
      else case split_on d s of [] \<Rightarrow> [[c]] | p # ps \<Rightarrow> (c # p) # ps)"

text \<open>\<open>sorted(set(xs))\<close>\<close>

definition sorted_set :: "'a::linorder list \<Rightarrow> 'a list" where
  "sorted_set xs = sort (remdups xs)"

text \<open>\<open>sorted(xs, key=k)\<close>: a stable sort by the key.\<close>

lemma set_sorted_set [simp]: "set (sorted_set xs) = set xs"
  by (simp add: sorted_set_def)

lemma sorted_sorted_set [simp]: "sorted (sorted_set xs)"
  by (simp add: sorted_set_def)

lemma distinct_sorted_set [simp]: "distinct (sorted_set xs)"
  by (simp add: sorted_set_def)

lemma sorted_set_Nil [simp]: "sorted_set xs = [] \<longleftrightarrow> xs = []"
  by (metis set_empty set_sorted_set)

lemma sorted_set_idem: "sorted_set (sorted_set xs) = sorted_set xs"
  by (simp add: sorted_set_def sorted_sort_id distinct_remdups_id)

lemma length_str_slice [simp]: "length (str_slice i j s) = min (j - i) (length s - i)"
  by (simp add: str_slice_def)

lemma str_slice_split:
  assumes "i \<le> j" and "j \<le> k"
  shows "str_slice i j s @ str_slice j k s = str_slice i k s"
proof -
  have "drop j s = drop (j - i) (drop i s)" using assms by simp
  moreover have "k - i = (j - i) + (k - j)" using assms by simp
  ultimately show ?thesis by (simp only: str_slice_def take_add)
qed

section \<open>Decimal rendering\<close>

definition digit_char :: "nat \<Rightarrow> char" where
  "digit_char d = char_of (48 + d)"

definition digit_val :: "char \<Rightarrow> nat" where
  "digit_val c = ord_c c - 48"

fun str_of_nat :: "nat \<Rightarrow> string" where
  "str_of_nat n = (if n < 10 then [digit_char n] else str_of_nat (n div 10) @ [digit_char (n mod 10)])"

declare str_of_nat.simps [simp del]

definition str_of_int :: "int \<Rightarrow> string" where
  "str_of_int i = (if i < 0 then ''-'' @ str_of_nat (nat (- i)) else str_of_nat (nat i))"

text \<open>\<open>fix_digits k n\<close> renders \<open>n\<close> with exactly \<open>k\<close> digits, as \<open>"%0kd" % n\<close> does for \<open>n < 10 ^ k\<close>.\<close>

fun fix_digits :: "nat \<Rightarrow> nat \<Rightarrow> string" where
  "fix_digits 0 n = []"
| "fix_digits (Suc k) n = fix_digits k (n div 10) @ [digit_char (n mod 10)]"

fun digits_val :: "nat \<Rightarrow> string \<Rightarrow> nat" where
  "digits_val acc [] = acc"
| "digits_val acc (c # s) = digits_val (acc * 10 + digit_val c) s"

definition all_digits :: "string \<Rightarrow> bool" where
  "all_digits s \<longleftrightarrow> (\<forall>c \<in> set s. is_digit c)"

lemma ord_digit_char [simp]: "d < 10 \<Longrightarrow> ord_c (digit_char d) = 48 + d"
  by (simp add: digit_char_def of_char_of)

lemma digit_val_digit_char [simp]: "d < 10 \<Longrightarrow> digit_val (digit_char d) = d"
  by (simp add: digit_val_def)

lemma is_digit_digit_char [simp]: "d < 10 \<Longrightarrow> is_digit (digit_char d)"
  by (simp add: is_digit_def in_range_def)

lemma length_fix_digits [simp]: "length (fix_digits k n) = k"
  by (induction k arbitrary: n) auto

lemma all_digits_fix_digits [simp]: "all_digits (fix_digits k n)"
  by (induction k arbitrary: n) (auto simp: all_digits_def)

lemma digits_val_append: "digits_val acc (s @ t) = digits_val (digits_val acc s) t"
  by (induction s arbitrary: acc) auto

lemma digits_val_fix_digits_acc:
  "n < 10 ^ k \<Longrightarrow> digits_val acc (fix_digits k n) = acc * 10 ^ k + n"
proof (induction k arbitrary: n)
  case 0
  then show ?case by simp
next
  case (Suc k)
  then have "n div 10 < 10 ^ k" by (simp add: less_mult_imp_div_less)
  with Suc.IH show ?case by (simp add: digits_val_append algebra_simps)
qed

lemma digits_val_fix_digits [simp]: "n < 10 ^ k \<Longrightarrow> digits_val 0 (fix_digits k n) = n"
  by (simp add: digits_val_fix_digits_acc)

end
