(* ===== verification/Py_Regex.thy ===== *)
theory Py_Regex
  imports Py_Prelude
begin

text \<open>
  The part of Python's \<open>re\<close> module the program uses: backtracking matching with priorities.
  A pattern denotes, at a position of the text, the list of all the ways it can match there in
  the order a backtracking matcher tries them; \<open>match\<close> takes the first, \<open>fullmatch\<close> the first
  that ends at the end of the text, \<open>finditer\<close> scans from left to right for successive
  non-overlapping matches. Repetition occurs in the program's patterns only over one character
  class, which keeps the matcher structurally recursive; an optional group is an alternative
  with the empty pattern.
\<close>

datatype regex =
    One "char \<Rightarrow> bool"
  | Rep bool "char \<Rightarrow> bool" nat "nat option"  \<comment> \<open>greedy?, class, minimum, maximum\<close>
  | Empty
  | Seq regex regex
  | Alt regex regex
  | Group string regex
  | NotAhead "char \<Rightarrow> bool"   \<comment> \<open>\<open>(?!class)\<close>\<close>
  | NotBehind "char \<Rightarrow> bool"  \<comment> \<open>\<open>(?<!class)\<close>\<close>
  | WordBoundary               \<comment> \<open>\<open>\\b\<close>\<close>

text \<open>A way to match: where it ends, and the spans of the named groups.\<close>

type_synonym spans = "(string \<times> nat \<times> nat) list"
type_synonym outcome = "nat \<times> spans"

fun run_length :: "(char \<Rightarrow> bool) \<Rightarrow> string \<Rightarrow> nat" where
  "run_length p [] = 0"
| "run_length p (c # s) = (if p c then Suc (run_length p s) else 0)"

definition word_char :: "char \<Rightarrow> bool" where
  "word_char c \<longleftrightarrow> py_isalnum c \<or> c = CHR ''_''"

definition at_char :: "(char \<Rightarrow> bool) \<Rightarrow> string \<Rightarrow> nat \<Rightarrow> bool" where
  "at_char p t i \<longleftrightarrow> i < length t \<and> p (t ! i)"

definition before_char :: "(char \<Rightarrow> bool) \<Rightarrow> string \<Rightarrow> nat \<Rightarrow> bool" where
  "before_char p t i \<longleftrightarrow> 0 < i \<and> i \<le> length t \<and> p (t ! (i - 1))"

definition rep_ends :: "bool \<Rightarrow> (char \<Rightarrow> bool) \<Rightarrow> nat \<Rightarrow> nat option \<Rightarrow> string \<Rightarrow> nat \<Rightarrow> nat list" where
  "rep_ends greedy p mn mx t i =
     (let k = run_length p (drop i t);
          hi = (case mx of None \<Rightarrow> k | Some m \<Rightarrow> min m k);
          ends = (if hi < mn then [] else [i + mn ..< Suc (i + hi)])
      in if greedy then rev ends else ends)"

fun ways :: "regex \<Rightarrow> string \<Rightarrow> nat \<Rightarrow> outcome list" where
  "ways (One p) t i = (if at_char p t i then [(Suc i, [])] else [])"
| "ways (Rep g p mn mx) t i = map (\<lambda>j. (j, [])) (rep_ends g p mn mx t i)"
| "ways Empty t i = [(i, [])]"
| "ways (Seq a b) t i =
     concat (map (\<lambda>(j, gs). map (\<lambda>(k, hs). (k, gs @ hs)) (ways b t j)) (ways a t i))"
| "ways (Alt a b) t i = ways a t i @ ways b t i"
| "ways (Group n a) t i = map (\<lambda>(j, gs). (j, (n, i, j) # gs)) (ways a t i)"
| "ways (NotAhead p) t i = (if at_char p t i then [] else [(i, [])])"
| "ways (NotBehind p) t i = (if before_char p t i then [] else [(i, [])])"
| "ways WordBoundary t i =
     (if before_char word_char t i \<noteq> at_char word_char t i then [(i, [])] else [])"

definition fullmatch :: "regex \<Rightarrow> string \<Rightarrow> bool" where
  "fullmatch r s \<longleftrightarrow> (\<exists>w \<in> set (ways r s 0). fst w = length s)"

text \<open>
  \<open>finditer\<close> from a position: the start, the end and the group spans of every match. None of the
  patterns the program iterates matches the empty string; a scan past an empty match would
  resume one position further.
\<close>

function finditer_from :: "regex \<Rightarrow> string \<Rightarrow> nat \<Rightarrow> (nat \<times> nat \<times> spans) list" where
  "finditer_from r t i =
     (if length t < i then []
      else case ways r t i of
             [] \<Rightarrow> finditer_from r t (Suc i)
           | (j, gs) # _ \<Rightarrow> (i, j, gs) # finditer_from r t (max j (Suc i)))"
  by pat_completeness auto
termination
  by (relation "measure (\<lambda>(r, t, i). Suc (length t) - i)") auto

declare finditer_from.simps [simp del]

definition finditer :: "regex \<Rightarrow> string \<Rightarrow> (nat \<times> nat \<times> spans) list" where
  "finditer r t = finditer_from r t 0"

text \<open>\<open>match.span(name)\<close>; the whole match where the group took no part (never the case for the
  groups the program reads).\<close>

definition group_span :: "string \<Rightarrow> nat \<times> nat \<times> spans \<Rightarrow> nat \<times> nat" where
  "group_span n m =
     (case m of (i, j, gs) \<Rightarrow> (case map_of gs n of Some sp \<Rightarrow> sp | None \<Rightarrow> (i, j)))"

text \<open>\<open>pattern.sub(f, text)\<close>: every match is replaced by what \<open>f\<close> returns for it.\<close>

fun sub_from :: "(nat \<times> nat \<times> spans \<Rightarrow> string) \<Rightarrow> string \<Rightarrow> nat \<Rightarrow> (nat \<times> nat \<times> spans) list \<Rightarrow> string" where
  "sub_from f t cursor [] = drop cursor t"
| "sub_from f t cursor ((i, j, gs) # ms) = str_slice cursor i t @ f (i, j, gs) @ sub_from f t j ms"

definition re_sub :: "regex \<Rightarrow> (nat \<times> nat \<times> spans \<Rightarrow> string) \<Rightarrow> string \<Rightarrow> string" where
  "re_sub r f t = sub_from f t 0 (finditer r t)"

section \<open>Building patterns\<close>

fun lit :: "string \<Rightarrow> regex" where
  "lit [] = Empty"
| "lit (c # s) = Seq (One (\<lambda>x. x = c)) (lit s)"

text \<open>A literal under the \<open>(?i)\<close> flag.\<close>

fun lit_ci :: "string \<Rightarrow> regex" where
  "lit_ci [] = Empty"
| "lit_ci (c # s) = Seq (One (\<lambda>x. lower_c x = lower_c c)) (lit_ci s)"

fun seqs :: "regex list \<Rightarrow> regex" where
  "seqs [] = Empty"
| "seqs (r # rs) = Seq r (seqs rs)"

fun alts :: "regex list \<Rightarrow> regex" where
  "alts [] = Empty"
| "alts [r] = r"
| "alts (r # s # rs) = Alt r (alts (s # rs))"

definition opt :: "regex \<Rightarrow> regex" where
  "opt r = Alt r Empty"

abbreviation one_of :: "string \<Rightarrow> char \<Rightarrow> bool" where
  "one_of cs \<equiv> (\<lambda>c. c \<in> set cs)"

abbreviation many :: "(char \<Rightarrow> bool) \<Rightarrow> nat \<Rightarrow> regex" where
  "many p mn \<equiv> Rep True p mn None"

abbreviation upto :: "(char \<Rightarrow> bool) \<Rightarrow> nat \<Rightarrow> nat \<Rightarrow> regex" where
  "upto p mn mx \<equiv> Rep True p mn (Some mx)"

section \<open>Lemmas\<close>

lemma run_length_le [simp]: "run_length p s \<le> length s"
  by (induction s) auto

lemma run_length_all: "j < run_length p s \<Longrightarrow> p (s ! j)"
proof (induction s arbitrary: j)
  case Nil
  then show ?case by simp
next
  case (Cons c s)
  then show ?case by (cases j) (auto split: if_splits)
qed

lemma rep_ends_iff:
  "j \<in> set (rep_ends g p mn mx t i) \<longleftrightarrow>
     i + mn \<le> j \<and> j \<le> i + run_length p (drop i t) \<and> (case mx of None \<Rightarrow> True | Some m \<Rightarrow> j \<le> i + m)"
  by (auto simp: rep_ends_def Let_def split: option.splits if_splits)

text \<open>Every way to match stays inside the text and never moves backwards, and every group lies
  inside the match.\<close>

lemma ways_bounds:
  "(j, gs) \<in> set (ways r t i) \<Longrightarrow> i \<le> length t \<Longrightarrow>
     i \<le> j \<and> j \<le> length t \<and> (\<forall>(n, a, b) \<in> set gs. i \<le> a \<and> a \<le> b \<and> b \<le> j)"
proof (induction r arbitrary: i j gs)
  case (One p)
  then show ?case by (auto simp: at_char_def split: if_splits)
next
  case (Rep g p mn mx)
  have "run_length p (drop i t) \<le> length t - i" using run_length_le [of p "drop i t"] by simp
  with Rep show ?case by (auto simp: rep_ends_iff)
next
  case (Seq a b)
  from Seq.prems(1) obtain k gs1 gs2 where
    a: "(k, gs1) \<in> set (ways a t i)" and b: "(j, gs2) \<in> set (ways b t k)" and gs: "gs = gs1 @ gs2"
    by auto
  from Seq.IH(1) [OF a Seq.prems(2)] have ka: "i \<le> k" "k \<le> length t"
    "\<forall>(n, x, y) \<in> set gs1. i \<le> x \<and> x \<le> y \<and> y \<le> k" by auto
  from Seq.IH(2) [OF b ka(2)] have kb: "k \<le> j" "j \<le> length t"
    "\<forall>(n, x, y) \<in> set gs2. k \<le> x \<and> x \<le> y \<and> y \<le> j" by auto
  from ka kb gs show ?case by fastforce
next
  case (Alt a b)
  from Alt.prems(1) have "(j, gs) \<in> set (ways a t i) \<or> (j, gs) \<in> set (ways b t i)" by simp
  with Alt.IH Alt.prems(2) show ?case by blast
next
  case (Group n a)
  then obtain gs' where "(j, gs') \<in> set (ways a t i)" and gs: "gs = (n, i, j) # gs'" by auto
  with Group.IH [of j gs' i] Group.prems(2) show ?case by auto
qed (auto split: if_splits)

lemma finditer_from_bounds:
  "(i', j, gs) \<in> set (finditer_from r t i) \<Longrightarrow> i \<le> i' \<and> i' \<le> j \<and> j \<le> length t"
proof (induction r t i rule: finditer_from.induct)
  case (1 r t i)
  show ?case
  proof (cases "length t < i")
    case True
    with "1.prems" show ?thesis by (simp add: finditer_from.simps [of r t i])
  next
    case False
    show ?thesis
    proof (cases "ways r t i")
      case Nil
      with False "1.prems" "1.IH"(1) show ?thesis
        by (fastforce simp: finditer_from.simps [of r t i])
    next
      case (Cons w ws)
      obtain k hs where w: "w = (k, hs)" by (cases w)
      then have k: "i \<le> k" "k \<le> length t" using ways_bounds [of k hs r t i] Cons False by auto
      have "(i', j, gs) = (i, k, hs) \<or> (i', j, gs) \<in> set (finditer_from r t (max k (Suc i)))"
        using "1.prems" False Cons w by (simp add: finditer_from.simps [of r t i])
      then show ?thesis
        using k "1.IH"(2) [OF False] Cons w by fastforce
    qed
  qed
qed

lemma finditer_bounds: "(i, j, gs) \<in> set (finditer r t) \<Longrightarrow> i \<le> j \<and> j \<le> length t"
  using finditer_from_bounds unfolding finditer_def by fastforce

lemma finditer_from_step:
  "finditer_from r t i =
     (if length t < i then []
      else case ways r t i of
             [] \<Rightarrow> finditer_from r t (Suc i)
           | (j, gs) # _ \<Rightarrow> (i, j, gs) # finditer_from r t (max j (Suc i)))"
  by (rule finditer_from.simps)

subsection \<open>Full matches of single classes\<close>

lemma run_length_all_eq: "run_length p s = length s \<longleftrightarrow> (\<forall>c \<in> set s. p c)"
proof (induction s)
  case (Cons c s)
  then show ?case by auto
qed simp

lemma fullmatch_Rep:
  "fullmatch (Rep g p mn mx) s \<longleftrightarrow>
     (\<forall>c \<in> set s. p c) \<and> mn \<le> length s \<and> (case mx of None \<Rightarrow> True | Some m \<Rightarrow> length s \<le> m)"
proof -
  have "run_length p s = length s \<longleftrightarrow> length s \<le> run_length p s"
    using run_length_le [of p s] by linarith
  then show ?thesis
    by (auto simp: fullmatch_def rep_ends_iff image_iff run_length_all_eq [symmetric] split: option.splits)
qed

lemma fullmatch_One_Rep:
  "fullmatch (Seq (One a) (Rep g p mn mx)) s \<longleftrightarrow>
     (case s of [] \<Rightarrow> False
      | c # cs \<Rightarrow> a c \<and> (\<forall>d \<in> set cs. p d) \<and> mn \<le> length cs \<and>
          (case mx of None \<Rightarrow> True | Some m \<Rightarrow> length cs \<le> m))"
proof (cases s)
  case Nil
  then show ?thesis by (simp add: fullmatch_def at_char_def)
next
  case (Cons c cs)
  have "run_length p cs = length cs \<longleftrightarrow> length cs \<le> run_length p cs"
    using run_length_le [of p cs] by linarith
  with Cons show ?thesis
    by (auto simp: fullmatch_def at_char_def rep_ends_iff image_iff Bex_def
        run_length_all_eq [symmetric] split: option.splits)
qed

lemma ways_lit: "ways (lit w) t i = (if startswith (drop i t) w then [(i + length w, [])] else [])"
proof (induction w arbitrary: i)
  case Nil
  then show ?case by (simp add: startswith_def)
next
  case (Cons c w)
  show ?case
  proof (cases "i < length t")
    case True
    then have "drop i t = t ! i # drop (Suc i) t" by (simp add: Cons_nth_drop_Suc)
    with True Cons.IH [of "Suc i"] show ?thesis by (simp add: startswith_def at_char_def)
  qed (simp add: startswith_def at_char_def)
qed

lemma startswith_iff: "startswith s p \<longleftrightarrow> (\<exists>r. s = p @ r)"
  by (auto simp: startswith_def) (metis append_take_drop_id)

text \<open>A literal prefix and then a bounded run of one class.\<close>

lemma fullmatch_lit_Rep:
  "fullmatch (Seq (lit w) (Rep g p mn mx)) s \<longleftrightarrow>
     (\<exists>r. s = w @ r \<and> (\<forall>c \<in> set r. p c) \<and> mn \<le> length r \<and> (case mx of None \<Rightarrow> True | Some m \<Rightarrow> length r \<le> m))"
proof -
  have "fullmatch (Seq (lit w) (Rep g p mn mx)) s \<longleftrightarrow> startswith s w \<and> length s \<in> set (rep_ends g p mn mx s (length w))"
    by (auto simp: fullmatch_def ways_lit image_iff Bex_def)
  also have "\<dots> \<longleftrightarrow> (\<exists>r. s = w @ r \<and> length s \<in> set (rep_ends g p mn mx s (length w)))"
    by (auto simp: startswith_iff)
  also have "\<dots> \<longleftrightarrow> (\<exists>r. s = w @ r \<and> (\<forall>c \<in> set r. p c) \<and> mn \<le> length r \<and> (case mx of None \<Rightarrow> True | Some m \<Rightarrow> length r \<le> m))"
  proof -
    have "length r \<le> run_length p r \<longleftrightarrow> (\<forall>c \<in> set r. p c)" for r
      using run_length_le [of p r] run_length_all_eq [of p r] by linarith
    then show ?thesis by (auto simp: rep_ends_iff split: option.splits)
  qed
  finally show ?thesis .
qed

end
