(* ===== verification/Sha256.thy ===== *)
theory Sha256
  imports Py_Prelude "HOL-Library.Word"
begin

text \<open>
  \<open>hashlib.sha256(data).hexdigest()\<close> (FIPS 180-4), and \<open>str.encode("utf-8")\<close>, which produces the
  data it digests. Bytes are natural numbers below 256. The component proofs use only the shape of
  a digest: 64 lowercase hexadecimal characters.
\<close>

unbundle bit_operations_syntax

type_synonym u32 = "32 word"

definition utf8_char :: "char \<Rightarrow> nat list" where
  "utf8_char c =
     (let n = ord_c c in if n < 128 then [n] else [192 + n div 64, 128 + n mod 64])"

definition utf8_encode :: "string \<Rightarrow> nat list" where
  "utf8_encode s = concat (map utf8_char s)"

definition sha_k :: "u32 list" where
  "sha_k =
    [
     1116352408, 1899447441, 3049323471, 3921009573,
     961987163, 1508970993, 2453635748, 2870763221,
     3624381080, 310598401, 607225278, 1426881987,
     1925078388, 2162078206, 2614888103, 3248222580,
     3835390401, 4022224774, 264347078, 604807628,
     770255983, 1249150122, 1555081692, 1996064986,
     2554220882, 2821834349, 2952996808, 3210313671,
     3336571891, 3584528711, 113926993, 338241895,
     666307205, 773529912, 1294757372, 1396182291,
     1695183700, 1986661051, 2177026350, 2456956037,
     2730485921, 2820302411, 3259730800, 3345764771,
     3516065817, 3600352804, 4094571909, 275423344,
     430227734, 506948616, 659060556, 883997877,
     958139571, 1322822218, 1537002063, 1747873779,
     1955562222, 2024104815, 2227730452, 2361852424,
     2428436474, 2756734187, 3204031479, 3329325298
    ]"

definition sha_init :: "u32 list" where
  "sha_init =
    [
     1779033703, 3144134277, 1013904242, 2773480762,
     1359893119, 2600822924, 528734635, 1541459225
    ]"

definition rotr :: "nat \<Rightarrow> u32 \<Rightarrow> u32" where
  "rotr n x = drop_bit n x OR push_bit (32 - n) x"

fun be_word :: "nat list \<Rightarrow> u32" where
  "be_word [a, b, c, d] = word_of_nat (((a * 256 + b) * 256 + c) * 256 + d)"
| "be_word _ = 0"

fun words_of :: "nat list \<Rightarrow> u32 list" where
  "words_of (a # b # c # d # bs) = be_word [a, b, c, d] # words_of bs"
| "words_of _ = []"

text \<open>The message schedule, kept most recent word first.\<close>

fun extend_schedule :: "nat \<Rightarrow> u32 list \<Rightarrow> u32 list" where
  "extend_schedule 0 w = w"
| "extend_schedule (Suc n) w =
     (let w2 = w ! 1; w7 = w ! 6; w15 = w ! 14; w16 = w ! 15;
          s0 = rotr 7 w15 XOR rotr 18 w15 XOR drop_bit 3 w15;
          s1 = rotr 17 w2 XOR rotr 19 w2 XOR drop_bit 10 w2
      in extend_schedule n ((w16 + s0 + w7 + s1) # w))"

type_synonym sha_regs = "u32 \<times> u32 \<times> u32 \<times> u32 \<times> u32 \<times> u32 \<times> u32 \<times> u32"

fun sha_rounds :: "(u32 \<times> u32) list \<Rightarrow> sha_regs \<Rightarrow> u32 list" where
  "sha_rounds [] (a, b, c, d, e, f, g, h) = [a, b, c, d, e, f, g, h]"
| "sha_rounds ((k, w) # ks) (a, b, c, d, e, f, g, h) =
     (let s1 = rotr 6 e XOR rotr 11 e XOR rotr 25 e;
          ch = (e AND f) XOR (NOT e AND g);
          t1 = h + s1 + ch + k + w;
          s0 = rotr 2 a XOR rotr 13 a XOR rotr 22 a;
          maj = (a AND b) XOR (a AND c) XOR (b AND c);
          t2 = s0 + maj
      in sha_rounds ks (t1 + t2, a, b, c, d + t1, e, f, g))"

definition sha_block :: "nat list \<Rightarrow> u32 list \<Rightarrow> u32 list" where
  "sha_block blk st =
     map2 (+) st
       (sha_rounds (zip sha_k (rev (extend_schedule 48 (rev (words_of blk)))))
         (st ! 0, st ! 1, st ! 2, st ! 3, st ! 4, st ! 5, st ! 6, st ! 7))"

fun sha_blocks :: "nat \<Rightarrow> nat list \<Rightarrow> u32 list \<Rightarrow> u32 list" where
  "sha_blocks 0 bs st = st"
| "sha_blocks (Suc n) bs st = sha_blocks n (drop 64 bs) (sha_block (take 64 bs) st)"

fun be_bytes :: "nat \<Rightarrow> nat \<Rightarrow> nat list" where
  "be_bytes 0 n = []"
| "be_bytes (Suc k) n = be_bytes k (n div 256) @ [n mod 256]"

definition sha_pad :: "nat list \<Rightarrow> nat list" where
  "sha_pad bs =
     (let l = length bs in bs @ [128] @ replicate ((119 - l mod 64) mod 64) 0 @ be_bytes 8 (8 * l))"

definition hex_char :: "nat \<Rightarrow> char" where
  "hex_char d = (if d < 10 then char_of (48 + d) else char_of (87 + d))"

fun hex_digits :: "nat \<Rightarrow> nat \<Rightarrow> string" where
  "hex_digits 0 n = []"
| "hex_digits (Suc k) n = hex_digits k (n div 16) @ [hex_char (n mod 16)]"

definition sha_state :: "nat list \<Rightarrow> u32 list" where
  "sha_state bs = (let p = sha_pad bs in sha_blocks (length p div 64) p sha_init)"

definition sha256_hex :: "nat list \<Rightarrow> string" where
  "sha256_hex bs = concat (map (\<lambda>w. hex_digits 8 (unat w)) (sha_state bs))"

section \<open>The shape of a digest\<close>

lemma length_hex_digits [simp]: "length (hex_digits k n) = k"
  by (induction k arbitrary: n) auto

lemma is_lower_hex_hex_char: "d < 16 \<Longrightarrow> is_lower_hex (hex_char d)"
  by (auto simp: hex_char_def is_lower_hex_def is_digit_def in_range_def of_char_of)

lemma hex_digits_lower_hex: "c \<in> set (hex_digits k n) \<Longrightarrow> is_lower_hex c"
  by (induction k arbitrary: n) (auto simp: is_lower_hex_hex_char)

lemma length_sha_rounds: "length (sha_rounds ks st) = 8"
  by (induction ks st rule: sha_rounds.induct) (simp_all add: Let_def)

lemma length_sha_blocks: "length st = 8 \<Longrightarrow> length (sha_blocks n bs st) = 8"
  by (induction n arbitrary: bs st) (simp_all add: sha_block_def length_sha_rounds)

lemma length_sha_state: "length (sha_state bs) = 8"
  by (simp add: sha_state_def Let_def length_sha_blocks sha_init_def)

lemma length_concat_const: "(\<And>x. x \<in> set xs \<Longrightarrow> length (f x) = k) \<Longrightarrow> length (concat (map f xs)) = k * length xs"
  by (induction xs) auto

lemma length_sha256_hex [simp]: "length (sha256_hex bs) = 64"
  by (simp add: sha256_hex_def length_concat_const [where k = 8] length_sha_state)

lemma sha256_hex_lower_hex: "c \<in> set (sha256_hex bs) \<Longrightarrow> is_lower_hex c"
  by (auto simp: sha256_hex_def dest: hex_digits_lower_hex)

lemma length_utf8_char: "1 \<le> length (utf8_char c)" "length (utf8_char c) \<le> 2"
  by (auto simp: utf8_char_def Let_def)

lemma length_utf8_encode: "length s \<le> length (utf8_encode s)" "length (utf8_encode s) \<le> 2 * length s"
proof -
  show "length s \<le> length (utf8_encode s)"
  proof (induction s)
    case (Cons c s)
    then show ?case using length_utf8_char(1) [of c] by (simp add: utf8_encode_def)
  qed simp
  show "length (utf8_encode s) \<le> 2 * length s"
  proof (induction s)
    case (Cons c s)
    then show ?case using length_utf8_char(2) [of c] by (simp add: utf8_encode_def)
  qed (simp add: utf8_encode_def)
qed

end
