(* ===== verification/Py_Value.thy ===== *)
theory Py_Value
  imports Py_Prelude
begin

text \<open>
  Dynamically typed data: the values that cross the persistence boundary as JSON and the
  structured payloads that the sanitizers walk. A dictionary keeps its insertion order and has
  string keys. Floating-point numbers, tuples and byte strings are outside the model.
\<close>

datatype pyval =
    VNone
  | VBool bool
  | VInt int
  | VStr string
  | VList "pyval list"
  | VDict "(string \<times> pyval) list"

type_synonym pydict = "(string \<times> pyval) list"

section \<open>repr and str\<close>

definition hex_pair :: "nat \<Rightarrow> string" where
  "hex_pair n =
     (let h = (\<lambda>d. if d < 10 then char_of (48 + d) else char_of (87 + d :: nat)) in [h (n div 16), h (n mod 16)])"

definition is_printable :: "char \<Rightarrow> bool" where
  "is_printable c \<longleftrightarrow> (32 \<le> ord_c c \<and> ord_c c < 127) \<or> (160 < ord_c c \<and> ord_c c \<noteq> 173)"

definition repr_char :: "char \<Rightarrow> char \<Rightarrow> string" where
  "repr_char quote c =
     (if c = quote \<or> c = CHR 0x5C then [CHR 0x5C, c]
      else if c = CHR 0x0A then [CHR 0x5C, CHR ''n'']
      else if c = CHR 0x0D then [CHR 0x5C, CHR ''r'']
      else if c = CHR 0x09 then [CHR 0x5C, CHR ''t'']
      else if is_printable c then [c]
      else [CHR 0x5C, CHR ''x''] @ hex_pair (ord_c c))"

definition repr_str :: "string \<Rightarrow> string" where
  "repr_str s =
     (let quote = (if CHR 0x27 \<in> set s \<and> CHR 0x22 \<notin> set s then CHR 0x22 else CHR 0x27)
      in [quote] @ concat (map (repr_char quote) s) @ [quote])"

fun py_repr :: "pyval \<Rightarrow> string" where
  "py_repr VNone = ''None''"
| "py_repr (VBool b) = (if b then ''True'' else ''False'')"
| "py_repr (VInt i) = str_of_int i"
| "py_repr (VStr s) = repr_str s"
| "py_repr (VList vs) = ''['' @ join_with '', '' (map py_repr vs) @ '']''"
| "py_repr (VDict kvs) = ''{'' @ join_with '', '' (map (\<lambda>(k, v). repr_str k @ '': '' @ py_repr v) kvs) @ ''}''"

definition py_str :: "pyval \<Rightarrow> string" where
  "py_str v = (case v of VStr s \<Rightarrow> s | _ \<Rightarrow> py_repr v)"

lemma py_str_VStr [simp]: "py_str (VStr s) = s"
  by (simp add: py_str_def)

section \<open>Conversions\<close>

text \<open>
  \<open>int(v)\<close>. A string is stripped and read as an optional sign and decimal digits with single
  underscores between them, up to 4300 digits.
\<close>

fun digit_groups :: "string list \<Rightarrow> bool" where
  "digit_groups [] = False"
| "digit_groups [g] = (g \<noteq> [] \<and> all_digits g)"
| "digit_groups (g # gs) = (g \<noteq> [] \<and> all_digits g \<and> digit_groups gs)"

definition int_of_text :: "string \<Rightarrow> int result" where
  "int_of_text s =
     (let t = py_strip s;
          negative = (t \<noteq> [] \<and> hd t = CHR ''-'');
          body = (if t \<noteq> [] \<and> hd t \<in> {CHR ''-'', CHR ''+''} then tl t else t);
          digits = filter (\<lambda>c. c \<noteq> CHR ''_'') body
      in if \<not> digit_groups (split_on CHR ''_'' body)
         then Inl (ValueError (''invalid literal for int() with base 10: '' @ repr_str s))
         else if 4300 < length digits
         then Inl (ValueError (''Exceeds the limit (4300 digits) for integer string conversion: value has '' @
                str_of_nat (length digits) @ '' digits; use sys.set_int_max_str_digits() to increase the limit''))
         else Inr (if negative then - int (digits_val 0 digits) else int (digits_val 0 digits)))"

definition type_name :: "pyval \<Rightarrow> string" where
  "type_name v = (case v of VNone \<Rightarrow> ''NoneType'' | VBool _ \<Rightarrow> ''bool'' | VInt _ \<Rightarrow> ''int''
     | VStr _ \<Rightarrow> ''str'' | VList _ \<Rightarrow> ''list'' | VDict _ \<Rightarrow> ''dict'')"

definition py_int :: "pyval \<Rightarrow> int result" where
  "py_int v =
     (case v of VInt i \<Rightarrow> Inr i | VBool b \<Rightarrow> Inr (of_bool b) | VStr s \<Rightarrow> int_of_text s
      | _ \<Rightarrow> Inl (TypeError (''int() argument must be a string, a bytes-like object or a real number, not '' @
               repr_str (type_name v))))"

definition py_bool :: "pyval \<Rightarrow> bool" where
  "py_bool v = (case v of VNone \<Rightarrow> False | VBool b \<Rightarrow> b | VInt i \<Rightarrow> i \<noteq> 0 | VStr s \<Rightarrow> s \<noteq> []
     | VList vs \<Rightarrow> vs \<noteq> [] | VDict d \<Rightarrow> d \<noteq> [])"

text \<open>\<open>None if v is None else str(v)\<close>, and the way back.\<close>

definition opt_str :: "pyval \<Rightarrow> string option" where
  "opt_str v = (if v = VNone then None else Some (py_str v))"

definition of_opt :: "string option \<Rightarrow> pyval" where
  "of_opt v = (case v of None \<Rightarrow> VNone | Some s \<Rightarrow> VStr s)"

definition of_opt_int :: "int option \<Rightarrow> pyval" where
  "of_opt_int v = (case v of None \<Rightarrow> VNone | Some i \<Rightarrow> VInt i)"

lemma opt_str_of_opt [simp]: "opt_str (of_opt v) = v"
  by (cases v) (simp_all add: opt_str_def of_opt_def py_str_def)

lemma opt_str_VNone [simp]: "opt_str VNone = None"
  by (simp add: opt_str_def)

lemma py_conversions [simp]: "py_int (VInt i) = Inr i" "py_bool (VBool b) = b"
  by (simp_all add: py_int_def py_bool_def)

text \<open>\<open>isinstance(v, list) and all(isinstance(x, str) for x in v)\<close>, with the strings.\<close>

fun strings_of :: "pyval list \<Rightarrow> string list option" where
  "strings_of [] = Some []"
| "strings_of (VStr s # vs) = (case strings_of vs of None \<Rightarrow> None | Some ss \<Rightarrow> Some (s # ss))"
| "strings_of _ = None"

definition string_list :: "pyval \<Rightarrow> string list option" where
  "string_list v = (case v of VList vs \<Rightarrow> strings_of vs | _ \<Rightarrow> None)"

definition of_strings :: "string list \<Rightarrow> pyval" where
  "of_strings ss = VList (map VStr ss)"

lemma strings_of_map [simp]: "strings_of (map VStr ss) = Some ss"
  by (induction ss) auto

lemma string_list_of_strings [simp]: "string_list (of_strings ss) = Some ss"
  by (simp add: string_list_def of_strings_def)

section \<open>Dictionaries\<close>

definition dict_get :: "pydict \<Rightarrow> string \<Rightarrow> pyval option" where
  "dict_get d k = map_of d k"

text \<open>\<open>d.get(k)\<close>, which is \<open>None\<close> for a missing key.\<close>

definition dict_get_none :: "pydict \<Rightarrow> string \<Rightarrow> pyval" where
  "dict_get_none d k = (case map_of d k of None \<Rightarrow> VNone | Some v \<Rightarrow> v)"

text \<open>\<open>d[k] = v\<close>: an existing key keeps its place, a new one goes to the end.\<close>

fun dict_set :: "(string \<times> 'a) list \<Rightarrow> string \<Rightarrow> 'a \<Rightarrow> (string \<times> 'a) list" where
  "dict_set [] k v = [(k, v)]"
| "dict_set ((k', v') # d) k v = (if k' = k then (k, v) # d else (k', v') # dict_set d k v)"

definition keys_of :: "(string \<times> 'a) list \<Rightarrow> string set" where
  "keys_of d = fst ` set d"

definition same_keys :: "pydict \<Rightarrow> string list \<Rightarrow> bool" where
  "same_keys d ks \<longleftrightarrow> set (map fst d) = set ks"

lemma map_of_dict_set: "map_of (dict_set d k v) = (map_of d)(k \<mapsto> v)"
  by (induction d k v rule: dict_set.induct) auto

lemma keys_of_dict_set [simp]: "keys_of (dict_set d k v) = insert k (keys_of d)"
  by (induction d k v rule: dict_set.induct) (auto simp: keys_of_def)

lemma in_dict_setD: "(k', v') \<in> set (dict_set d k v) \<Longrightarrow> (k' = k \<and> v' = v) \<or> (k', v') \<in> set d"
  by (induction d k v rule: dict_set.induct) (auto split: if_splits)

lemma distinct_dict_set: "distinct (map fst d) \<Longrightarrow> distinct (map fst (dict_set d k v))"
proof (induction d k v rule: dict_set.induct)
  case (2 k' v' d k v)
  have "fst ` set (dict_set d k v) = insert k (fst ` set d)"
    using keys_of_dict_set [of d k v] by (simp add: keys_of_def)
  with 2 show ?case by auto
qed simp

text \<open>Members of a container are smaller than it; the recursive walks terminate by this.\<close>

lemma size_in_list [simp]: "v \<in> set vs \<Longrightarrow> size v < size (VList vs)"
  using size_list_estimation' [of v vs "size v" size] by simp

lemma size_in_dict [simp]: "kv \<in> set kvs \<Longrightarrow> size (snd kv) < size (VDict kvs)"
  using size_list_estimation' [of kv kvs "size (snd kv)" "size_prod (\<lambda>_. 0) size"]
  by (cases kv) simp

section \<open>Mapping a fallible function\<close>

fun map_result :: "('a \<Rightarrow> 'b result) \<Rightarrow> 'a list \<Rightarrow> 'b list result" where
  "map_result f [] = Inr []"
| "map_result f (x # xs) =
     (case f x of Inl e \<Rightarrow> Inl e
      | Inr y \<Rightarrow> (case map_result f xs of Inl e \<Rightarrow> Inl e | Inr ys \<Rightarrow> Inr (y # ys)))"

lemma map_result_cong [fundef_cong]:
  "xs = ys \<Longrightarrow> (\<And>x. x \<in> set ys \<Longrightarrow> f x = g x) \<Longrightarrow> map_result f xs = map_result g ys"
  by (induction ys arbitrary: xs) (auto split: sum.split)

lemma map_result_Inr_in:
  "map_result f xs = Inr ys \<Longrightarrow> y \<in> set ys \<Longrightarrow> \<exists>x \<in> set xs. f x = Inr y"
proof (induction xs arbitrary: ys)
  case (Cons x xs)
  then show ?case by (fastforce split: sum.splits)
qed simp

lemma length_map_result: "map_result f xs = Inr ys \<Longrightarrow> length ys = length xs"
  by (induction xs arbitrary: ys) (auto split: sum.splits)

end
