(* ===== verification/Redaction.thy ===== *)
theory Redaction
  imports Egress Py_Value
begin

text \<open>
  domain/redaction.py, the redaction helpers backed by the egress decision, and the structured
  sanitizer of domain/egress.py. \<open>redact_text\<close> replaces the detected ranges by the marker
  \<open><redacted>\<close>; \<open>redact_data\<close> and \<open>sanitize_egress_data\<close> walk a structured value.
\<close>

section \<open>Text\<close>

fun legacy_from :: "string \<Rightarrow> nat \<Rightarrow> EgressRange list \<Rightarrow> string" where
  "legacy_from v cursor [] = drop cursor v"
| "legacy_from v cursor (r # rs) =
     str_slice cursor (rng_start r) v @ ''<redacted>'' @ legacy_from v (rng_end r) rs"

definition legacy_redaction :: "string \<Rightarrow> EgressRange list \<Rightarrow> string" where
  "legacy_redaction v rs = (if rs = [] then v else legacy_from v 0 rs)"

definition bound_text :: "string \<Rightarrow> nat \<Rightarrow> string" where
  "bound_text v limit =
     (if length v \<le> limit then v
      else let half = max 1 (limit div 2);
               omitted = int (length v) - int (half * 2)
           in take half v @ [CHR 0x0A] @ ''... <'' @ str_of_int omitted @ '' characters omitted> ...'' @
              [CHR 0x0A] @ drop (length v - half) v)"

definition redaction_request :: "string \<Rightarrow> string list \<Rightarrow> int \<Rightarrow> EgressRequest" where
  "redaction_request v secrets limit =
     \<lparr>req_content = v, content_class = DIAGNOSTIC, destination = TO_DIAGNOSTIC, source_path = None,
      source_symbol = None, snapshot_identity = None, source_denied = False,
      explicit_secrets = filter (\<lambda>s. s \<noteq> []) secrets, allow_values = [],
      policy = \<lparr>max_input_bytes = max 1 (int (length (utf8_encode v))),
                max_output_chars = max 1 (min (max (int (length v)) limit) 1000000),
                max_output_lines = 20000, withhold_private_keys = False, reject_binary = True\<rparr>\<rparr>"

text \<open>\<open>redact_text(value, secrets=secrets, limit=limit, field_key=field_key)\<close>\<close>

definition redact_text :: "string \<Rightarrow> string list \<Rightarrow> int \<Rightarrow> string \<Rightarrow> string result" where
  "redact_text v secrets limit field_key =
     (if limit \<le> 0 then Inl (ValueError ''limit must be a positive integer'')
      else if 20000000 < length (utf8_encode v) then Inr ''<redacted:oversized>''
      else case egress_request_check (redaction_request v secrets limit) of
        Some e \<Rightarrow> Inl e
      | None \<Rightarrow>
        (let res = evaluate_egress (redaction_request v secrets limit) in
         if res_findings res \<noteq> [] \<and> (\<forall>f \<in> set (res_findings res). fnd_category f = ''high_entropy'') \<and>
            field_key \<noteq> [] \<and> entropy_exempt_field field_key v
         then Inr (bound_text v (nat limit))
         else Inr (bound_text (legacy_redaction v (res_ranges res)) (nat limit))))"

section \<open>Structured data\<close>

text \<open>The sensitive keys of redaction.py (egress.py has one more, \<open>passwd\<close>).\<close>

definition REDACTION_SENSITIVE_KEYS :: "string list" where
  "REDACTION_SENSITIVE_KEYS =
     [''authorization'', ''control_plane_api_key'', ''api_key'', ''apikey'', ''access_token'', ''token'',
      ''secret'', ''password'', ''credential'', ''credentials'']"

definition lowered_key :: "string \<Rightarrow> string" where
  "lowered_key k = replace_char CHR ''-'' CHR ''_'' (py_lower k)"

definition dict_of :: "(string \<times> 'a) list \<Rightarrow> (string \<times> 'a) list" where
  "dict_of kvs = foldl (\<lambda>d (k, v). dict_set d k v) [] kvs"

function (sequential) redact_data :: "string list \<Rightarrow> string \<Rightarrow> pyval \<Rightarrow> pyval result" where
  "redact_data secrets key (VDict kvs) =
     (case map_result (\<lambda>kv.
         (if lowered_key (fst kv) \<in> set REDACTION_SENSITIVE_KEYS then Inr (fst kv, VStr ''<redacted>'')
          else case redact_data (filter (\<lambda>s. s \<noteq> []) secrets) (lowered_key (fst kv)) (snd kv) of
                 Inl e \<Rightarrow> Inl e | Inr v \<Rightarrow> Inr (fst kv, v))) kvs of
        Inl e \<Rightarrow> Inl e | Inr d \<Rightarrow> Inr (VDict (dict_of d)))"
| "redact_data secrets key (VList vs) =
     (case map_result (\<lambda>v. redact_data (filter (\<lambda>s. s \<noteq> []) secrets) key v) vs of
        Inl e \<Rightarrow> Inl e | Inr ws \<Rightarrow> Inr (VList ws))"
| "redact_data secrets key (VStr s) =
     (case redact_text s (filter (\<lambda>s. s \<noteq> []) secrets) 8000 key of Inl e \<Rightarrow> Inl e | Inr t \<Rightarrow> Inr (VStr t))"
| "redact_data secrets key v = Inr v"
  by pat_completeness auto
termination
  by (relation "measure (\<lambda>(secrets, key, v). size v)") (simp_all del: pyval.size)

definition OMITTED_CONTENT_KEYS :: "string list" where
  "OMITTED_CONTENT_KEYS =
     [''body'', ''content'', ''patch'', ''diff'', ''stdout'', ''stderr'', ''environment'']"

text \<open>The keys and values one entry of the source dictionary contributes to the result.\<close>

definition omitted_entries :: "string \<Rightarrow> pyval \<Rightarrow> (string \<times> pyval) list" where
  "omitted_entries k v =
     [(k @ ''_omitted'', VBool True),
      (k @ ''_sha256'', VStr (sha256_hex (utf8_encode (py_repr v))))]"


function (sequential) sanitize_persisted_data :: "string list \<Rightarrow> string \<Rightarrow> pyval \<Rightarrow> pyval result" where
  "sanitize_persisted_data secrets key (VDict kvs) =
     (case map_result (\<lambda>kv.
         (if lowered_key (fst kv) \<in> set REDACTION_SENSITIVE_KEYS then Inr [(fst kv, VStr ''<redacted>'')]
          else if lowered_key (fst kv) \<in> set OMITTED_CONTENT_KEYS then Inr (omitted_entries (fst kv) (snd kv))
          else case sanitize_persisted_data (filter (\<lambda>s. s \<noteq> []) secrets) (lowered_key (fst kv)) (snd kv) of
                 Inl e \<Rightarrow> Inl e | Inr v \<Rightarrow> Inr [(fst kv, v)])) kvs of
        Inl e \<Rightarrow> Inl e | Inr ds \<Rightarrow> Inr (VDict (dict_of (concat ds))))"
| "sanitize_persisted_data secrets key (VList vs) =
     (case map_result (\<lambda>v. sanitize_persisted_data (filter (\<lambda>s. s \<noteq> []) secrets) key v) vs of
        Inl e \<Rightarrow> Inl e | Inr ws \<Rightarrow> Inr (VList ws))"
| "sanitize_persisted_data secrets key (VStr s) =
     (case redact_text s (filter (\<lambda>s. s \<noteq> []) secrets) 8000 key of Inl e \<Rightarrow> Inl e | Inr t \<Rightarrow> Inr (VStr t))"
| "sanitize_persisted_data secrets key v = Inr v"
  by pat_completeness auto
termination
  by (relation "measure (\<lambda>(secrets, key, v). size v)") (simp_all del: pyval.size)

text \<open>
  \<open>sanitize_egress_data\<close>: the fixed arguments of a walk, then the walk. Items past the two
  thousandth are dropped; a value nested deeper than sixteen levels is withheld.
\<close>

record sanitize_ctx =
  sx_destination :: EgressDestination
  sx_class :: EgressContentClass
  sx_secrets :: "string list"
  sx_allow :: "string list"
  sx_policy :: EgressPolicy

definition sanitize_request :: "sanitize_ctx \<Rightarrow> string \<Rightarrow> EgressRequest" where
  "sanitize_request cx s =
     \<lparr>req_content = s, content_class = sx_class cx, destination = sx_destination cx, source_path = None,
      source_symbol = None, snapshot_identity = None, source_denied = False,
      explicit_secrets = sx_secrets cx, allow_values = sx_allow cx, policy = sx_policy cx\<rparr>"

definition sanitize_text :: "sanitize_ctx \<Rightarrow> string \<Rightarrow> string \<Rightarrow> string result" where
  "sanitize_text cx key s =
     (case egress_request_check (sanitize_request cx s) of Some e \<Rightarrow> Inl e
      | None \<Rightarrow>
        (let ev = evaluate_egress (sanitize_request cx s) in
         if res_findings ev \<noteq> [] \<and> (\<forall>f \<in> set (res_findings ev). fnd_category f = ''high_entropy'') \<and>
            entropy_exempt_field key s
         then Inr s
         else Inr (case res_content ev of Some t \<Rightarrow> t
                   | None \<Rightarrow> ''<'' @ decision_value (res_decision ev) @ '':'' @ res_reason ev @ ''>'')))"

function (sequential) sanitize_egress_data :: "sanitize_ctx \<Rightarrow> string \<Rightarrow> nat \<Rightarrow> pyval \<Rightarrow> pyval result" where
  "sanitize_egress_data cx key depth v =
     (if 16 < depth then Inr (VStr ''<withheld:structure-depth>'')
      else case v of
        VDict kvs \<Rightarrow>
          (case map_result (\<lambda>kv.
             (if normalized_key (fst kv) \<in> set SENSITIVE_KEYS
              then Inr (fst kv, VStr ''<redacted:sensitive_config>'')
              else case sanitize_egress_data cx (normalized_key (fst kv)) (depth + 1) (snd kv) of
                     Inl e \<Rightarrow> Inl e | Inr w \<Rightarrow> Inr (fst kv, w))) (take 2000 kvs) of
             Inl e \<Rightarrow> Inl e
           | Inr d \<Rightarrow>
               Inr (VDict (if 2000 < length kvs then dict_set (dict_of d) ''items_truncated'' (VBool True)
                           else dict_of d)))
      | VList vs \<Rightarrow>
          (case map_result (\<lambda>w. sanitize_egress_data cx key (depth + 1) w) (take 2000 vs) of
             Inl e \<Rightarrow> Inl e | Inr ws \<Rightarrow> Inr (VList ws))
      | VStr s \<Rightarrow> (case sanitize_text cx key s of Inl e \<Rightarrow> Inl e | Inr t \<Rightarrow> Inr (VStr t))
      | _ \<Rightarrow> Inr v)"
  by pat_completeness auto
termination
  by (relation "measure (\<lambda>(cx, key, depth, v). size v)")
     (auto simp del: pyval.size dest!: in_set_takeD intro: size_in_dict size_in_list)

declare sanitize_egress_data.simps [simp del]


section \<open>Lemmas: the text path\<close>

lemma legacy_from_cong:
  assumes "well_spaced (length t) cur rs" "length t = length t'"
    and "\<And>i. cur \<le> i \<Longrightarrow> i < length t \<Longrightarrow> \<not> in_ranges rs i \<Longrightarrow> t ! i = t' ! i"
  shows "legacy_from t cur rs = legacy_from t' cur rs"
  using assms
proof (induction rs arbitrary: cur)
  case Nil
  then show ?case by (auto simp: in_ranges_def intro!: nth_equalityI)
next
  case (Cons r rs)
  have ws: "well_spaced (length t) (rng_end r) rs" and le: "cur \<le> rng_start r" "rng_start r < rng_end r"
    using Cons.prems(1) by auto
  have "legacy_from t (rng_end r) rs = legacy_from t' (rng_end r) rs"
    using le Cons.prems(2,3) by (intro Cons.IH [OF ws]) (auto simp: in_ranges_Cons)
  moreover have "\<And>i. i < rng_start r \<Longrightarrow> \<not> in_ranges rs i"
    using in_ranges_ge [OF ws] le(2) by fastforce
  then have "str_slice cur (rng_start r) t = str_slice cur (rng_start r) t'"
    using Cons.prems(2,3) by (intro str_slice_cong) (auto simp: in_ranges_Cons)
  ultimately show ?case by simp
qed

lemma redaction_request_ranges:
  fixes secrets :: "string list" and limit :: int
  assumes "length (utf8_encode v) \<le> 20000000" "CHR 0x00 \<notin> set v"
  defines "rq \<equiv> redaction_request v secrets limit"
  obtains rs where
    "merge_ranges (detect v rq) (sha256_hex (utf8_encode v)) = (rs, res_findings (evaluate_egress rq))"
    "res_ranges (evaluate_egress rq) = rs"
proof -
  obtain rs fs where m: "merge_ranges (detect v rq) (sha256_hex (utf8_encode v)) = (rs, fs)"
    by (cases "merge_ranges (detect v rq) (sha256_hex (utf8_encode v))")
  have "res_findings (evaluate_egress rq) = fs" "res_ranges (evaluate_egress rq) = rs"
    using assms(2) m
    by (simp_all add: rq_def evaluate_egress_def Let_def redaction_request_def split: prod.splits)
  with m that show thesis by simp
qed

text \<open>A text that holds an explicit secret takes the redacting branch, whatever the field.\<close>

lemma redact_text_with_secret:
  assumes "redact_text v secrets limit key = Inr out"
    and "length (utf8_encode v) \<le> 20000000" "CHR 0x00 \<notin> set v"
    and "secret \<in> set secrets" "secret \<noteq> []" "\<not> fullmatch SANITIZED_MARKER secret"
    and "k \<le> length v" "startswith (drop k v) secret"
  defines "rs \<equiv> res_ranges (evaluate_egress (redaction_request v secrets limit))"
  shows "out = bound_text (legacy_redaction v rs) (nat limit)"
    and "well_spaced (length v) 0 rs" and "in_ranges rs k"
proof -
  let ?rq = "redaction_request v secrets limit"
  obtain rs' where m: "merge_ranges (detect v ?rq) (sha256_hex (utf8_encode v)) =
      (rs', res_findings (evaluate_egress ?rq))" "res_ranges (evaluate_egress ?rq) = rs'"
    by (rule redaction_request_ranges [OF assms(2,3)])
  have "secret \<in> set (explicit_secrets ?rq)" "secret \<notin> set (allow_values ?rq)"
    using assms(4,5) by (simp_all add: redaction_request_def)
  from detect_secret_candidate [OF this assms(6,5,8,7)] obtain c where
    c: "c \<in> set (detect v ?rq)" "cand_start c \<le> k" "k < cand_end c" "cand_category c = ''explicit_secret''" by blast
  show "well_spaced (length v) 0 rs" unfolding rs_def m(2) by (rule detect_ranges(1) [OF m(1)])
  from detect_ranges(2) [OF m(1) c(1)] c(2,3) show "in_ranges rs k"
    unfolding rs_def m(2) in_ranges_def by (meson le_less_trans less_le_trans order_trans)
  have "res_findings (evaluate_egress ?rq) = map (candidate_finding (sha256_hex (utf8_encode v))) (detect v ?rq)"
    using m(1) by (simp add: merge_ranges_def Let_def)
  with c have "\<not> (\<forall>f \<in> set (res_findings (evaluate_egress ?rq)). fnd_category f = ''high_entropy'')"
    by (auto simp: candidate_finding_def intro!: bexI [of _ c])
  with assms(1,2) show "out = bound_text (legacy_redaction v rs) (nat limit)"
    unfolding rs_def redact_text_def by (auto simp: Let_def split: if_splits option.splits)
qed

text \<open>
  A walk that hides sensitive keys: in every dictionary of the value, at any depth, the entry of
  a key that the test accepts holds the marker.
\<close>

fun hides_keys :: "(string \<Rightarrow> bool) \<Rightarrow> pyval \<Rightarrow> pyval \<Rightarrow> bool" where
  "hides_keys p mark (VDict kvs) =
     (\<forall>kv \<in> set kvs. if p (fst kv) then snd kv = mark else hides_keys p mark (snd kv))"
| "hides_keys p mark (VList vs) = (\<forall>v \<in> set vs. hides_keys p mark v)"
| "hides_keys p mark v = True"

lemma in_foldl_dict_setD:
  "(k, v) \<in> set (foldl (\<lambda>d (k, v). dict_set d k v) d kvs) \<Longrightarrow> (k, v) \<in> set d \<or> (k, v) \<in> set kvs"
proof (induction kvs arbitrary: d)
  case (Cons kv kvs)
  then show ?case by (cases kv) (auto dest!: Cons.IH in_dict_setD)
qed simp

lemma in_dict_ofD: "(k, v) \<in> set (dict_of kvs) \<Longrightarrow> (k, v) \<in> set kvs"
  unfolding dict_of_def using in_foldl_dict_setD by fastforce

lemma hides_keys_dict_of:
  assumes "\<And>kv. kv \<in> set kvs \<Longrightarrow> if p (fst kv) then snd kv = mark else hides_keys p mark (snd kv)"
  shows "hides_keys p mark (VDict (dict_of kvs))"
  using assms by (auto dest!: in_dict_ofD) (metis fst_conv snd_conv)+

definition redaction_sensitive :: "string \<Rightarrow> bool" where
  "redaction_sensitive k \<longleftrightarrow> lowered_key k \<in> set REDACTION_SENSITIVE_KEYS"

definition egress_sensitive :: "string \<Rightarrow> bool" where
  "egress_sensitive k \<longleftrightarrow> normalized_key k \<in> set SENSITIVE_KEYS"

lemma hides_entry:
  assumes "(if p (fst kv0) then Inr (fst kv0, mark)
            else case r of Inl e \<Rightarrow> Inl e | Inr v \<Rightarrow> Inr (fst kv0, v)) = (Inr kv :: (string \<times> pyval) result)"
    and "\<And>v. \<not> p (fst kv0) \<Longrightarrow> r = Inr v \<Longrightarrow> hides_keys p mark v"
  shows "if p (fst kv) then snd kv = mark else hides_keys p mark (snd kv)"
proof (cases "p (fst kv0)")
  case True
  with assms(1) show ?thesis by auto
next
  case False
  with assms(1) obtain v where "r = Inr v" "kv = (fst kv0, v)" by (auto split: sum.splits)
  with assms(2) False show ?thesis by simp
qed

lemma redact_data_hides:
  "redact_data secrets key v = Inr w \<Longrightarrow> hides_keys redaction_sensitive (VStr ''<redacted>'') w"
proof (induction secrets key v arbitrary: w rule: redact_data.induct)
  case (1 secrets key kvs)
  from "1.prems" obtain d where d: "map_result (\<lambda>kv.
         (if lowered_key (fst kv) \<in> set REDACTION_SENSITIVE_KEYS then Inr (fst kv, VStr ''<redacted>'')
          else case redact_data (filter (\<lambda>s. s \<noteq> []) secrets) (lowered_key (fst kv)) (snd kv) of
                 Inl e \<Rightarrow> Inl e | Inr v \<Rightarrow> Inr (fst kv, v))) kvs = Inr d" and w: "w = VDict (dict_of d)"
    by (auto split: sum.splits)
  have "if redaction_sensitive (fst kv) then snd kv = VStr ''<redacted>''
        else hides_keys redaction_sensitive (VStr ''<redacted>'') (snd kv)" if "kv \<in> set d" for kv
  proof -
    from map_result_Inr_in [OF d that] obtain kv0 where kv0: "kv0 \<in> set kvs" and
      e: "(if redaction_sensitive (fst kv0) then Inr (fst kv0, VStr ''<redacted>'')
          else case redact_data (filter (\<lambda>s. s \<noteq> []) secrets) (lowered_key (fst kv0)) (snd kv0) of
                 Inl e \<Rightarrow> Inl e | Inr v \<Rightarrow> Inr (fst kv0, v)) = Inr kv"
      unfolding redaction_sensitive_def by blast
    show ?thesis by (rule hides_entry [where p = redaction_sensitive, OF e]) (use "1.IH" [OF kv0] in \<open>simp add: redaction_sensitive_def [of "fst kv0"]\<close>)
  qed
  then show ?case unfolding w by (rule hides_keys_dict_of)
next
  case (2 secrets key vs)
  from "2.prems" obtain ws where ws: "map_result (\<lambda>v. redact_data (filter (\<lambda>s. s \<noteq> []) secrets) key v) vs = Inr ws"
    and w: "w = VList ws" by (auto split: sum.splits)
  from map_result_Inr_in [OF ws] "2.IH" w show ?case by fastforce
qed (auto split: sum.splits)

lemma sanitize_egress_data_hides:
  "sanitize_egress_data cx key depth v = Inr w \<Longrightarrow>
     hides_keys egress_sensitive (VStr ''<redacted:sensitive_config>'') w"
proof (induction cx key depth v arbitrary: w rule: sanitize_egress_data.induct)
  case (1 cx key depth v)
  let ?mark = "VStr ''<redacted:sensitive_config>''"
  show ?case
  proof (cases "16 < depth")
    case True
    with "1.prems" show ?thesis by (auto simp: sanitize_egress_data.simps [of cx key depth v])
  next
    case deep: False
    show ?thesis
    proof (cases v)
      case (VDict kvs)
      from "1.prems" deep VDict obtain d where d: "map_result (\<lambda>kv.
             (if normalized_key (fst kv) \<in> set SENSITIVE_KEYS then Inr (fst kv, ?mark)
              else case sanitize_egress_data cx (normalized_key (fst kv)) (depth + 1) (snd kv) of
                     Inl e \<Rightarrow> Inl e | Inr w \<Rightarrow> Inr (fst kv, w))) (take 2000 kvs) = Inr d"
        and w: "w = VDict (if 2000 < length kvs then dict_set (dict_of d) ''items_truncated'' (VBool True) else dict_of d)"
        by (simp add: sanitize_egress_data.simps [of cx key depth "VDict kvs"] del: not_less split: sum.splits)
      have "if egress_sensitive (fst kv) then snd kv = ?mark else hides_keys egress_sensitive ?mark (snd kv)"
        if "kv \<in> set d" for kv
      proof -
        from map_result_Inr_in [OF d that] obtain kv0 where kv0: "kv0 \<in> set (take 2000 kvs)" and
          e: "(if egress_sensitive (fst kv0) then Inr (fst kv0, ?mark)
              else case sanitize_egress_data cx (normalized_key (fst kv0)) (depth + 1) (snd kv0) of
                     Inl e \<Rightarrow> Inl e | Inr w \<Rightarrow> Inr (fst kv0, w)) = Inr kv"
          unfolding egress_sensitive_def by blast
        show ?thesis
          by (rule hides_entry [where p = egress_sensitive, OF e]) (use "1.IH"(2) [OF deep VDict kv0] in \<open>simp add: egress_sensitive_def [of "fst kv0"]\<close>)
      qed
      then have h: "hides_keys egress_sensitive ?mark (VDict (dict_of d))" by (rule hides_keys_dict_of)
      moreover have "\<not> egress_sensitive ''items_truncated''" unfolding egress_sensitive_def by code_simp
      ultimately show ?thesis unfolding w by (auto dest!: in_dict_setD)
    next
      case (VList vs)
      from "1.prems" deep VList obtain ws where
        ws: "map_result (\<lambda>w. sanitize_egress_data cx key (depth + 1) w) (take 2000 vs) = Inr ws" and w: "w = VList ws"
        by (simp add: sanitize_egress_data.simps [of cx key depth "VList vs"] del: not_less split: sum.splits)
      from map_result_Inr_in [OF ws] "1.IH"(1) [OF deep VList] w show ?thesis by fastforce
    qed (use "1.prems" deep in \<open>auto simp: sanitize_egress_data.simps [of cx key depth] split: sum.splits\<close>)
  qed
qed

section \<open>Properties\<close>


lemma redact_pw: "redact_text ''k pw.'' [''pw''] 8000 [] = Inr ''k <redacted>.''"
proof -
  let ?rq = "redaction_request ''k pw.'' [''pw''] 8000" and ?dg = "sha256_hex (utf8_encode ''k pw.'')"
  have "detect ''k pw.'' ?rq = detect ''k pw.'' pw_request"
    by (simp add: detect_def redaction_request_def example_request_def)
  then obtain f where m: "merge_ranges (detect ''k pw.'' ?rq) ?dg =
      ([\<lparr>rng_start = 2, rng_end = 4, rng_category = ''explicit_secret'', rng_finding_id = f\<rparr>],
       map (candidate_finding ?dg) (detect ''k pw.'' pw_request))"
    by (simp add: detect_pw merge_ranges_def merged_range_def sorted_set_def)
  have len: "length (utf8_encode ''k pw.'') = 5" "CHR 0x00 \<notin> set ''k pw.''" by code_simp+
  obtain rs where rs: "merge_ranges (detect ''k pw.'' ?rq) ?dg = (rs, res_findings (evaluate_egress ?rq))"
    "res_ranges (evaluate_egress ?rq) = rs"
    by (rule redaction_request_ranges [of "''k pw.''" "[''pw'']" 8000]) (use len in simp_all)
  have "egress_request_check ?rq = None"
    by (simp add: egress_request_check_def redaction_request_def bounded_opt_check_def bounded_tuple_check_def)
  moreover have "rs = [\<lparr>rng_start = 2, rng_end = 4, rng_category = ''explicit_secret'', rng_finding_id = f\<rparr>]"
    using rs(1) m by simp
  ultimately show ?thesis using rs(2) len
    by (simp add: redact_text_def Let_def legacy_redaction_def str_slice_def bound_text_def)
qed


text \<open>
  Claim C37. A text with a NUL character is returned as it is, up to the length bound: the egress
  decision rejects it with no ranges, and \<open>redact_text\<close> reads the absence of ranges as the
  absence of secrets. Every secret in such a text survives redaction.
\<close>

theorem redact_text_keeps_binary_text:
  assumes "0 < limit" "CHR 0x00 \<in> set v" "length (utf8_encode v) \<le> 20000000"
    and "egress_request_check (redaction_request v secrets limit) = None"
  shows "redact_text v secrets limit key = Inr (bound_text v (nat limit))"
proof -
  have "res_ranges (evaluate_egress (redaction_request v secrets limit)) = []"
    using assms(2) by (simp add: evaluate_egress_def Let_def redaction_request_def blocked_def)
  with assms show ?thesis by (simp add: redact_text_def Let_def legacy_redaction_def)
qed

theorem redact_text_keeps_binary_text_witness:
  "redact_text ([CHR 0x00] @ ''password=hunter2'') [''hunter2''] 8000 ''log'' =
     Inr ([CHR 0x00] @ ''password=hunter2'')"
proof -
  let ?v = "[CHR 0x00] @ ''password=hunter2''"
  have "length (utf8_encode ?v) \<le> 20" by code_simp
  then have len: "length (utf8_encode ?v) \<le> 20000000" by linarith
  have "egress_request_check (redaction_request ?v [''hunter2''] 8000) = None"
    by (simp add: egress_request_check_def redaction_request_def bounded_opt_check_def bounded_tuple_check_def)
  with redact_text_keeps_binary_text [of 8000 ?v "[''hunter2'']" "''log''"] len
  show ?thesis by (simp add: bound_text_def)
qed

text \<open>
  In the result of \<open>redact_data\<close>, at every depth, each entry whose normalised key is
  one of the sensitive keys holds the marker and nothing else.
\<close>

theorem redact_data_hides_sensitive_keys:
  assumes "redact_data secrets key v = Inr w"
  shows "hides_keys redaction_sensitive (VStr ''<redacted>'') w"
  using redact_data_hides [OF assms] .

theorem redact_data_hides_sensitive_keys_witness:
  "redact_data [] [] (VDict [(''Api-Key'', VStr ''x''), (''n'', VInt 3)]) =
     Inr (VDict [(''Api-Key'', VStr ''<redacted>''), (''n'', VInt 3)]) \<and>
   hides_keys redaction_sensitive (VStr ''<redacted>'')
     (VDict [(''Api-Key'', VStr ''<redacted>''), (''n'', VInt 3)])"
proof -
  have "redact_data [] [] (VDict [(''Api-Key'', VStr ''x''), (''n'', VInt 3)]) =
     Inr (VDict [(''Api-Key'', VStr ''<redacted>''), (''n'', VInt 3)])" by code_simp
  with redact_data_hides_sensitive_keys [OF this] show ?thesis by blast
qed

text \<open>
  In the result of \<open>sanitize_egress_data\<close>, at every depth, each entry whose normalised
  key is one of the sensitive keys holds the marker and nothing else.
\<close>

theorem sanitize_egress_data_hides_sensitive_keys:
  assumes "sanitize_egress_data cx key depth v = Inr w"
  shows "hides_keys egress_sensitive (VStr ''<redacted:sensitive_config>'') w"
  using sanitize_egress_data_hides [OF assms] .

definition example_ctx :: sanitize_ctx where
  "example_ctx = \<lparr>sx_destination = TO_MODEL, sx_class = DIAGNOSTIC, sx_secrets = [], sx_allow = [],
     sx_policy = default_policy\<rparr>"

theorem sanitize_egress_data_hides_sensitive_keys_witness:
  "sanitize_egress_data example_ctx [] 0 (VDict [('' Passwd'', VStr ''x''), (''n'', VInt 3)]) =
     Inr (VDict [('' Passwd'', VStr ''<redacted:sensitive_config>''), (''n'', VInt 3)]) \<and>
   hides_keys egress_sensitive (VStr ''<redacted:sensitive_config>'')
     (VDict [('' Passwd'', VStr ''<redacted:sensitive_config>''), (''n'', VInt 3)])"
proof -
  have "sanitize_egress_data example_ctx [] 0 (VDict [('' Passwd'', VStr ''x''), (''n'', VInt 3)]) =
     Inr (VDict [('' Passwd'', VStr ''<redacted:sensitive_config>''), (''n'', VInt 3)])" by code_simp
  with sanitize_egress_data_hides_sensitive_keys [OF this] show ?thesis by blast
qed

end
