(* ===== verification/Iso_Time.thy ===== *)
theory Iso_Time
  imports Py_Prelude
begin

text \<open>
  Timestamps. Every durable record of the program carries ISO-8601 strings that are read with
  \<open>datetime.fromisoformat\<close>, compared as instants and written with \<open>datetime.isoformat\<close>. This
  theory models what the program uses of the \<open>datetime\<close> module: the proleptic Gregorian
  calendar, the comparison of zone-aware values, the addition of one microsecond, and the two
  conversions. The grammar accepted by \<open>fromisoformat\<close> is that of Python 3.10, the oldest
  interpreter the project supports (\<open>YYYY-MM-DD[*HH[:MM[:SS[.fff[fff]]]][+HH:MM[:SS[.ffffff]]]]\<close>).
\<close>

section \<open>Calendar\<close>

definition is_leap :: "nat \<Rightarrow> bool" where
  "is_leap y \<longleftrightarrow> y mod 4 = 0 \<and> (y mod 100 \<noteq> 0 \<or> y mod 400 = 0)"

definition days_in_month :: "nat \<Rightarrow> nat \<Rightarrow> nat" where
  "days_in_month y m =
     (if m = 2 then (if is_leap y then 29 else 28)
      else if m \<in> {4, 6, 9, 11} then 30 else 31)"

definition days_before_year :: "nat \<Rightarrow> nat" where
  "days_before_year y =
     (let p = y - 1 in p * 365 + p div 4 - p div 100 + p div 400)"

fun days_before_month :: "nat \<Rightarrow> nat \<Rightarrow> nat" where
  "days_before_month y 0 = 0"
| "days_before_month y (Suc m) = (if m = 0 then 0 else days_before_month y m + days_in_month y m)"

definition ymd2ord :: "nat \<Rightarrow> nat \<Rightarrow> nat \<Rightarrow> nat" where
  "ymd2ord y m d = days_before_year y + days_before_month y m + d"

record pydatetime =
  dt_year :: nat
  dt_month :: nat
  dt_day :: nat
  dt_hour :: nat
  dt_minute :: nat
  dt_second :: nat
  dt_micro :: nat
  dt_offset :: "int option"  \<comment> \<open>the UTC offset in microseconds; \<open>None\<close> for a naive value\<close>

definition day_micros :: int where
  "day_micros = 86400000000"

definition valid_offset :: "int option \<Rightarrow> bool" where
  "valid_offset off = (case off of None \<Rightarrow> True | Some o' \<Rightarrow> - day_micros < o' \<and> o' < day_micros)"

text \<open>The range checks of the \<open>datetime\<close> and \<open>timezone\<close> constructors.\<close>

definition valid_datetime :: "pydatetime \<Rightarrow> bool" where
  "valid_datetime d \<longleftrightarrow>
     1 \<le> dt_year d \<and> dt_year d \<le> 9999 \<and> 1 \<le> dt_month d \<and> dt_month d \<le> 12 \<and>
     1 \<le> dt_day d \<and> dt_day d \<le> days_in_month (dt_year d) (dt_month d) \<and>
     dt_hour d < 24 \<and> dt_minute d < 60 \<and> dt_second d < 60 \<and> dt_micro d < 1000000 \<and>
     valid_offset (dt_offset d)"

definition local_micros :: "pydatetime \<Rightarrow> int" where
  "local_micros d =
     (((int (ymd2ord (dt_year d) (dt_month d) (dt_day d)) * 24 + int (dt_hour d)) * 60
        + int (dt_minute d)) * 60 + int (dt_second d)) * 1000000 + int (dt_micro d)"

definition is_aware :: "pydatetime \<Rightarrow> bool" where
  "is_aware d \<longleftrightarrow> dt_offset d \<noteq> None"

text \<open>The instant of an aware value: its local time less its offset. \<open><=\<close> and \<open><\<close> on aware
  values compare instants.\<close>

definition instant :: "pydatetime \<Rightarrow> int" where
  "instant d = local_micros d - (case dt_offset d of None \<Rightarrow> 0 | Some o' \<Rightarrow> o')"

section \<open>Adding one microsecond\<close>

text \<open>
  \<open>d + timedelta(microseconds=1)\<close>: the fields are normalised with carries; past the last
  representable day Python raises \<open>OverflowError\<close>.
\<close>

definition next_day :: "pydatetime \<Rightarrow> pydatetime result" where
  "next_day d =
     (if dt_day d < days_in_month (dt_year d) (dt_month d) then Inr (d\<lparr>dt_day := dt_day d + 1\<rparr>)
      else if dt_month d < 12 then Inr (d\<lparr>dt_month := dt_month d + 1, dt_day := 1\<rparr>)
      else if dt_year d < 9999 then Inr (d\<lparr>dt_year := dt_year d + 1, dt_month := 1, dt_day := 1\<rparr>)
      else Inl (OverflowError ''date value out of range''))"

definition add_microsecond :: "pydatetime \<Rightarrow> pydatetime result" where
  "add_microsecond d =
     (if dt_micro d + 1 < 1000000 then Inr (d\<lparr>dt_micro := dt_micro d + 1\<rparr>)
      else if dt_second d + 1 < 60 then Inr (d\<lparr>dt_second := dt_second d + 1, dt_micro := 0\<rparr>)
      else if dt_minute d + 1 < 60 then
        Inr (d\<lparr>dt_minute := dt_minute d + 1, dt_second := 0, dt_micro := 0\<rparr>)
      else if dt_hour d + 1 < 24 then
        Inr (d\<lparr>dt_hour := dt_hour d + 1, dt_minute := 0, dt_second := 0, dt_micro := 0\<rparr>)
      else next_day (d\<lparr>dt_hour := 0, dt_minute := 0, dt_second := 0, dt_micro := 0\<rparr>))"

section \<open>isoformat\<close>

definition iso_offset :: "int option \<Rightarrow> string" where
  "iso_offset off =
     (case off of None \<Rightarrow> []
      | Some o' \<Rightarrow>
        (let a = nat \<bar>o'\<bar>; us = a mod 1000000; s = a div 1000000 in
         (if o' < 0 then ''-'' else ''+'') @ fix_digits 2 (s div 3600) @ '':'' @
         fix_digits 2 (s div 60 mod 60) @
         (if s mod 60 = 0 \<and> us = 0 then []
          else '':'' @ fix_digits 2 (s mod 60) @ (if us = 0 then [] else ''.'' @ fix_digits 6 us))))"

definition iso_date :: "pydatetime \<Rightarrow> string" where
  "iso_date d =
     fix_digits 4 (dt_year d) @ ''-'' @ fix_digits 2 (dt_month d) @ ''-'' @ fix_digits 2 (dt_day d)"

definition iso_time :: "pydatetime \<Rightarrow> string" where
  "iso_time d =
     fix_digits 2 (dt_hour d) @ '':'' @ fix_digits 2 (dt_minute d) @ '':'' @
     fix_digits 2 (dt_second d) @
     (if dt_micro d = 0 then [] else ''.'' @ fix_digits 6 (dt_micro d))"

definition isoformat :: "pydatetime \<Rightarrow> string" where
  "isoformat d = iso_date d @ ''T'' @ iso_time d @ iso_offset (dt_offset d)"

section \<open>fromisoformat\<close>

definition parse_digits :: "nat \<Rightarrow> string \<Rightarrow> nat option" where
  "parse_digits k s = (if length s = k \<and> all_digits s then Some (digits_val 0 s) else None)"

definition parse_date :: "string \<Rightarrow> (nat \<times> nat \<times> nat) option" where
  "parse_date s =
     (case (parse_digits 4 (str_slice 0 4 s), parse_digits 2 (str_slice 5 7 s), parse_digits 2 (str_slice 8 10 s)) of
        (Some y, Some m, Some d) \<Rightarrow>
          (if str_slice 4 5 s = ''-'' \<and> str_slice 7 8 s = ''-'' then Some (y, m, d) else None)
      | _ \<Rightarrow> None)"

text \<open>\<open>HH[:MM[:SS[.fff[fff]]]]\<close>, told apart by length.\<close>

definition parse_fraction :: "string \<Rightarrow> nat option" where
  "parse_fraction s =
     (if s = [] then Some 0
      else if take 1 s \<noteq> ''.'' then None
      else if length s = 4 then map_option (\<lambda>n. n * 1000) (parse_digits 3 (drop 1 s))
      else parse_digits 6 (drop 1 s))"

definition parse_sep2 :: "string \<Rightarrow> nat option" where
  "parse_sep2 s = (if s = [] then Some 0 else if take 1 s = '':'' then parse_digits 2 (drop 1 s) else None)"

definition parse_hh_mm_ss_ff :: "string \<Rightarrow> (nat \<times> nat \<times> nat \<times> nat) option" where
  "parse_hh_mm_ss_ff s =
     (if length s \<notin> {2, 5, 8, 12, 15} then None
      else case (parse_digits 2 (take 2 s), parse_sep2 (str_slice 2 5 s), parse_sep2 (str_slice 5 8 s),
                 parse_fraction (drop 8 s)) of
             (Some h, Some m, Some sec, Some us) \<Rightarrow> Some (h, m, sec, us)
           | _ \<Rightarrow> None)"

definition not_sign :: "char \<Rightarrow> bool" where
  "not_sign c \<longleftrightarrow> c \<noteq> CHR ''-'' \<and> c \<noteq> CHR ''+''"

definition parse_offset :: "string \<Rightarrow> int option option" where
  "parse_offset s =
     (case s of [] \<Rightarrow> Some None
      | sign # rest \<Rightarrow>
          (if length rest \<notin> {5, 8, 15} then None
           else case parse_hh_mm_ss_ff rest of None \<Rightarrow> None
           | Some (h, m, sec, us) \<Rightarrow>
               (let a = ((int h * 60 + int m) * 60 + int sec) * 1000000 + int us in
                Some (Some (if sign = CHR ''-'' then - a else a)))))"

definition fromisoformat :: "string \<Rightarrow> pydatetime option" where
  "fromisoformat s =
     (case parse_date (take 10 s) of None \<Rightarrow> None
      | Some (y, m, d) \<Rightarrow>
        (let t = drop 11 s in
         case (if t = [] then Some (0, 0, 0, 0) else parse_hh_mm_ss_ff (takeWhile not_sign t)) of
           None \<Rightarrow> None
         | Some (h, mi, sec, us) \<Rightarrow>
           (case parse_offset (dropWhile not_sign t) of None \<Rightarrow> None
            | Some off \<Rightarrow>
              (let r = \<lparr>dt_year = y, dt_month = m, dt_day = d, dt_hour = h, dt_minute = mi,
                        dt_second = sec, dt_micro = us, dt_offset = off\<rparr> in
               if valid_datetime r then Some r else None))))"


section \<open>Lemmas\<close>

subsection \<open>The calendar\<close>

lemma days_in_month_pos: "28 \<le> days_in_month y m" "days_in_month y m \<le> 31"
  by (auto simp: days_in_month_def)

lemma days_before_month_Suc [simp]:
  "1 \<le> m \<Longrightarrow> days_before_month y (Suc m) = days_before_month y m + days_in_month y m"
  by simp

lemma days_before_month_13:
  "days_before_month y 12 + days_in_month y 12 = (if is_leap y then 366 else 365)"
  by (simp add: numeral_eq_Suc days_in_month_def)

lemma days_before_year_Suc:
  assumes "1 \<le> y"
  shows "days_before_year (y + 1) = days_before_year y + (if is_leap y then 366 else 365)"
proof -
  obtain p where p: "y = Suc p" using assms by (cases y) auto
  have d4: "Suc p div 4 = p div 4 + (if Suc p mod 4 = 0 then 1 else 0)"
    and d100: "Suc p div 100 = p div 100 + (if Suc p mod 100 = 0 then 1 else 0)"
    and d400: "Suc p div 400 = p div 400 + (if Suc p mod 400 = 0 then 1 else 0)"
    by (simp_all add: div_Suc)
  have "p div 100 \<le> p div 4" by (simp add: div_le_mono2)
  moreover have "Suc p mod 400 = 0 \<Longrightarrow> Suc p mod 100 = 0" "Suc p mod 100 = 0 \<Longrightarrow> Suc p mod 4 = 0"
    by (auto simp: dvd_eq_mod_eq_0 [symmetric] elim: dvd_trans [rotated])
  ultimately show ?thesis
    by (simp add: p days_before_year_def Let_def d4 d100 d400 is_leap_def ac_simps)
qed

lemma next_day_ord:
  assumes "valid_datetime d" and "next_day d = Inr d'"
  shows "ymd2ord (dt_year d') (dt_month d') (dt_day d') =
         ymd2ord (dt_year d) (dt_month d) (dt_day d) + 1"
proof -
  consider (day) "dt_day d < days_in_month (dt_year d) (dt_month d)"
    | (month) "dt_day d = days_in_month (dt_year d) (dt_month d)" "dt_month d < 12"
    | (year) "dt_day d = days_in_month (dt_year d) (dt_month d)" "dt_month d = 12"
    using assms(1) by (force simp: valid_datetime_def)
  then show ?thesis
  proof cases
    case day
    with assms show ?thesis by (auto simp: next_day_def ymd2ord_def)
  next
    case month
    with assms show ?thesis by (auto simp: next_day_def ymd2ord_def valid_datetime_def)
  next
    case year
    with assms have "d' = d\<lparr>dt_year := dt_year d + 1, dt_month := 1, dt_day := 1\<rparr>"
      by (auto simp: next_day_def split: if_splits)
    moreover have "1 \<le> dt_year d" using assms(1) by (simp add: valid_datetime_def)
    ultimately show ?thesis
      using year days_before_month_13 [of "dt_year d"]
      by (simp add: ymd2ord_def days_before_year_Suc [simplified])
  qed
qed

lemma next_day_valid:
  assumes "valid_datetime d" and "next_day d = Inr d'"
  shows "valid_datetime d'"
  using assms days_in_month_pos(1) [of "dt_year d" "dt_month d + 1"]
    days_in_month_pos(1) [of "dt_year d + 1" 1]
  by (auto simp: next_day_def valid_datetime_def split: if_splits)

lemma next_day_frame:
  assumes "next_day d = Inr d'"
  shows "dt_hour d' = dt_hour d" "dt_minute d' = dt_minute d" "dt_second d' = dt_second d"
    "dt_micro d' = dt_micro d" "dt_offset d' = dt_offset d"
  using assms by (auto simp: next_day_def split: if_splits)

lemma add_microsecond_valid:
  assumes "valid_datetime d" and "add_microsecond d = Inr d'"
  shows "valid_datetime d'"
proof (cases "dt_micro d + 1 < 1000000 \<or> dt_second d + 1 < 60 \<or> dt_minute d + 1 < 60 \<or> dt_hour d + 1 < 24")
  case True
  with assms show ?thesis by (auto simp: add_microsecond_def valid_datetime_def split: if_splits)
next
  case False
  let ?m = "d\<lparr>dt_hour := 0, dt_minute := 0, dt_second := 0, dt_micro := 0\<rparr>"
  from assms(1) have "valid_datetime ?m" by (simp add: valid_datetime_def)
  moreover from False assms(2) have "next_day ?m = Inr d'" by (simp add: add_microsecond_def)
  ultimately show ?thesis by (rule next_day_valid)
qed

lemma add_microsecond_local:
  assumes "valid_datetime d" and "add_microsecond d = Inr d'"
  shows "local_micros d' = local_micros d + 1 \<and> dt_offset d' = dt_offset d"
proof (cases "dt_micro d + 1 < 1000000 \<or> dt_second d + 1 < 60 \<or> dt_minute d + 1 < 60 \<or> dt_hour d + 1 < 24")
  case True
  have "dt_micro d < 1000000" "dt_second d < 60" "dt_minute d < 60" "dt_hour d < 24"
    using assms(1) by (auto simp: valid_datetime_def)
  then have "dt_micro d = 999999 \<or> dt_micro d + 1 < 1000000" "dt_second d = 59 \<or> dt_second d + 1 < 60"
    "dt_minute d = 59 \<or> dt_minute d + 1 < 60" "dt_hour d = 23 \<or> dt_hour d + 1 < 24"
    by auto
  with True assms(2) show ?thesis
    by (elim disjE) (auto simp: add_microsecond_def local_micros_def)
next
  case False
  let ?m = "d\<lparr>dt_hour := 0, dt_minute := 0, dt_second := 0, dt_micro := 0\<rparr>"
  from assms(1) have v: "valid_datetime ?m" by (simp add: valid_datetime_def)
  from False assms(2) have n: "next_day ?m = Inr d'" by (simp add: add_microsecond_def)
  have "dt_micro d = 999999" "dt_second d = 59" "dt_minute d = 59" "dt_hour d = 23"
    using False assms(1) by (auto simp: valid_datetime_def)
  with next_day_ord [OF v n] next_day_frame [OF n] show ?thesis
    by (simp add: local_micros_def)
qed

lemma add_microsecond_instant:
  assumes "valid_datetime d" and "add_microsecond d = Inr d'"
  shows "instant d' = instant d + 1"
  using add_microsecond_local [OF assms] by (simp add: instant_def)

subsection \<open>Reading back what was written\<close>

lemma parse_digits_fix [simp]: "n < 10 ^ k \<Longrightarrow> parse_digits k (fix_digits k n) = Some n"
  by (simp add: parse_digits_def)

lemma not_sign_digits: "all_digits s \<Longrightarrow> c \<in> set s \<Longrightarrow> not_sign c"
  by (auto simp: all_digits_def is_digit_def in_range_def not_sign_def)

lemma not_sign_fix [simp]: "c \<in> set (fix_digits k n) \<Longrightarrow> not_sign c"
  using not_sign_digits all_digits_fix_digits by blast

lemma fix_digits_nonempty [simp]: "fix_digits (Suc k) n \<noteq> []"
  by simp

lemma valid_datetime_bounds:
  assumes "valid_datetime d"
  shows "dt_year d < 10 ^ 4" "dt_month d < 10 ^ 2" "dt_day d < 10 ^ 2" "dt_hour d < 10 ^ 2"
    "dt_minute d < 10 ^ 2" "dt_second d < 10 ^ 2" "dt_micro d < 10 ^ 6"
  using assms days_in_month_pos(2) [of "dt_year d" "dt_month d"]
  by (auto simp: valid_datetime_def)

lemma parse_date_iso:
  assumes "valid_datetime d"
  shows "parse_date (iso_date d) = Some (dt_year d, dt_month d, dt_day d)"
  using valid_datetime_bounds [OF assms]
  by (simp add: parse_date_def iso_date_def str_slice_def)

definition clock_text :: "nat \<Rightarrow> nat \<Rightarrow> nat \<Rightarrow> nat \<Rightarrow> string" where
  "clock_text h m s us =
     fix_digits 2 h @ '':'' @ fix_digits 2 m @ '':'' @ fix_digits 2 s @
     (if us = 0 then [] else ''.'' @ fix_digits 6 us)"

lemma parse_clock_text:
  assumes "h < 100" "m < 100" "s < 100" "us < 1000000"
  shows "parse_hh_mm_ss_ff (clock_text h m s us) = Some (h, m, s, us)"
  using assms
  by (cases "us = 0")
     (simp_all add: parse_hh_mm_ss_ff_def clock_text_def str_slice_def parse_sep2_def parse_fraction_def)

lemma length_clock_text: "length (clock_text h m s us) = (if us = 0 then 8 else 15)"
  by (simp add: clock_text_def)

lemma not_sign_clock_text: "c \<in> set (clock_text h m s us) \<Longrightarrow> not_sign c"
  by (auto simp: clock_text_def not_sign_def [of "CHR '':''"] not_sign_def [of "CHR ''.''"] split: if_splits)

lemma parse_minutes_text:
  assumes "h < 100" "m < 100"
  shows "parse_hh_mm_ss_ff (fix_digits 2 h @ '':'' @ fix_digits 2 m) = Some (h, m, 0, 0)"
  using assms by (simp add: parse_hh_mm_ss_ff_def str_slice_def parse_sep2_def parse_fraction_def)

lemma parse_offset_Cons:
  assumes "parse_hh_mm_ss_ff rest = Some (h, m, sec, us)" and "length rest \<in> {5, 8, 15}"
    and "((int h * 60 + int m) * 60 + int sec) * 1000000 + int us = A"
  shows "parse_offset (sg # rest) = Some (Some (if sg = CHR ''-'' then - A else A))"
  unfolding parse_offset_def Let_def list.case assms(1) option.case prod.case assms(3)
  using assms(2) by simp

lemma parse_offset_iso:
  assumes "valid_offset off"
  shows "parse_offset (iso_offset off) = Some off"
proof (cases off)
  case None
  then show ?thesis by (simp add: iso_offset_def parse_offset_def)
next
  case (Some v)
  define a where "a = nat \<bar>v\<bar>"
  define s where "s = a div 1000000"
  have "a < 86400000000" using assms Some by (auto simp: valid_offset_def day_micros_def a_def)
  then have b: "s div 3600 < 100" "s div 60 mod 60 < 100" "s mod 60 < 100" "a mod 1000000 < 1000000"
    by (auto simp: s_def)
  have "s div 60 = s div 3600 * 60 + s div 60 mod 60"
    using div_mult_mod_eq [of "s div 60" 60] by (simp add: div_mult2_eq [symmetric])
  then have "s = (s div 3600 * 60 + s div 60 mod 60) * 60 + s mod 60"
    using div_mult_mod_eq [of s 60] by simp
  then have s: "int s = (int (s div 3600) * 60 + int (s div 60 mod 60)) * 60 + int (s mod 60)"
    by (metis of_nat_add of_nat_mult of_nat_numeral)
  have a: "int a = int s * 1000000 + int (a mod 1000000)"
    unfolding s_def by (metis div_mult_mod_eq of_nat_add of_nat_mult of_nat_numeral)
  have v: "v < 0 \<and> v = - int a \<or> \<not> v < 0 \<and> v = int a" by (auto simp: a_def)
  show ?thesis
  proof (cases "s mod 60 = 0 \<and> a mod 1000000 = 0")
    case True
    then have "iso_offset off = (if v < 0 then CHR ''-'' else CHR ''+'') #
        (fix_digits 2 (s div 3600) @ '':'' @ fix_digits 2 (s div 60 mod 60))"
      by (simp add: Some iso_offset_def Let_def a_def [symmetric] s_def [symmetric])
    moreover have "((int (s div 3600) * 60 + int (s div 60 mod 60)) * 60 + int 0) * 1000000 + int 0 = int a"
      using True s a by simp
    ultimately show ?thesis
      using parse_offset_Cons [OF parse_minutes_text [OF b(1,2)] _, of "int a"] v Some by auto
  next
    case False
    then have "iso_offset off = (if v < 0 then CHR ''-'' else CHR ''+'') #
        clock_text (s div 3600) (s div 60 mod 60) (s mod 60) (a mod 1000000)"
      by (auto simp: Some iso_offset_def Let_def a_def [symmetric] s_def [symmetric] clock_text_def)
    then show ?thesis
      using parse_offset_Cons [OF parse_clock_text [OF b] _ a [symmetric, unfolded s]] v Some
      by (auto simp: length_clock_text)
  qed
qed

lemma iso_offset_sign: "iso_offset off = [] \<or> \<not> not_sign (hd (iso_offset off))"
  by (auto simp: iso_offset_def Let_def not_sign_def split: option.split)

lemma iso_time_clock_text: "iso_time d = clock_text (dt_hour d) (dt_minute d) (dt_second d) (dt_micro d)"
  by (simp add: iso_time_def clock_text_def)

lemma split_at_sign:
  assumes "\<forall>c \<in> set xs. not_sign c" and "ys = [] \<or> \<not> not_sign (hd ys)"
  shows "takeWhile not_sign (xs @ ys) = xs" "dropWhile not_sign (xs @ ys) = ys"
  using assms by (cases ys; simp add: takeWhile_append dropWhile_append)+

lemma fromisoformat_isoformat:
  assumes "valid_datetime d"
  shows "fromisoformat (isoformat d) = Some d"
proof -
  let ?t = "iso_time d @ iso_offset (dt_offset d)"
  have len: "length (iso_date d) = 10" by (simp add: iso_date_def)
  then have p: "take 10 (isoformat d) = iso_date d" "drop 11 (isoformat d) = ?t"
    by (simp_all add: isoformat_def)
  have ns: "\<forall>c \<in> set (iso_time d). not_sign c"
    using not_sign_clock_text by (auto simp: iso_time_clock_text)
  note split = split_at_sign [OF ns iso_offset_sign]
  have ne: "iso_time d \<noteq> []" by (simp add: iso_time_def)
  have rec: "\<lparr>dt_year = dt_year d, dt_month = dt_month d, dt_day = dt_day d, dt_hour = dt_hour d,
      dt_minute = dt_minute d, dt_second = dt_second d, dt_micro = dt_micro d,
      dt_offset = dt_offset d\<rparr> = d" by simp
  have off: "valid_offset (dt_offset d)" using assms by (simp add: valid_datetime_def)
  have time: "parse_hh_mm_ss_ff (iso_time d) = Some (dt_hour d, dt_minute d, dt_second d, dt_micro d)"
    using valid_datetime_bounds [OF assms] by (simp add: iso_time_clock_text parse_clock_text)
  show ?thesis
    using assms ne
    by (simp add: fromisoformat_def Let_def p parse_date_iso [OF assms] split time parse_offset_iso [OF off] rec)
qed

lemma fromisoformat_valid: "fromisoformat s = Some d \<Longrightarrow> valid_datetime d"
  by (auto simp: fromisoformat_def Let_def split: option.splits prod.splits if_splits)

end
