(* ===== verification/Operation_Task.thy ===== *)
theory Operation_Task
  imports Redaction Iso_Time
begin

text \<open>
  domain/operation_task.py: the durable operation record, its validator, and the operations that
  move it along its life cycle. A record is a value of the record type \<open>OperationTask\<close>; every
  operation returns the updated record or the exception it raises, with the source's message.
  The type tests of the source (\<open>isinstance\<close>) hold by typing here.
\<close>

section \<open>Data\<close>

datatype OperationState = PENDING | RUNNING | SUCCEEDED | FAILED | CANCELLED | EXPIRED | ORPHANED

datatype OperationRetryability = RETRY_NONE | RETRY_MANUAL | RETRY_AUTOMATIC

fun state_value :: "OperationState \<Rightarrow> string" where
  "state_value PENDING = ''pending''"
| "state_value RUNNING = ''running''"
| "state_value SUCCEEDED = ''succeeded''"
| "state_value FAILED = ''failed''"
| "state_value CANCELLED = ''cancelled''"
| "state_value EXPIRED = ''expired''"
| "state_value ORPHANED = ''orphaned''"

fun retryability_value :: "OperationRetryability \<Rightarrow> string" where
  "retryability_value RETRY_NONE = ''none''"
| "retryability_value RETRY_MANUAL = ''manual''"
| "retryability_value RETRY_AUTOMATIC = ''automatic''"

definition terminal_state :: "OperationState \<Rightarrow> bool" where
  "terminal_state s \<longleftrightarrow> s \<in> {SUCCEEDED, FAILED, CANCELLED, EXPIRED, ORPHANED}"

fun allowed_transitions :: "OperationState \<Rightarrow> OperationState list" where
  "allowed_transitions PENDING = [RUNNING, FAILED, CANCELLED, EXPIRED]"
| "allowed_transitions RUNNING = [SUCCEEDED, FAILED, CANCELLED, EXPIRED, ORPHANED]"
| "allowed_transitions _ = []"

record OperationSnapshotBinding =
  head_sha :: "string option"
  workspace_fingerprint :: "string option"
  config_generation :: "int option"
  evidence_snapshot_id :: "string option"

record OperationTask =
  op_id :: string
  op_kind :: string
  op_state :: OperationState
  op_phase :: string
  progress_current :: int
  progress_total :: "int option"
  progress_unit :: "string option"
  progress_message :: "string option"
  op_task_id :: "string option"
  op_workspace_id :: "string option"
  snapshot_binding :: "OperationSnapshotBinding option"
  result_reference :: "string option"
  error_code :: "string option"
  error_message :: "string option"
  retryability :: OperationRetryability
  cancel_supported :: bool
  cancellation_requested_at :: "string option"
  op_created_at :: string
  op_updated_at :: string
  op_expires_at :: "string option"
  op_owner_id :: "string option"
  op_lease_expires_at :: "string option"
  receipt_id :: "string option"
  record_provenance :: string
  record_consistency :: string
  record_diagnostics :: "string list"
  op_schema_version :: int
  op_attempt :: int

record OperationCancellationDecision =
  dec_task :: OperationTask
  dec_requested :: bool
  dec_already_requested :: bool
  dec_already_terminal :: bool
  dec_cancel_supported :: bool

definition OPERATION_SCHEMA_VERSION :: int where
  "OPERATION_SCHEMA_VERSION = 2"

definition LEGACY_OPERATION_SCHEMA_VERSION :: int where
  "LEGACY_OPERATION_SCHEMA_VERSION = 1"

section \<open>Patterns\<close>

definition OPERATION_ID :: regex where
  "OPERATION_ID = Seq (lit ''op-'') (upto is_lower_hex 24 24)"

definition SAFE_ID :: regex where
  "SAFE_ID = Seq (One is_ascii_alnum) (upto (\<lambda>c. is_ascii_alnum c \<or> c \<in> set ''._:-'') 0 127)"

definition SAFE_KIND :: regex where
  "SAFE_KIND = Seq (One is_ascii_lower) (upto (\<lambda>c. is_ascii_lower c \<or> is_digit c \<or> c = CHR ''_'') 0 63)"

definition SAFE_PHASE :: regex where
  "SAFE_PHASE = Seq (One is_ascii_lower) (upto (\<lambda>c. is_ascii_lower c \<or> is_digit c \<or> c \<in> set ''_.-'') 0 63)"

definition SHA40 :: regex where
  "SHA40 = upto is_lower_hex 40 40"

definition SHA64 :: regex where
  "SHA64 = upto is_lower_hex 64 64"

definition RECORD_DIAGNOSTIC :: regex where
  "RECORD_DIAGNOSTIC = Seq (One is_ascii_lower) (upto (\<lambda>c. is_ascii_lower c \<or> is_digit c \<or> c = CHR ''_'') 0 127)"

definition RECEIPT_ID :: regex where
  "RECEIPT_ID = Seq (lit ''receipt-'') (upto is_lower_hex 24 24)"

definition OP_TOKEN_CANDIDATE :: regex where
  "OP_TOKEN_CANDIDATE =
     seqs [NotBehind is_ascii_alnum,
           Group ''1'' (many (\<lambda>c. is_ascii_alnum c \<or> c \<in> set ''_./+=-'') 32),
           NotAhead is_ascii_alnum]"

section \<open>Field checks\<close>

abbreviation op_invalid :: "string \<Rightarrow> exn" where
  "op_invalid m \<equiv> RepoForgeError ''OPERATION_INVALID'' m"

abbreviation op_transition_invalid :: "string \<Rightarrow> exn" where
  "op_transition_invalid m \<equiv> RepoForgeError ''OPERATION_TRANSITION_INVALID'' m"

abbreviation op_stale :: "string \<Rightarrow> exn" where
  "op_stale m \<equiv> RepoForgeError ''OPERATION_STALE'' m"

definition parse_timestamp :: "string \<Rightarrow> string \<Rightarrow> pydatetime result" where
  "parse_timestamp v field =
     (case fromisoformat v of
        None \<Rightarrow> Inl (op_invalid (field @ '' must be an ISO-8601 timestamp''))
      | Some d \<Rightarrow> if is_aware d then Inr d
                   else Inl (op_invalid (field @ '' must include a timezone offset'')))"

definition next_operation_timestamp :: "string \<Rightarrow> string \<Rightarrow> string result" where
  "next_operation_timestamp previous candidate =
     bind_result (parse_timestamp previous ''updated_at'') (\<lambda>previous_dt.
     bind_result (parse_timestamp candidate ''now'') (\<lambda>candidate_dt.
     bind_result (if instant candidate_dt \<le> instant previous_dt then add_microsecond previous_dt
                  else Inr candidate_dt) (\<lambda>dt.
     Inr (isoformat dt))))"

definition bounds_message :: "string \<Rightarrow> nat \<Rightarrow> string" where
  "bounds_message field limit = field @ '' is invalid or exceeds '' @ str_of_nat limit @ '' characters''"

text \<open>\<open>_bounded\<close> and \<open>_bounded_multiline\<close> return their argument or raise: here, what they raise.\<close>

definition bounded :: "string option \<Rightarrow> string \<Rightarrow> nat \<Rightarrow> regex option \<Rightarrow> exn option" where
  "bounded v field limit pattern =
     (case v of None \<Rightarrow> None
      | Some s \<Rightarrow>
          if s = [] \<or> limit < length s \<or> (\<exists>c \<in> set s. ord_c c < 32)
          then Some (op_invalid (bounds_message field limit))
          else case pattern of None \<Rightarrow> None
               | Some r \<Rightarrow> raise_if (\<not> fullmatch r s) (op_invalid (field @ '' has an invalid format'')))"

definition bounded_multiline :: "string option \<Rightarrow> string \<Rightarrow> nat \<Rightarrow> exn option" where
  "bounded_multiline v field limit =
     (case v of None \<Rightarrow> None
      | Some s \<Rightarrow>
          raise_if (s = [] \<or> limit < length s \<or>
              (\<exists>c \<in> set s. ord_c c < 32 \<and> c \<notin> {CHR 0x0A, CHR 0x09, CHR 0x0D}))
            (op_invalid (bounds_message field limit)))"

section \<open>Message sanitization\<close>

definition op_looks_high_entropy :: "string \<Rightarrow> bool" where
  "op_looks_high_entropy v =
     (if length v < 32 \<or> length (remdups v) < 12 then False
      else let classes = of_bool (\<exists>c \<in> set v. py_islower c) + of_bool (\<exists>c \<in> set v. py_isupper c) +
                         of_bool (\<exists>c \<in> set v. py_isdigit c) + of_bool (\<exists>c \<in> set v. \<not> py_isalnum c) :: nat
           in 3 \<le> classes \<or> (2 \<le> classes \<and> 40 \<le> length v))"

definition replace_token :: "string \<Rightarrow> nat \<times> nat \<times> spans \<Rightarrow> string" where
  "replace_token t m =
     (case group_span ''1'' m of (s, e) \<Rightarrow>
        (let candidate = str_slice s e t in
         if op_looks_high_entropy candidate then ''<redacted:high-entropy>'' else candidate))"

definition sanitize_message :: "string option \<Rightarrow> string option result" where
  "sanitize_message v =
     (case v of None \<Rightarrow> Inr None
      | Some s \<Rightarrow>
        (let r1 = re_sub PRIVATE_KEY (\<lambda>_. ''<redacted:private-key>'') s in
         bind_result (redact_text r1 [] (max 2000 (int (length r1))) []) (\<lambda>r2.
         let r3 = re_sub OP_TOKEN_CANDIDATE (replace_token r2) r2;
             r4 = (if 2000 < length r3 then take 2000 r3 else r3)
         in Inr (if r4 = [] then None else Some r4))))"

text \<open>The check that a stored message is its own sanitized form.\<close>

definition safely_redacted :: "string option \<Rightarrow> string \<Rightarrow> exn option" where
  "safely_redacted v field =
     (case sanitize_message v of Inl e \<Rightarrow> Some e
      | Inr s \<Rightarrow> raise_if (v \<noteq> s) (op_invalid (field @ '' is not safely redacted'')))"

section \<open>Validation\<close>

definition validate_operation_id :: "string \<Rightarrow> exn option" where
  "validate_operation_id v = bounded (Some v) ''operation_id'' 27 (Some OPERATION_ID)"

definition validate_binding :: "OperationSnapshotBinding option \<Rightarrow> exn option" where
  "validate_binding b =
     (case b of None \<Rightarrow> None
      | Some s \<Rightarrow> first_error
          [bounded (head_sha s) ''snapshot_binding.head_sha'' 40 (Some SHA40),
           bounded (workspace_fingerprint s) ''snapshot_binding.workspace_fingerprint'' 64 (Some SHA64),
           raise_if (case config_generation s of None \<Rightarrow> False | Some g \<Rightarrow> g < 0)
             (op_invalid ''snapshot_binding.config_generation must be a non-negative integer''),
           bounded (evidence_snapshot_id s) ''snapshot_binding.evidence_snapshot_id'' 128 (Some SAFE_ID)])"

definition validate_progress :: "int \<Rightarrow> int option \<Rightarrow> exn option" where
  "validate_progress current tot = first_error
     [raise_if (current < 0) (op_invalid ''progress_current must be a non-negative integer''),
      raise_if (case tot of None \<Rightarrow> False | Some n \<Rightarrow> n < 0)
        (op_invalid ''progress_total must be a non-negative integer''),
      raise_if (case tot of None \<Rightarrow> False | Some n \<Rightarrow> n < current)
        (op_invalid ''progress_current cannot exceed progress_total'')]"

definition flag_if :: "bool \<Rightarrow> 'a \<Rightarrow> 'a list" where
  "flag_if b a = (if b then [a] else [])"

definition operation_record_inconsistencies :: "OperationTask \<Rightarrow> string list" where
  "operation_record_inconsistencies t = sorted_set
     (flag_if (terminal_state (op_state t) \<and> op_phase t \<noteq> state_value (op_state t)) ''terminal_phase_mismatch'' @
      (if op_state t = SUCCEEDED then
         flag_if (result_reference t = None) ''missing_result_reference'' @
         flag_if (progress_total t \<noteq> None \<and> progress_total t \<noteq> Some (progress_current t)) ''terminal_progress_incomplete'' @
         flag_if (progress_message t \<noteq> Some ''Completed'') ''terminal_message_mismatch''
       else []) @
      flag_if (\<not> terminal_state (op_state t) \<and> result_reference t \<noteq> None) ''nonterminal_result_reference'' @
      (if op_state t \<in> {FAILED, EXPIRED, ORPHANED}
       then flag_if (error_code t = None) ''terminal_error_missing''
       else flag_if (error_code t \<noteq> None \<or> error_message t \<noteq> None) ''unexpected_error_evidence'') @
      flag_if ((op_owner_id t = None) \<noteq> (op_lease_expires_at t = None)) ''ownership_lease_partial'' @
      flag_if (op_owner_id t \<noteq> None \<and> op_state t \<noteq> RUNNING) ''ownership_on_nonrunning'')"

definition optional_timestamp :: "string option \<Rightarrow> string \<Rightarrow> exn option" where
  "optional_timestamp v field = (case v of None \<Rightarrow> None | Some s \<Rightarrow> raised (parse_timestamp s field))"

text \<open>\<open>a < b\<close> for two timestamps that parse.\<close>

definition timestamp_less :: "string \<Rightarrow> string \<Rightarrow> bool" where
  "timestamp_less a b =
     (case (fromisoformat a, fromisoformat b) of
        (Some x, Some y) \<Rightarrow> instant x < instant y | _ \<Rightarrow> False)"

text \<open>The field checks and then the record checks of \<open>validate_operation_task\<close>, in its order.\<close>

definition field_checks :: "OperationTask \<Rightarrow> exn option list" where
  "field_checks t =
    [raise_if (op_schema_version t \<noteq> OPERATION_SCHEMA_VERSION)
       (RepoForgeError ''OPERATION_SCHEMA_UNSUPPORTED''
         (''Unsupported operation schema version: '' @ str_of_int (op_schema_version t))),
     validate_operation_id (op_id t),
     raise_if (op_attempt t < 0) (op_invalid ''attempt must be a non-negative integer''),
     bounded (Some (op_kind t)) ''kind'' 64 (Some SAFE_KIND),
     bounded (Some (op_phase t)) ''phase'' 64 (Some SAFE_PHASE),
     validate_progress (progress_current t) (progress_total t),
     bounded (progress_unit t) ''progress_unit'' 64 None,
     bounded_multiline (progress_message t) ''progress_message'' 2000,
     safely_redacted (progress_message t) ''progress_message'',
     bounded (op_task_id t) ''task_id'' 128 (Some SAFE_ID),
     bounded (op_workspace_id t) ''workspace_id'' 128 (Some SAFE_ID),
     validate_binding (snapshot_binding t),
     bounded (result_reference t) ''result_reference'' 256 (Some SAFE_ID),
     bounded (error_code t) ''error_code'' 128 (Some SAFE_ID),
     bounded_multiline (error_message t) ''error_message'' 2000,
     safely_redacted (error_message t) ''error_message'',
     raised (parse_timestamp (op_created_at t) ''created_at''),
     raised (parse_timestamp (op_updated_at t) ''updated_at''),
     raise_if (timestamp_less (op_updated_at t) (op_created_at t))
       (op_invalid ''updated_at cannot precede created_at''),
     optional_timestamp (op_expires_at t) ''expires_at'',
     bounded (op_owner_id t) ''owner_id'' 128 (Some SAFE_ID),
     optional_timestamp (op_lease_expires_at t) ''lease_expires_at'',
     raise_if ((op_owner_id t = None) \<noteq> (op_lease_expires_at t = None))
       (op_invalid ''owner_id and lease_expires_at must be provided together''),
     optional_timestamp (cancellation_requested_at t) ''cancellation_requested_at'',
     bounded (receipt_id t) ''receipt_id'' 32 (Some RECEIPT_ID)]"

definition record_checks :: "OperationTask \<Rightarrow> exn option list" where
  "record_checks t =
    [raise_if (record_provenance t \<notin> {''current'', ''legacy_migrated'', ''recovered_inconsistent''})
       (op_invalid ''record_provenance is invalid''),
     raise_if (record_consistency t \<notin> {''consistent'', ''record_inconsistent''})
       (op_invalid ''record_consistency is invalid''),
     raise_if (20 < length (record_diagnostics t))
       (op_invalid ''record_diagnostics must be a tuple with at most 20 items'')] @
    map (\<lambda>d. bounded (Some d) ''record_diagnostics'' 128 (Some RECORD_DIAGNOSTIC)) (record_diagnostics t) @
    [raise_if (sorted_set (record_diagnostics t) \<noteq> record_diagnostics t)
       (op_invalid ''record_diagnostics must be sorted and unique''),
     raise_if (record_consistency t = ''record_inconsistent'' \<and> record_diagnostics t = [])
       (op_invalid ''record_inconsistent requires diagnostic evidence''),
     raise_if (record_provenance t = ''current'' \<and>
         (record_consistency t \<noteq> ''consistent'' \<or> record_diagnostics t \<noteq> []))
       (op_invalid ''current operation records must be consistent''),
     raise_if (record_provenance t = ''current'' \<and> operation_record_inconsistencies t \<noteq> [])
       (op_transition_invalid (''Current operation record violates lifecycle invariants: '' @
          join_with '','' (operation_record_inconsistencies t))),
     raise_if (record_provenance t = ''recovered_inconsistent'' \<and> record_consistency t \<noteq> ''record_inconsistent'')
       (op_invalid ''recovered_inconsistent provenance requires inconsistent evidence'')]"

definition validate_operation_task :: "OperationTask \<Rightarrow> OperationTask result" where
  "validate_operation_task t = checked (first_error (field_checks t @ record_checks t)) t"

definition normalize_loaded_operation :: "OperationTask \<Rightarrow> int \<Rightarrow> OperationTask result" where
  "normalize_loaded_operation t source_schema_version =
     (let observed = operation_record_inconsistencies t;
          provenance = (if source_schema_version = LEGACY_OPERATION_SCHEMA_VERSION then ''legacy_migrated''
                        else if observed \<noteq> [] then ''recovered_inconsistent'' else record_provenance t);
          diagnostics = sorted_set (record_diagnostics t @ observed)
      in validate_operation_task
           (t\<lparr>op_phase := (if terminal_state (op_state t) then state_value (op_state t) else op_phase t),
              record_provenance := provenance,
              record_consistency := (if diagnostics \<noteq> [] then ''record_inconsistent'' else ''consistent''),
              record_diagnostics := diagnostics,
              op_schema_version := OPERATION_SCHEMA_VERSION\<rparr>))"

section \<open>Operations\<close>

definition new_operation_task ::
  "string \<Rightarrow> string \<Rightarrow> string \<Rightarrow> string \<Rightarrow> bool \<Rightarrow> string option \<Rightarrow> string option \<Rightarrow>
   OperationSnapshotBinding option \<Rightarrow> string option \<Rightarrow> OperationTask result" where
  "new_operation_task oid knd ph now cs tid wid binding expires =
     bind_result (checked (first_error
       [validate_operation_id oid,
        bounded (Some knd) ''kind'' 64 (Some SAFE_KIND),
        bounded (Some ph) ''phase'' 64 (Some SAFE_PHASE),
        bounded tid ''task_id'' 128 (Some SAFE_ID),
        bounded wid ''workspace_id'' 128 (Some SAFE_ID),
        validate_binding binding]) ()) (\<lambda>_.
     validate_operation_task
       \<lparr>op_id = oid, op_kind = knd, op_state = PENDING, op_phase = ph, progress_current = 0,
        progress_total = None, progress_unit = None, progress_message = None, op_task_id = tid,
        op_workspace_id = wid, snapshot_binding = binding, result_reference = None, error_code = None,
        error_message = None, retryability = RETRY_NONE, cancel_supported = cs,
        cancellation_requested_at = None, op_created_at = now, op_updated_at = now,
        op_expires_at = expires, op_owner_id = None, op_lease_expires_at = None, receipt_id = None,
        record_provenance = ''current'', record_consistency = ''consistent'', record_diagnostics = [],
        op_schema_version = OPERATION_SCHEMA_VERSION, op_attempt = 0\<rparr>)"

text \<open>The optional arguments of \<open>transition_operation\<close>.\<close>

record transition_args =
  arg_result_reference :: "string option"
  arg_receipt_id :: "string option"
  arg_error_code :: "string option"
  arg_error_message :: "string option"
  arg_retryability :: OperationRetryability

definition no_args :: transition_args where
  "no_args = \<lparr>arg_result_reference = None, arg_receipt_id = None, arg_error_code = None,
     arg_error_message = None, arg_retryability = RETRY_NONE\<rparr>"

definition default_error_code :: "OperationState \<Rightarrow> string option" where
  "default_error_code s =
     (case s of FAILED \<Rightarrow> Some ''OPERATION_FAILED'' | EXPIRED \<Rightarrow> Some ''OPERATION_EXPIRED''
      | ORPHANED \<Rightarrow> Some ''OPERATION_WORKER_LOST'' | _ \<Rightarrow> None)"

text \<open>The record \<open>transition_operation\<close> builds, before its last validation.\<close>

definition transitioned ::
  "OperationTask \<Rightarrow> OperationState \<Rightarrow> transition_args \<Rightarrow> string option \<Rightarrow> string \<Rightarrow> OperationTask" where
  "transitioned t new_state args safe_error stamp =
     (let updated = t\<lparr>op_state := new_state, op_phase := state_value new_state,
            progress_current := (if new_state = SUCCEEDED then
               (case progress_total t of Some n \<Rightarrow> n | None \<Rightarrow> progress_current t) else progress_current t),
            progress_message := (if new_state = SUCCEEDED then Some ''Completed'' else progress_message t),
            result_reference := arg_result_reference args,
            receipt_id := (if arg_receipt_id args \<noteq> None then arg_receipt_id args else receipt_id t),
            error_code := (if arg_error_code args \<noteq> None then arg_error_code args else default_error_code new_state),
            error_message := safe_error,
            retryability := arg_retryability args,
            op_owner_id := (if terminal_state new_state then None else op_owner_id t),
            op_lease_expires_at := (if terminal_state new_state then None else op_lease_expires_at t),
            record_consistency := ''consistent'', record_diagnostics := [], op_updated_at := stamp\<rparr>;
          diagnostics = operation_record_inconsistencies updated
      in if record_provenance t \<noteq> ''current''
         then updated\<lparr>record_consistency := (if diagnostics \<noteq> [] then ''record_inconsistent'' else ''consistent''),
                      record_diagnostics := diagnostics\<rparr>
         else updated)"

definition transition_operation ::
  "OperationTask \<Rightarrow> OperationState \<Rightarrow> string \<Rightarrow> transition_args \<Rightarrow> OperationTask result" where
  "transition_operation t new_state now args =
     bind_result (validate_operation_task t) (\<lambda>_.
     if new_state = op_state t then
       (if arg_result_reference args \<noteq> None \<or> arg_receipt_id args \<noteq> None \<or> arg_error_code args \<noteq> None \<or>
           arg_error_message args \<noteq> None \<or> arg_retryability args \<noteq> retryability t
        then Inl (op_transition_invalid ''An idempotent same-state transition cannot change terminal data'')
        else Inr t)
     else if new_state \<notin> set (allowed_transitions (op_state t)) then
       Inl (op_transition_invalid (''Operation transition is not allowed: '' @ state_value (op_state t) @
              '' -> '' @ state_value new_state))
     else bind_result (sanitize_message (arg_error_message args)) (\<lambda>safe_error.
       bind_result (checked (first_error
         [bounded (arg_result_reference args) ''result_reference'' 256 (Some SAFE_ID),
          bounded (if arg_receipt_id args \<noteq> None then arg_receipt_id args else receipt_id t)
            ''receipt_id'' 32 (Some RECEIPT_ID),
          bounded (if arg_error_code args \<noteq> None then arg_error_code args else default_error_code new_state)
            ''error_code'' 128 (Some SAFE_ID),
          bounded_multiline safe_error ''error_message'' 2000]) ()) (\<lambda>_.
       bind_result (next_operation_timestamp (op_updated_at t) now) (\<lambda>stamp.
       validate_operation_task (transitioned t new_state args safe_error stamp)))))"

definition requeue_operation :: "OperationTask \<Rightarrow> string \<Rightarrow> OperationTask result" where
  "requeue_operation t now =
     bind_result (validate_operation_task t) (\<lambda>_.
     if op_state t \<noteq> RUNNING then Inl (op_transition_invalid ''Only running operations can be requeued'')
     else bind_result (next_operation_timestamp (op_updated_at t) now) (\<lambda>stamp.
       validate_operation_task
         (t\<lparr>op_state := PENDING, op_phase := ''queued'', op_owner_id := None, op_lease_expires_at := None,
            progress_message := Some ''Recovered after worker loss before child start'',
            error_code := None, error_message := None, retryability := RETRY_AUTOMATIC,
            op_updated_at := stamp\<rparr>)))"

definition claim_operation_ownership ::
  "OperationTask \<Rightarrow> string \<Rightarrow> string \<Rightarrow> string \<Rightarrow> int option \<Rightarrow> OperationTask result" where
  "claim_operation_ownership t owner lease now att =
     bind_result (validate_operation_task t) (\<lambda>_.
     if op_state t \<noteq> RUNNING
     then Inl (op_transition_invalid ''Operation ownership may be claimed only while running'')
     else bind_result (checked (first_error
       [bounded (Some owner) ''owner_id'' 128 (Some SAFE_ID),
        raise_if (case att of None \<Rightarrow> False | Some a \<Rightarrow> a < op_attempt t)
          (op_invalid ''attempt must be a non-decreasing integer'')]) ()) (\<lambda>_.
     bind_result (parse_timestamp now ''now'') (\<lambda>now_dt.
     bind_result (parse_timestamp lease ''lease_expires_at'') (\<lambda>lease_dt.
     if instant lease_dt \<le> instant now_dt
     then Inl (op_invalid ''lease_expires_at must be later than now'')
     else bind_result
       (case (op_owner_id t, op_lease_expires_at t) of
          (Some holder, Some held) \<Rightarrow>
            if holder \<noteq> owner then
              bind_result (parse_timestamp held ''lease_expires_at'') (\<lambda>held_dt.
                if instant held_dt > instant now_dt
                then Inl (op_stale ''Operation ownership lease is held by another worker'') else Inr ())
            else Inr ()
        | _ \<Rightarrow> Inr ()) (\<lambda>_.
     bind_result (next_operation_timestamp (op_updated_at t) now) (\<lambda>stamp.
     validate_operation_task
       (t\<lparr>op_owner_id := Some owner, op_lease_expires_at := Some (isoformat lease_dt),
          op_attempt := (case att of None \<Rightarrow> op_attempt t | Some a \<Rightarrow> a), op_updated_at := stamp\<rparr>)))))))"

definition renew_operation_ownership ::
  "OperationTask \<Rightarrow> string \<Rightarrow> string \<Rightarrow> string \<Rightarrow> OperationTask result" where
  "renew_operation_ownership t owner lease now =
     bind_result (validate_operation_task t) (\<lambda>_.
     bind_result (checked (bounded (Some owner) ''owner_id'' 128 (Some SAFE_ID)) ()) (\<lambda>_.
     if op_state t \<noteq> RUNNING \<or> op_owner_id t \<noteq> Some owner
     then Inl (op_stale ''Operation ownership changed; refresh the operation before updating it'')
     else claim_operation_ownership t owner lease now None))"

definition require_operation_owner :: "OperationTask \<Rightarrow> string option \<Rightarrow> unit result" where
  "require_operation_owner t owner =
     bind_result (validate_operation_task t) (\<lambda>_.
     if op_owner_id t = None then Inr ()
     else if owner \<noteq> op_owner_id t
     then Inl (op_stale ''Operation ownership changed; refresh the operation before updating it'')
     else Inr ())"

definition update_operation_progress ::
  "OperationTask \<Rightarrow> string \<Rightarrow> int \<Rightarrow> int option \<Rightarrow> string option \<Rightarrow> string option \<Rightarrow> string \<Rightarrow> OperationTask result" where
  "update_operation_progress t ph current tot unt msg now =
     bind_result (validate_operation_task t) (\<lambda>_.
     if op_state t \<noteq> RUNNING
     then Inl (op_invalid ''Progress may be updated only while an operation is running'')
     else bind_result (checked (first_error
       [bounded (Some ph) ''phase'' 64 (Some SAFE_PHASE),
        validate_progress current tot,
        raise_if (ph = op_phase t \<and> current < progress_current t)
          (op_invalid ''Progress cannot move backwards within one phase'')]) ()) (\<lambda>_.
     bind_result (sanitize_message msg) (\<lambda>safe_message.
     bind_result (checked (first_error
       [bounded unt ''progress_unit'' 64 None,
        bounded_multiline safe_message ''progress_message'' 2000]) ()) (\<lambda>_.
     bind_result (next_operation_timestamp (op_updated_at t) now) (\<lambda>stamp.
     validate_operation_task
       (t\<lparr>op_phase := ph, progress_current := current, progress_total := tot, progress_unit := unt,
          progress_message := safe_message, op_updated_at := stamp\<rparr>))))))"

definition request_operation_cancellation :: "OperationTask \<Rightarrow> string \<Rightarrow> OperationCancellationDecision result" where
  "request_operation_cancellation t now =
     bind_result (validate_operation_task t) (\<lambda>_.
     if terminal_state (op_state t) then
       Inr \<lparr>dec_task = t, dec_requested = False, dec_already_requested = False,
            dec_already_terminal = True, dec_cancel_supported = cancel_supported t\<rparr>
     else if \<not> cancel_supported t then
       Inr \<lparr>dec_task = t, dec_requested = False, dec_already_requested = False,
            dec_already_terminal = False, dec_cancel_supported = False\<rparr>
     else if cancellation_requested_at t \<noteq> None then
       Inr \<lparr>dec_task = t, dec_requested = False, dec_already_requested = True,
            dec_already_terminal = False, dec_cancel_supported = True\<rparr>
     else bind_result (next_operation_timestamp (op_updated_at t) now) (\<lambda>stamp.
       bind_result (validate_operation_task (t\<lparr>cancellation_requested_at := Some stamp, op_updated_at := stamp\<rparr>))
         (\<lambda>updated. Inr \<lparr>dec_task = updated, dec_requested = True, dec_already_requested = False,
            dec_already_terminal = False, dec_cancel_supported = True\<rparr>)))"

end
