(* ===== verification/Operation_Lifecycle.thy ===== *)
theory Operation_Lifecycle
  imports Operation_Task
begin

text \<open>
  The life cycle of a durable operation: what each operation of Operation\_Task does to a record,
  and the step relation of a record under any sequence of these operations, with its invariants.
\<close>

section \<open>Timestamps\<close>

definition valid_task :: "OperationTask \<Rightarrow> bool" where
  "valid_task t \<longleftrightarrow> validate_operation_task t = Inr t"

lemma validate_Inr [simp]: "validate_operation_task t = Inr t' \<longleftrightarrow> valid_task t \<and> t' = t"
  by (auto simp: valid_task_def validate_operation_task_def)

lemma valid_task_validates [simp]: "valid_task t \<Longrightarrow> validate_operation_task t = Inr t"
  by simp

lemma valid_task_iff:
  "valid_task t \<longleftrightarrow> (\<forall>c \<in> set (field_checks t). c = None) \<and> (\<forall>c \<in> set (record_checks t). c = None)"
  by (auto simp: valid_task_def validate_operation_task_def simp del: first_error_append)

lemma parse_timestamp_Inr [simp]:
  "parse_timestamp v field = Inr d \<longleftrightarrow> fromisoformat v = Some d \<and> is_aware d"
  by (auto simp: parse_timestamp_def split: option.splits if_splits)

lemma add_microsecond_aware:
  "add_microsecond d = Inr d' \<Longrightarrow> valid_datetime d \<Longrightarrow> is_aware d' = is_aware d"
  using add_microsecond_local [of d d'] by (simp add: is_aware_def)

text \<open>An aware timestamp and the instant it denotes.\<close>

definition stamp_at :: "string \<Rightarrow> int \<Rightarrow> bool" where
  "stamp_at s i \<longleftrightarrow> (\<exists>d. fromisoformat s = Some d \<and> is_aware d \<and> instant d = i)"

lemma stamp_at_unique: "stamp_at s i \<Longrightarrow> stamp_at s j \<Longrightarrow> i = j"
  by (auto simp: stamp_at_def)

lemma stamp_at_isoformat:
  "valid_datetime d \<Longrightarrow> is_aware d \<Longrightarrow> stamp_at (isoformat d) (instant d)"
  by (simp add: stamp_at_def fromisoformat_isoformat)

lemma next_operation_timestamp_spec:
  assumes "next_operation_timestamp p c = Inr s"
  obtains i j where "stamp_at p i" "stamp_at c j" "stamp_at s (max j (i + 1))"
proof -
  from assms obtain dp dc dt where d: "fromisoformat p = Some dp" "is_aware dp"
    "fromisoformat c = Some dc" "is_aware dc" and s: "s = isoformat dt"
    and dt: "(if instant dc \<le> instant dp then add_microsecond dp else Inr dc) = Inr dt"
    by (auto simp: next_operation_timestamp_def elim!: bind_result_InrE)
  note v = fromisoformat_valid [OF d(1)] fromisoformat_valid [OF d(3)]
  have "valid_datetime dt" "is_aware dt" "instant dt = max (instant dc) (instant dp + 1)"
    using dt v d add_microsecond_valid [OF v(1)] add_microsecond_aware [OF _ v(1)]
      add_microsecond_instant [OF v(1)] by (auto split: if_splits)
  then have "stamp_at s (max (instant dc) (instant dp + 1))"
    using stamp_at_isoformat [of dt] s by simp
  then show thesis using that [of "instant dp" "instant dc"] d by (auto simp: stamp_at_def)
qed

lemma next_operation_timestamp_defined:
  assumes "stamp_at p i" "stamp_at c j" "i < j"
  shows "\<exists>s. next_operation_timestamp p c = Inr s"
proof -
  from assms obtain dp dc where "fromisoformat p = Some dp" "is_aware dp"
    "fromisoformat c = Some dc" "is_aware dc" "instant dp = i" "instant dc = j"
    by (auto simp: stamp_at_def)
  with assms(3) show ?thesis by (simp add: next_operation_timestamp_def parse_timestamp_def)
qed

subsection \<open>Records that move forward in time\<close>

text \<open>
  The contract shared by operations and work items: a step that changes a record moves its
  timestamp to a strictly later instant. Then the timestamp identifies the version.
\<close>

locale stamped_steps =
  fixes step :: "'r \<Rightarrow> 'r \<Rightarrow> bool" and updated :: "'r \<Rightarrow> string"
  assumes step_forward:
    "step r r' \<Longrightarrow> r' = r \<or> (\<exists>i j. stamp_at (updated r) i \<and> stamp_at (updated r') j \<and> i < j)"
begin

lemma run_forward:
  assumes "step\<^sup>*\<^sup>* r r'" "r' \<noteq> r"
  shows "\<exists>i j. stamp_at (updated r) i \<and> stamp_at (updated r') j \<and> i < j"
  using assms
proof (induction rule: rtranclp_induct)
  case (step y z)
  show ?case
  proof (cases "z = y")
    case False
    then obtain i j where ij: "stamp_at (updated y) i" "stamp_at (updated z) j" "i < j"
      using step_forward [OF step.hyps(2)] by blast
    show ?thesis
    proof (cases "y = r")
      case False
      with step.IH obtain a b where "stamp_at (updated r) a" "stamp_at (updated y) b" "a < b" by blast
      with ij stamp_at_unique show ?thesis by (metis order_less_trans)
    qed (use ij in blast)
  qed (use step in blast)
qed simp

lemma same_stamp_same_record:
  assumes "step\<^sup>*\<^sup>* r r'" "updated r' = updated r"
  shows "r' = r"
proof (rule ccontr)
  assume "r' \<noteq> r"
  from run_forward [OF assms(1) this] assms(2) stamp_at_unique show False by fastforce
qed

end

section \<open>What each operation does\<close>

lemma transition_operationE:
  assumes "transition_operation t s now args = Inr t'"
  obtains (same) "valid_task t" "t' = t" "s = op_state t"
  | (moved) safe_error stamp where "valid_task t" "valid_task t'" "s \<in> set (allowed_transitions (op_state t))"
      "sanitize_message (arg_error_message args) = Inr safe_error"
      "next_operation_timestamp (op_updated_at t) now = Inr stamp"
      "t' = transitioned t s args safe_error stamp"
proof (cases "s = op_state t")
  case True
  with assms same show thesis
    by (auto simp: transition_operation_def elim!: bind_result_InrE split: if_splits)
next
  case False
  with assms moved show thesis
    by (auto simp: transition_operation_def elim!: bind_result_InrE split: if_splits)
qed

lemma requeue_operationE:
  assumes "requeue_operation t now = Inr t'"
  obtains stamp where "valid_task t" "valid_task t'" "op_state t = RUNNING"
    "next_operation_timestamp (op_updated_at t) now = Inr stamp"
    "t' = t\<lparr>op_state := PENDING, op_phase := ''queued'', op_owner_id := None, op_lease_expires_at := None,
            progress_message := Some ''Recovered after worker loss before child start'',
            error_code := None, error_message := None, retryability := RETRY_AUTOMATIC,
            op_updated_at := stamp\<rparr>"
  using assms that by (auto simp: requeue_operation_def elim!: bind_result_InrE split: if_splits)

lemma claim_operation_ownershipE:
  assumes "claim_operation_ownership t owner lease now att = Inr t'"
  obtains stamp now_dt lease_dt where "valid_task t" "valid_task t'" "op_state t = RUNNING"
    "case att of None \<Rightarrow> True | Some a \<Rightarrow> op_attempt t \<le> a"
    "fromisoformat now = Some now_dt" "fromisoformat lease = Some lease_dt"
    "is_aware now_dt" "is_aware lease_dt" "instant now_dt < instant lease_dt"
    "\<And>holder held. op_owner_id t = Some holder \<Longrightarrow> op_lease_expires_at t = Some held \<Longrightarrow> holder \<noteq> owner \<Longrightarrow>
       \<exists>i. stamp_at held i \<and> i \<le> instant now_dt"
    "next_operation_timestamp (op_updated_at t) now = Inr stamp"
    "t' = t\<lparr>op_owner_id := Some owner, op_lease_expires_at := Some (isoformat lease_dt),
          op_attempt := (case att of None \<Rightarrow> op_attempt t | Some a \<Rightarrow> a), op_updated_at := stamp\<rparr>"
proof -
  from assms obtain stamp now_dt lease_dt where *: "valid_task t" "valid_task t'" "op_state t = RUNNING"
    "case att of None \<Rightarrow> True | Some a \<Rightarrow> op_attempt t \<le> a"
    "fromisoformat now = Some now_dt" "fromisoformat lease = Some lease_dt"
    "is_aware now_dt" "is_aware lease_dt" "instant now_dt < instant lease_dt"
    "(case (op_owner_id t, op_lease_expires_at t) of
          (Some holder, Some held) \<Rightarrow>
            if holder \<noteq> owner then
              bind_result (parse_timestamp held ''lease_expires_at'') (\<lambda>held_dt.
                if instant held_dt > instant now_dt
                then Inl (op_stale ''Operation ownership lease is held by another worker'') else Inr ())
            else Inr ()
        | _ \<Rightarrow> Inr ()) = Inr ()"
    "next_operation_timestamp (op_updated_at t) now = Inr stamp"
    "t' = t\<lparr>op_owner_id := Some owner, op_lease_expires_at := Some (isoformat lease_dt),
          op_attempt := (case att of None \<Rightarrow> op_attempt t | Some a \<Rightarrow> a), op_updated_at := stamp\<rparr>"
    by (auto simp: claim_operation_ownership_def not_le elim!: bind_result_InrE split: if_splits option.splits)
  have "\<exists>i. stamp_at held i \<and> i \<le> instant now_dt"
    if "op_owner_id t = Some holder" "op_lease_expires_at t = Some held" "holder \<noteq> owner" for holder held
    using *(10) that by (auto simp: stamp_at_def elim!: bind_result_InrE split: if_splits)
  with * that show thesis by blast
qed

lemma renew_operation_ownershipE:
  assumes "renew_operation_ownership t owner lease now = Inr t'"
  obtains "valid_task t" "op_state t = RUNNING" "op_owner_id t = Some owner"
    "claim_operation_ownership t owner lease now None = Inr t'"
  using assms that
  by (auto simp: renew_operation_ownership_def elim!: bind_result_InrE split: if_splits)

lemma update_operation_progressE:
  assumes "update_operation_progress t ph cur tot unt msg now = Inr t'"
  obtains stamp safe_message where "valid_task t" "valid_task t'" "op_state t = RUNNING"
    "ph = op_phase t \<Longrightarrow> progress_current t \<le> cur"
    "sanitize_message msg = Inr safe_message"
    "next_operation_timestamp (op_updated_at t) now = Inr stamp"
    "t' = t\<lparr>op_phase := ph, progress_current := cur, progress_total := tot, progress_unit := unt,
          progress_message := safe_message, op_updated_at := stamp\<rparr>"
  using assms that
  by (auto simp: update_operation_progress_def elim!: bind_result_InrE split: if_splits)

lemma request_operation_cancellationE:
  assumes "request_operation_cancellation t now = Inr d"
  obtains (unchanged) "valid_task t" "dec_task d = t" "\<not> dec_requested d"
  | (requested) stamp where "valid_task t" "valid_task (dec_task d)" "\<not> terminal_state (op_state t)"
    "cancel_supported t" "cancellation_requested_at t = None" "dec_requested d"
    "next_operation_timestamp (op_updated_at t) now = Inr stamp"
    "dec_task d = t\<lparr>cancellation_requested_at := Some stamp, op_updated_at := stamp\<rparr>"
proof (cases "terminal_state (op_state t) \<or> \<not> cancel_supported t \<or> cancellation_requested_at t \<noteq> None")
  case True
  with assms have "valid_task t" "dec_task d = t" "\<not> dec_requested d"
    by (auto simp: request_operation_cancellation_def elim!: bind_result_InrE split: if_splits)
  then show thesis by (rule unchanged)
next
  case False
  with assms obtain stamp updated where u: "valid_task t" "next_operation_timestamp (op_updated_at t) now = Inr stamp"
    "validate_operation_task (t\<lparr>cancellation_requested_at := Some stamp, op_updated_at := stamp\<rparr>) = Inr updated"
    "d = \<lparr>dec_task = updated, dec_requested = True, dec_already_requested = False,
            dec_already_terminal = False, dec_cancel_supported = True\<rparr>"
    by (simp add: request_operation_cancellation_def del: validate_Inr) (elim bind_result_InrE, auto)
  have "updated = t\<lparr>cancellation_requested_at := Some stamp, op_updated_at := stamp\<rparr>" "valid_task updated"
    using u(3) by auto
  with u(1,2,4) False show thesis by (intro requested) simp_all
qed

section \<open>The step relation\<close>

text \<open>One call of an operation on a record.\<close>

inductive op_step :: "OperationTask \<Rightarrow> OperationTask \<Rightarrow> bool" where
  transition: "transition_operation t s now args = Inr t' \<Longrightarrow> op_step t t'"
| requeue: "requeue_operation t now = Inr t' \<Longrightarrow> op_step t t'"
| claim: "claim_operation_ownership t owner lease now att = Inr t' \<Longrightarrow> op_step t t'"
| renew: "renew_operation_ownership t owner lease now = Inr t' \<Longrightarrow> op_step t t'"
| progress: "update_operation_progress t ph cur tot unt msg now = Inr t' \<Longrightarrow> op_step t t'"
| cancel: "request_operation_cancellation t now = Inr d \<Longrightarrow> op_step t (dec_task d)"

text \<open>The fields no step changes, and the edges of the state graph.\<close>

definition same_identity :: "OperationTask \<Rightarrow> OperationTask \<Rightarrow> bool" where
  "same_identity t t' \<longleftrightarrow> op_id t' = op_id t \<and> op_kind t' = op_kind t \<and> op_created_at t' = op_created_at t \<and>
     op_task_id t' = op_task_id t \<and> op_workspace_id t' = op_workspace_id t \<and>
     snapshot_binding t' = snapshot_binding t \<and> cancel_supported t' = cancel_supported t \<and>
     op_expires_at t' = op_expires_at t \<and> record_provenance t' = record_provenance t"

definition state_edge :: "OperationState \<Rightarrow> OperationState \<Rightarrow> bool" where
  "state_edge s s' \<longleftrightarrow> s' = s \<or> s' \<in> set (allowed_transitions s) \<or> (s = RUNNING \<and> s' = PENDING)"

definition changes :: "OperationTask \<Rightarrow> OperationTask \<Rightarrow> bool" where
  "changes t t' \<longleftrightarrow> \<not> terminal_state (op_state t) \<and> valid_task t' \<and> same_identity t t' \<and>
     op_attempt t \<le> op_attempt t' \<and> state_edge (op_state t) (op_state t') \<and>
     (\<exists>now. next_operation_timestamp (op_updated_at t) now = Inr (op_updated_at t'))"

lemma allowed_not_terminal: "s' \<in> set (allowed_transitions s) \<Longrightarrow> \<not> terminal_state s"
  by (cases s) (auto simp: terminal_state_def)

lemma transitioned_simps [simp]:
  "op_id (transitioned t s args err stamp) = op_id t"
  "op_kind (transitioned t s args err stamp) = op_kind t"
  "op_state (transitioned t s args err stamp) = s"
  "op_phase (transitioned t s args err stamp) = state_value s"
  "op_created_at (transitioned t s args err stamp) = op_created_at t"
  "op_updated_at (transitioned t s args err stamp) = stamp"
  "op_task_id (transitioned t s args err stamp) = op_task_id t"
  "op_workspace_id (transitioned t s args err stamp) = op_workspace_id t"
  "snapshot_binding (transitioned t s args err stamp) = snapshot_binding t"
  "cancel_supported (transitioned t s args err stamp) = cancel_supported t"
  "op_expires_at (transitioned t s args err stamp) = op_expires_at t"
  "record_provenance (transitioned t s args err stamp) = record_provenance t"
  "op_attempt (transitioned t s args err stamp) = op_attempt t"
  "op_schema_version (transitioned t s args err stamp) = op_schema_version t"
  "progress_total (transitioned t s args err stamp) = progress_total t"
  "progress_unit (transitioned t s args err stamp) = progress_unit t"
  "cancellation_requested_at (transitioned t s args err stamp) = cancellation_requested_at t"
  by (simp_all add: transitioned_def Let_def)

lemma claim_changes:
  assumes "claim_operation_ownership t owner lease now att = Inr t'"
  shows "valid_task t \<and> changes t t'"
proof -
  obtain stamp lease_dt where *: "valid_task t" "valid_task t'" "op_state t = RUNNING"
    "case att of None \<Rightarrow> True | Some a \<Rightarrow> op_attempt t \<le> a"
    "next_operation_timestamp (op_updated_at t) now = Inr stamp"
    "t' = t\<lparr>op_owner_id := Some owner, op_lease_expires_at := Some (isoformat lease_dt),
          op_attempt := (case att of None \<Rightarrow> op_attempt t | Some a \<Rightarrow> a), op_updated_at := stamp\<rparr>"
    using assms by (rule claim_operation_ownershipE)
  then show ?thesis
    by (auto simp: changes_def same_identity_def state_edge_def terminal_state_def split: option.splits)
qed

lemma op_step_changes:
  assumes "op_step t t'"
  shows "valid_task t \<and> (t' = t \<or> changes t t')"
  using assms
proof cases
  case (transition s now args)
  then show ?thesis
    by (cases rule: transition_operationE)
       (auto simp: changes_def same_identity_def state_edge_def dest: allowed_not_terminal)
next
  case (requeue now)
  then show ?thesis
    by (elim requeue_operationE) (auto simp: changes_def same_identity_def state_edge_def terminal_state_def)
next
  case (claim owner lease now att)
  then show ?thesis using claim_changes by blast
next
  case (renew owner lease now)
  then show ?thesis by (elim renew_operation_ownershipE) (use claim_changes in blast)
next
  case (progress ph cur tot unt msg now)
  then show ?thesis
    by (elim update_operation_progressE)
       (auto simp: changes_def same_identity_def state_edge_def terminal_state_def)
next
  case (cancel now d)
  then show ?thesis
    by (cases rule: request_operation_cancellationE [OF cancel(2)])
       (auto simp: changes_def same_identity_def state_edge_def)
qed

lemma changes_stamp:
  assumes "changes t t'"
  obtains i j where "stamp_at (op_updated_at t) i" "stamp_at (op_updated_at t') j" "i < j"
proof -
  from assms obtain now where "next_operation_timestamp (op_updated_at t) now = Inr (op_updated_at t')"
    by (auto simp: changes_def)
  then show thesis
    by (rule next_operation_timestamp_spec) (rule that, auto)
qed

interpretation op: stamped_steps op_step op_updated_at
proof
  fix t t' assume "op_step t t'"
  then show "t' = t \<or> (\<exists>i j. stamp_at (op_updated_at t) i \<and> stamp_at (op_updated_at t') j \<and> i < j)"
    using op_step_changes changes_stamp by metis
qed

lemma op_run_frame:
  assumes "op_step\<^sup>*\<^sup>* t t'"
  shows "same_identity t t' \<and> op_attempt t \<le> op_attempt t'"
  using assms
proof (induction rule: rtranclp_induct)
  case (step y z)
  with op_step_changes [OF step.hyps(2)] show ?case by (auto simp: changes_def same_identity_def)
qed (simp add: same_identity_def)

lemma op_run_terminal:
  assumes "op_step\<^sup>*\<^sup>* t t'" "terminal_state (op_state t)"
  shows "t' = t"
  using assms
proof (induction rule: rtranclp_induct)
  case (step y z)
  with op_step_changes [OF step.hyps(2)] show ?case by (auto simp: changes_def)
qed simp

lemma op_run_valid: "op_step\<^sup>*\<^sup>* t t' \<Longrightarrow> valid_task t \<Longrightarrow> valid_task t'"
proof (induction rule: rtranclp_induct)
  case (step y z)
  with op_step_changes [OF step.hyps(2)] show ?case by (auto simp: changes_def)
qed simp

section \<open>Life-cycle consistency\<close>

text \<open>What an empty list of inconsistencies says of a record.\<close>

definition lifecycle_consistent :: "OperationTask \<Rightarrow> bool" where
  "lifecycle_consistent t \<longleftrightarrow>
     (terminal_state (op_state t) \<longrightarrow> op_phase t = state_value (op_state t)) \<and>
     (op_state t = SUCCEEDED \<longrightarrow> result_reference t \<noteq> None \<and> progress_message t = Some ''Completed'' \<and>
        (progress_total t = None \<or> progress_total t = Some (progress_current t))) \<and>
     (\<not> terminal_state (op_state t) \<longrightarrow> result_reference t = None) \<and>
     (op_state t \<in> {FAILED, EXPIRED, ORPHANED} \<longleftrightarrow> error_code t \<noteq> None) \<and>
     (error_message t \<noteq> None \<longrightarrow> op_state t \<in> {FAILED, EXPIRED, ORPHANED}) \<and>
     (op_owner_id t = None \<longleftrightarrow> op_lease_expires_at t = None) \<and>
     (op_owner_id t \<noteq> None \<longrightarrow> op_state t = RUNNING)"

lemma flag_if_Nil [simp]: "flag_if b a = [] \<longleftrightarrow> \<not> b"
  by (simp add: flag_if_def)

lemma inconsistencies_Nil: "operation_record_inconsistencies t = [] \<longleftrightarrow> lifecycle_consistent t"
  by (cases "op_state t")
     (auto simp: operation_record_inconsistencies_def lifecycle_consistent_def terminal_state_def)

lemma inconsistencies_of_record_fields [simp]:
  "operation_record_inconsistencies (t\<lparr>record_consistency := a, record_diagnostics := ds\<rparr>) =
     operation_record_inconsistencies t"
  by (simp add: operation_record_inconsistencies_def)

lemma transitioned_consistency:
  "record_provenance t \<noteq> ''current'' \<Longrightarrow> record_consistency (transitioned t s args err stamp) =
     (if lifecycle_consistent (transitioned t s args err stamp) then ''consistent'' else ''record_inconsistent'')"
  unfolding inconsistencies_Nil [symmetric] transitioned_def Let_def
  by (simp only: if_True not_False_eq_True inconsistencies_of_record_fields) simp

lemma valid_current_consistent:
  assumes "valid_task t" "record_provenance t = ''current''"
  shows "lifecycle_consistent t" "record_consistency t = ''consistent''" "record_diagnostics t = []"
  using assms by (auto simp: valid_task_iff record_checks_def inconsistencies_Nil)

lemma new_operation_taskE:
  assumes "new_operation_task oid knd ph now cs tid wid binding expires = Inr t"
  obtains "valid_task t" "record_provenance t = ''current''" "op_state t = PENDING" "op_id t = oid"
  using assms that by (auto simp: new_operation_task_def elim!: bind_result_InrE)

lemma stamp_at_parse: "parse_timestamp s f = Inr d \<Longrightarrow> stamp_at s (instant d)"
  by (auto simp: stamp_at_def)

lemma timestamp_less_stamp:
  "stamp_at a i \<Longrightarrow> stamp_at b j \<Longrightarrow> timestamp_less a b \<longleftrightarrow> i < j"
  by (auto simp: timestamp_less_def stamp_at_def)

lemma valid_task_stamps:
  assumes "valid_task t"
  obtains i j where "stamp_at (op_created_at t) i" "stamp_at (op_updated_at t) j" "i \<le> j"
proof -
  from assms obtain dc du where d: "fromisoformat (op_created_at t) = Some dc" "is_aware dc"
    "fromisoformat (op_updated_at t) = Some du" "is_aware du" "\<not> timestamp_less (op_updated_at t) (op_created_at t)"
    by (auto simp: valid_task_iff field_checks_def)
  then have s: "stamp_at (op_created_at t) (instant dc)" "stamp_at (op_updated_at t) (instant du)"
    by (auto simp: stamp_at_def)
  with d(5) timestamp_less_stamp [OF s(2,1)] show thesis by (intro that [OF s]) simp
qed

lemma next_stamp_valid:
  assumes "valid_task t" "next_operation_timestamp (op_updated_at t) now = Inr stamp"
  shows "\<exists>d. parse_timestamp stamp f = Inr d" "\<not> timestamp_less stamp (op_created_at t)"
proof -
  obtain i j where ij: "stamp_at (op_created_at t) i" "stamp_at (op_updated_at t) j" "i \<le> j"
    by (rule valid_task_stamps [OF assms(1)])
  obtain j' k where jk: "stamp_at (op_updated_at t) j'" "stamp_at stamp (max k (j' + 1))"
    by (rule next_operation_timestamp_spec [OF assms(2)])
  then show "\<exists>d. parse_timestamp stamp f = Inr d" by (auto simp: stamp_at_def)
  have "j' = j" using ij jk stamp_at_unique by blast
  with timestamp_less_stamp [OF jk(2) ij(1)] ij(3) show "\<not> timestamp_less stamp (op_created_at t)" by simp
qed

lemma phase_names [simp]: "bounded (Some (state_value s)) ''phase'' 64 (Some SAFE_PHASE) = None"
  by (cases s) (simp_all add: bounded_def SAFE_PHASE_def fullmatch_One_Rep is_ascii_lower_def in_range_def)

lemma default_codes [simp]: "bounded (default_error_code s) ''error_code'' 128 (Some SAFE_ID) = None"
  by (cases s) (simp_all add: default_error_code_def bounded_def SAFE_ID_def fullmatch_One_Rep
      is_ascii_alnum_def is_ascii_lower_def is_ascii_upper_def is_digit_def in_range_def)

lemma sanitize_None [simp]: "sanitize_message None = Inr None"
  by (simp add: sanitize_message_def)

lemma bounded_None [simp]: "bounded None f n r = None" "bounded_multiline None f n = None"
  "safely_redacted None f = None"
  by (simp_all add: bounded_def bounded_multiline_def safely_redacted_def)

lemma terminated_valid:
  assumes "valid_task t" "record_provenance t = ''current''" "next_operation_timestamp (op_updated_at t) now = Inr stamp"
    and s: "s \<in> {FAILED, CANCELLED, EXPIRED, ORPHANED}"
  shows "valid_task (transitioned t s no_args None stamp)"
proof -
  let ?u = "transitioned t s no_args None stamp"
  note c = valid_current_consistent [OF assms(1,2)]
  have u: "?u = t\<lparr>op_state := s, op_phase := state_value s, result_reference := None,
      error_code := default_error_code s, error_message := None, retryability := RETRY_NONE,
      op_owner_id := None, op_lease_expires_at := None, record_consistency := ''consistent'',
      record_diagnostics := [], op_updated_at := stamp\<rparr>"
    using s assms(2) by (auto simp: transitioned_def no_args_def terminal_state_def Let_def)
  have "\<forall>c \<in> set (field_checks ?u). c = None"
    using assms(1) next_stamp_valid [OF assms(1,3)]
    unfolding u by (simp add: valid_task_iff field_checks_def optional_timestamp_def)
  moreover have "lifecycle_consistent ?u"
    using s unfolding u lifecycle_consistent_def
    by (elim insertE emptyE) (simp_all add: terminal_state_def default_error_code_def)
  then have "\<forall>c \<in> set (record_checks ?u). c = None"
    using assms(2) c(2,3) by (simp add: record_checks_def inconsistencies_Nil sorted_set_def) (simp add: u)
  ultimately show ?thesis by (simp add: valid_task_iff)
qed

section \<open>Properties\<close>

text \<open>
  The timestamp the operations write is an aware timestamp strictly later than the one
  it replaces; it is the candidate's instant when that is later, and one microsecond after the
  previous instant otherwise.
\<close>

theorem next_operation_timestamp_strict:
  assumes "next_operation_timestamp p c = Inr s"
  shows "\<exists>i j k. stamp_at p i \<and> stamp_at c j \<and> stamp_at s k \<and> i < k \<and> k = max j (i + 1)"
proof -
  obtain i j where "stamp_at p i" "stamp_at c j" "stamp_at s (max j (i + 1))"
    by (rule next_operation_timestamp_spec [OF assms])
  then show ?thesis by (metis less_add_one max.strict_coboundedI2)
qed

text \<open>
  A record's \<open>updated_at\<close> identifies its version: along any sequence of operations on a
  record, two versions with the same \<open>updated_at\<close> are the same record (no ABA), so comparing it
  is enough to detect every intervening change.
\<close>

theorem operation_version_no_aba:
  assumes "op_step\<^sup>*\<^sup>* t t'" "op_updated_at t' = op_updated_at t"
  shows "t' = t"
  using op.same_stamp_same_record [OF assms] .

text \<open>
  Terminal states are absorbing: once an operation is succeeded, failed, cancelled,
  expired or orphaned, no sequence of operations that return changes any field of its record.
\<close>

theorem terminal_operation_immutable:
  assumes "op_step\<^sup>*\<^sup>* t t'" "terminal_state (op_state t)"
  shows "t' = t"
  using op_run_terminal [OF assms] .

text \<open>
  Every step follows the state graph (the allowed transitions and the requeue edge from
  running to pending), keeps the identity fields and never lowers the attempt count.
\<close>

theorem operation_step_follows_graph:
  assumes "op_step t t'"
  shows "state_edge (op_state t) (op_state t') \<and> same_identity t t' \<and> op_attempt t \<le> op_attempt t'"
  using op_step_changes [OF assms] by (auto simp: changes_def state_edge_def same_identity_def)

text \<open>
  Claim C3. Every record reachable from a new operation is valid and consistent with its life
  cycle: a succeeded record has its result and complete progress, exactly the failed, expired and
  orphaned records have an error code, only a running record has an owner, and the owner and the
  lease are present together.
\<close>

theorem reachable_operation_consistent:
  assumes "new_operation_task oid knd ph now cs tid wid binding expires = Inr t0" "op_step\<^sup>*\<^sup>* t0 t"
  shows "valid_task t \<and> lifecycle_consistent t \<and> op_id t = oid"
proof -
  from assms(1) have n: "valid_task t0" "record_provenance t0 = ''current''" "op_id t0 = oid"
    by (auto elim: new_operation_taskE)
  have v: "valid_task t" by (rule op_run_valid [OF assms(2) n(1)])
  have f: "record_provenance t = ''current''" "op_id t = oid"
    using op_run_frame [OF assms(2)] n by (simp_all add: same_identity_def)
  from v f valid_current_consistent(1) [OF v f(1)] show ?thesis by simp
qed



text \<open>
  Claim C38. A record recovered with an inconsistency cannot be failed, expired or orphaned: the
  transition clears the inconsistency, and the validator then refuses the record because its
  provenance asks for one. Whatever the arguments, the call raises.
\<close>

theorem recovered_operation_cannot_fail:
  assumes "record_provenance t = ''recovered_inconsistent''" "\<not> terminal_state (op_state t)"
    and "s \<in> {FAILED, EXPIRED, ORPHANED}"
  shows "\<exists>e. transition_operation t s now args = Inl e"
proof (cases "transition_operation t s now args")
  case (Inr t')
  then show ?thesis
  proof (cases rule: transition_operationE)
    case same
    with assms show ?thesis by (auto simp: terminal_state_def)
  next
    case (moved safe_error stamp)
    have "lifecycle_consistent t'"
      using assms(3) unfolding moved(6) lifecycle_consistent_def transitioned_def Let_def
      by (elim insertE emptyE) (simp_all add: terminal_state_def default_error_code_def)
    then have "record_consistency t' = ''consistent''"
      using assms(1) moved(6) transitioned_consistency [of t s args safe_error stamp] by simp
    with moved(2,6) assms(1) show ?thesis by (simp add: valid_task_iff record_checks_def)
  qed
qed blast

subsection \<open>Witnesses\<close>

text \<open>One operation observed on the hours of one day.\<close>

definition clock_dt :: "nat \<Rightarrow> pydatetime" where
  "clock_dt h = \<lparr>dt_year = 2024, dt_month = 1, dt_day = 1, dt_hour = h, dt_minute = 0, dt_second = 0,
     dt_micro = 0, dt_offset = Some 0\<rparr>"

definition clock :: "nat \<Rightarrow> string" where
  "clock h = isoformat (clock_dt h)"

lemma clock_valid: "h < 24 \<Longrightarrow> valid_datetime (clock_dt h)"
  by (simp add: clock_dt_def valid_datetime_def valid_offset_def days_in_month_def day_micros_def)

lemma clock_instant: "instant (clock_dt h) = instant (clock_dt 0) + int h * 3600000000"
  by (simp add: clock_dt_def instant_def local_micros_def)

lemma parse_clock [simp]: "h < 24 \<Longrightarrow> fromisoformat (clock h) = Some (clock_dt h)"
  by (simp add: clock_def fromisoformat_isoformat clock_valid)

lemma aware_clock [simp]: "is_aware (clock_dt h)"
  by (simp add: is_aware_def clock_dt_def)

lemma stamp_clock: "h < 24 \<Longrightarrow> stamp_at (clock h) (instant (clock_dt h))"
  by (simp add: stamp_at_def)

lemma parse_timestamp_clock [simp]: "h < 24 \<Longrightarrow> parse_timestamp (clock h) f = Inr (clock_dt h)"
  by (simp add: parse_timestamp_def)

lemma next_clock [simp]:
  "a < b \<Longrightarrow> b < 24 \<Longrightarrow> next_operation_timestamp (clock a) (clock b) = Inr (clock b)"
  by (simp add: next_operation_timestamp_def clock_instant [of a] clock_instant [of b] flip: clock_def)

lemma clock_less [simp]: "a < 24 \<Longrightarrow> b < 24 \<Longrightarrow> timestamp_less (clock a) (clock b) \<longleftrightarrow> a < b"
  by (simp add: timestamp_less_def clock_instant [of a] clock_instant [of b])

definition example_task :: "OperationState \<Rightarrow> string \<Rightarrow> nat \<Rightarrow> (string \<times> nat) option \<Rightarrow> OperationTask" where
  "example_task s ph upd own =
     \<lparr>op_id = ''op-000000000000000000000000'', op_kind = ''profile'', op_state = s, op_phase = ph,
      progress_current = 0, progress_total = None, progress_unit = None, progress_message = None,
      op_task_id = None, op_workspace_id = None, snapshot_binding = None, result_reference = None,
      error_code = default_error_code s, error_message = None, retryability = RETRY_NONE, cancel_supported = True,
      cancellation_requested_at = None, op_created_at = clock 0, op_updated_at = clock upd,
      op_expires_at = None, op_owner_id = map_option fst own,
      op_lease_expires_at = map_option (clock \<circ> snd) own, receipt_id = None,
      record_provenance = ''current'', record_consistency = ''consistent'', record_diagnostics = [],
      op_schema_version = 2, op_attempt = 0\<rparr>"

lemma example_id [simp]:
  "validate_operation_id ''op-000000000000000000000000'' = None"
  "bounded (Some ''profile'') ''kind'' 64 (Some SAFE_KIND) = None"
  "bounded (Some ''queued'') ''phase'' 64 (Some SAFE_PHASE) = None"
  "bounded (Some ''running'') ''phase'' 64 (Some SAFE_PHASE) = None"
  "bounded (Some ''failed'') ''phase'' 64 (Some SAFE_PHASE) = None"
  "bounded (Some ''w1'') ''owner_id'' 128 (Some SAFE_ID) = None"
  "bounded (Some ''w2'') ''owner_id'' 128 (Some SAFE_ID) = None"
  by code_simp+

lemma example_progress [simp]: "validate_progress 0 None = None" "validate_binding None = None"
  by (simp_all add: validate_progress_def validate_binding_def)

lemma sorted_set_empty [simp]: "sorted_set [] = []"
  by simp

lemma example_valid:
  assumes "upd < 24"
    and "(s = PENDING \<and> ph = ''queued'' \<and> own = None) \<or> (s = FAILED \<and> ph = ''failed'' \<and> own = None) \<or>
         (s = RUNNING \<and> ph = ''running'' \<and> (case own of None \<Rightarrow> True | Some (w, l) \<Rightarrow> w \<in> {''w1'', ''w2''} \<and> l < 24))"
  shows "valid_task (example_task s ph upd own)"
proof -
  have "lifecycle_consistent (example_task s ph upd own)"
    using assms(2) by (auto simp: lifecycle_consistent_def example_task_def terminal_state_def default_error_code_def)
  then have "\<forall>c \<in> set (record_checks (example_task s ph upd own)). c = None"
    by (simp add: record_checks_def inconsistencies_Nil) (simp add: example_task_def)
  moreover have "\<forall>c \<in> set (field_checks (example_task s ph upd own)). c = None"
    using assms by (auto simp: field_checks_def example_task_def OPERATION_SCHEMA_VERSION_def optional_timestamp_def
        split: option.splits)
  ultimately show ?thesis by (simp add: valid_task_iff)
qed

lemma example_new:
  "new_operation_task ''op-000000000000000000000000'' ''profile'' ''queued'' (clock 0) True None None None None =
     Inr (example_task PENDING ''queued'' 0 None)"
proof -
  have e: "example_task PENDING ''queued'' 0 None =
     \<lparr>op_id = ''op-000000000000000000000000'', op_kind = ''profile'', op_state = PENDING, op_phase = ''queued'',
      progress_current = 0, progress_total = None, progress_unit = None, progress_message = None,
      op_task_id = None, op_workspace_id = None, snapshot_binding = None, result_reference = None,
      error_code = None, error_message = None, retryability = RETRY_NONE, cancel_supported = True,
      cancellation_requested_at = None, op_created_at = clock 0, op_updated_at = clock 0,
      op_expires_at = None, op_owner_id = None, op_lease_expires_at = None, receipt_id = None,
      record_provenance = ''current'', record_consistency = ''consistent'', record_diagnostics = [],
      op_schema_version = 2, op_attempt = 0\<rparr>"
    by (simp add: example_task_def default_error_code_def)
  have "valid_task (example_task PENDING ''queued'' 0 None)" by (rule example_valid) simp_all
  then show ?thesis
    by (simp add: new_operation_task_def OPERATION_SCHEMA_VERSION_def flip: e)
qed

lemma example_start:
  "transition_operation (example_task PENDING ''queued'' 0 None) RUNNING (clock 1) no_args =
     Inr (example_task RUNNING ''running'' 1 None)"
proof -
  let ?t = "example_task PENDING ''queued'' 0 None"
  have tr: "transitioned ?t RUNNING no_args None (clock 1) = example_task RUNNING ''running'' 1 None"
    by (simp add: transitioned_def example_task_def no_args_def terminal_state_def default_error_code_def)
  have "valid_task ?t" "valid_task (example_task RUNNING ''running'' 1 None)" by (rule example_valid; simp)+
  then have "valid_task ?t" "valid_task (transitioned ?t RUNNING no_args None (clock 1))"
    by (simp_all only: tr)
  then show ?thesis
    unfolding tr [symmetric]
    by (simp add: transition_operation_def) (simp add: example_task_def no_args_def)
qed

lemma example_fail:
  "transition_operation (example_task RUNNING ''running'' 1 None) FAILED (clock 2) no_args =
     Inr (example_task FAILED ''failed'' 2 None)"
proof -
  let ?t = "example_task RUNNING ''running'' 1 None"
  have tr: "transitioned ?t FAILED no_args None (clock 2) = example_task FAILED ''failed'' 2 None"
    by (simp add: transitioned_def example_task_def no_args_def terminal_state_def default_error_code_def)
  have "valid_task ?t" "valid_task (example_task FAILED ''failed'' 2 None)" by (rule example_valid; simp)+
  then have "valid_task ?t" "valid_task (transitioned ?t FAILED no_args None (clock 2))"
    by (simp_all only: tr)
  then show ?thesis
    unfolding tr [symmetric]
    by (simp add: transition_operation_def) (simp add: example_task_def no_args_def default_error_code_def)
qed

lemma example_take_over:
  "claim_operation_ownership (example_task RUNNING ''running'' 2 (Some (''w1'', 3))) ''w2'' (clock 6) (clock 4) None =
     Inr (example_task RUNNING ''running'' 4 (Some (''w2'', 6)))"
proof -
  let ?t = "example_task RUNNING ''running'' 2 (Some (''w1'', 3))"
  let ?u = "example_task RUNNING ''running'' 4 (Some (''w2'', 6))"
  have tr: "?t\<lparr>op_owner_id := Some ''w2'', op_lease_expires_at := Some (clock 6),
      op_updated_at := clock 4\<rparr> = ?u"
    by (simp add: example_task_def)
  have v: "valid_task ?t" "valid_task ?u" by (rule example_valid; simp)+
  have f: "op_state ?t = RUNNING" "op_owner_id ?t = Some ''w1''" "op_lease_expires_at ?t = Some (clock 3)"
    "op_updated_at ?t = clock 2"
    by (simp_all add: example_task_def)
  show ?thesis
    using v unfolding claim_operation_ownership_def tr [symmetric]
    by (simp add: f clock_instant [of 6] clock_instant [of 4] clock_instant [of 3] flip: clock_def)
qed

theorem next_operation_timestamp_strict_witness:
  "next_operation_timestamp (clock 1) (clock 2) = Inr (clock 2) \<and>
   (\<exists>i j k. stamp_at (clock 1) i \<and> stamp_at (clock 2) j \<and> stamp_at (clock 2) k \<and> i < k \<and> k = max j (i + 1))"
proof -
  have "next_operation_timestamp (clock 1) (clock 2) = Inr (clock 2)" by simp
  with next_operation_timestamp_strict [OF this] show ?thesis by blast
qed

theorem operation_version_no_aba_witness:
  "op_step\<^sup>*\<^sup>* (example_task PENDING ''queued'' 0 None) (example_task RUNNING ''running'' 1 None) \<and>
   op_updated_at (example_task RUNNING ''running'' 1 None) \<noteq> op_updated_at (example_task PENDING ''queued'' 0 None)"
proof -
  have r: "op_step\<^sup>*\<^sup>* (example_task PENDING ''queued'' 0 None) (example_task RUNNING ''running'' 1 None)"
    using op_step.transition [OF example_start] by blast
  have "example_task RUNNING ''running'' 1 None \<noteq> example_task PENDING ''queued'' 0 None"
    by (simp add: example_task_def)
  with operation_version_no_aba [OF r] r show ?thesis by blast
qed

theorem terminal_operation_immutable_witness:
  "terminal_state (op_state (example_task FAILED ''failed'' 2 None)) \<and>
   (\<forall>t'. op_step\<^sup>*\<^sup>* (example_task FAILED ''failed'' 2 None) t' \<longleftrightarrow> t' = example_task FAILED ''failed'' 2 None)"
proof -
  have "terminal_state (op_state (example_task FAILED ''failed'' 2 None))"
    by (simp add: example_task_def terminal_state_def)
  with terminal_operation_immutable show ?thesis by blast
qed

theorem operation_step_follows_graph_witness:
  "op_step (example_task RUNNING ''running'' 1 None) (example_task FAILED ''failed'' 2 None) \<and>
   state_edge (op_state (example_task RUNNING ''running'' 1 None)) (op_state (example_task FAILED ''failed'' 2 None))"
  using operation_step_follows_graph [OF op_step.transition [OF example_fail]] op_step.transition [OF example_fail]
  by blast

theorem reachable_operation_consistent_witness:
  "op_step\<^sup>*\<^sup>* (example_task PENDING ''queued'' 0 None) (example_task FAILED ''failed'' 2 None) \<and>
   lifecycle_consistent (example_task FAILED ''failed'' 2 None)"
proof -
  have "op_step\<^sup>*\<^sup>* (example_task PENDING ''queued'' 0 None) (example_task FAILED ''failed'' 2 None)"
    using op_step.transition [OF example_start] op_step.transition [OF example_fail]
    by (meson rtranclp.rtrancl_into_rtrancl rtranclp.rtrancl_refl)
  with reachable_operation_consistent [OF example_new] show ?thesis by blast
qed



definition recovered_task :: OperationTask where
  "recovered_task = (example_task RUNNING ''running'' 1 None)
     \<lparr>result_reference := Some ''r1'', record_provenance := ''recovered_inconsistent'',
      record_consistency := ''record_inconsistent'', record_diagnostics := [''nonterminal_result_reference'']\<rparr>"

theorem recovered_operation_cannot_fail_witness:
  "valid_task recovered_task \<and> op_state recovered_task = RUNNING \<and>
   (\<exists>e. transition_operation recovered_task FAILED (clock 2) no_args = Inl e)"
proof -
  have "bounded (Some ''r1'') ''result_reference'' 256 (Some SAFE_ID) = None"
    "bounded (Some ''nonterminal_result_reference'') ''record_diagnostics'' 128 (Some RECORD_DIAGNOSTIC) = None"
    by code_simp+
  then have "valid_task recovered_task"
    using example_valid [of 1 RUNNING "''running''" None]
    by (simp add: valid_task_iff field_checks_def record_checks_def recovered_task_def sorted_set_def example_task_def)
  moreover have "op_state recovered_task = RUNNING" "record_provenance recovered_task = ''recovered_inconsistent''"
    by (simp_all add: recovered_task_def example_task_def)
  ultimately show ?thesis
    using recovered_operation_cannot_fail [of recovered_task FAILED "clock 2" no_args]
    by (simp add: terminal_state_def)
qed

end
