(* ===== verification/Operation_Work.thy ===== *)
theory Operation_Work
  imports Operation_Lifecycle
begin

text \<open>
  domain/operation_work.py: the durable work item behind an operation, its claim, requeue, renewal
  and child-start transitions, and its JSON codec.
\<close>

section \<open>Data\<close>

datatype OperationWorkState = QUEUED | CLAIMED

fun work_state_value :: "OperationWorkState \<Rightarrow> string" where
  "work_state_value QUEUED = ''queued''"
| "work_state_value CLAIMED = ''claimed''"

record OperationWorkRequest =
  wr_kind :: string
  wr_workspace_id :: string
  wr_expected_head_sha :: string
  wr_expected_fingerprint :: string
  wr_config_generation :: int
  wr_profile_name :: "string option"
  wr_argv :: "string list"
  wr_script :: "string option"
  wr_shell :: "string option"
  wr_argv_sequence :: "string list list option"
  wr_working_directory :: "string option"
  wr_mutability :: string
  wr_diagnostic_id :: "string option"
  wr_selector :: "string list option"
  wr_selector2 :: "string list option"
  wr_intent :: "string option"
  wr_expectation :: "string option"
  wr_expected_failure_class :: "string option"
  wr_force_rerun :: bool
  wr_rerun_failed :: bool
  wr_stdin_text :: "string option"

text \<open>\<open>__post_init__\<close>\<close>

definition request_post_init :: "OperationWorkRequest \<Rightarrow> exn option" where
  "request_post_init r =
     (if wr_kind r \<noteq> ''adhoc'' then None
      else first_error
        [raise_if (1 < of_bool (wr_argv r \<noteq> []) + of_bool (wr_script r \<noteq> None) + (of_bool (wr_argv_sequence r \<noteq> None) :: nat))
           (op_invalid (''EXEC_FORM_CONFLICT: an adhoc operation work request must have at most '' @
              ''one of argv, script, or argv_sequence populated'')),
         raise_if ((wr_script r = None) \<noteq> (wr_shell r = None))
           (op_invalid ''EXEC_FORM_CONFLICT: shell is required with script, and only valid with script''),
         raise_if (wr_argv_sequence r \<noteq> None \<and> wr_stdin_text r \<noteq> None)
           (op_invalid ''EXEC_FORM_CONFLICT: stdin_text is not supported with argv_sequence'')])"

definition make_request :: "OperationWorkRequest \<Rightarrow> OperationWorkRequest result" where
  "make_request r = checked (request_post_init r) r"

text \<open>A request with the given required fields and the defaults of the class.\<close>

definition base_request :: "string \<Rightarrow> string \<Rightarrow> string \<Rightarrow> string \<Rightarrow> int \<Rightarrow> OperationWorkRequest" where
  "base_request k ws hd_sha fp gen =
     \<lparr>wr_kind = k, wr_workspace_id = ws, wr_expected_head_sha = hd_sha, wr_expected_fingerprint = fp,
      wr_config_generation = gen, wr_profile_name = None, wr_argv = [], wr_script = None, wr_shell = None,
      wr_argv_sequence = None, wr_working_directory = None, wr_mutability = ''read_only'',
      wr_diagnostic_id = None, wr_selector = None, wr_selector2 = None, wr_intent = None,
      wr_expectation = None, wr_expected_failure_class = None, wr_force_rerun = False,
      wr_rerun_failed = False, wr_stdin_text = None\<rparr>"

definition profile_request :: "string \<Rightarrow> string \<Rightarrow> string \<Rightarrow> string \<Rightarrow> int \<Rightarrow> OperationWorkRequest result" where
  "profile_request ws name hd_sha fp gen =
     make_request ((base_request ''profile'' ws hd_sha fp gen)\<lparr>wr_profile_name := Some name\<rparr>)"

definition diagnostic_request ::
  "string \<Rightarrow> string \<Rightarrow> string list option \<Rightarrow> string list option \<Rightarrow> string option \<Rightarrow> string option \<Rightarrow> string option \<Rightarrow>
   bool \<Rightarrow> bool \<Rightarrow> string \<Rightarrow> string \<Rightarrow> int \<Rightarrow> OperationWorkRequest result" where
  "diagnostic_request ws diag sel sel2 intnt expct fcls force rerun hd_sha fp gen =
     make_request ((base_request ''diagnostic'' ws hd_sha fp gen)
       \<lparr>wr_diagnostic_id := Some diag, wr_selector := sel, wr_selector2 := sel2, wr_intent := intnt,
        wr_expectation := expct, wr_expected_failure_class := fcls, wr_force_rerun := force,
        wr_rerun_failed := rerun\<rparr>)"

definition adhoc_request ::
  "string \<Rightarrow> string list \<Rightarrow> string option \<Rightarrow> string option \<Rightarrow> string list list option \<Rightarrow> string option \<Rightarrow> string \<Rightarrow>
   string \<Rightarrow> string \<Rightarrow> int \<Rightarrow> string option \<Rightarrow> OperationWorkRequest result" where
  "adhoc_request ws argv script sh argvs wd mut hd_sha fp gen stdin =
     make_request ((base_request ''adhoc'' ws hd_sha fp gen)
       \<lparr>wr_argv := argv, wr_script := script, wr_shell := sh, wr_argv_sequence := argvs,
        wr_working_directory := wd, wr_mutability := mut, wr_stdin_text := stdin\<rparr>)"

record OperationWorkItem =
  wk_operation_id :: string
  wk_request :: OperationWorkRequest
  wk_state :: OperationWorkState
  wk_attempt :: int
  wk_owner_id :: "string option"
  wk_lease_expires_at :: "string option"
  wk_child_started :: bool
  wk_created_at :: string
  wk_updated_at :: string
  wk_schema_version :: int

section \<open>Transitions\<close>

definition new_work_item :: "string \<Rightarrow> OperationWorkRequest \<Rightarrow> string \<Rightarrow> OperationWorkItem result" where
  "new_work_item oid r now = checked (first_error
     [validate_operation_id oid,
      raise_if (length (wr_expected_fingerprint r) \<noteq> 64 \<or>
          (\<exists>c \<in> set (wr_expected_fingerprint r). c \<notin> set ''0123456789abcdef''))
        (op_invalid ''expected_fingerprint must be an exact lowercase SHA-256 digest'')])
     \<lparr>wk_operation_id = oid, wk_request = r, wk_state = QUEUED, wk_attempt = 0, wk_owner_id = None,
      wk_lease_expires_at = None, wk_child_started = False, wk_created_at = now, wk_updated_at = now,
      wk_schema_version = 1\<rparr>"

definition claim_work_item :: "OperationWorkItem \<Rightarrow> string \<Rightarrow> string \<Rightarrow> string \<Rightarrow> OperationWorkItem result" where
  "claim_work_item w owner lease now =
     (if wk_state w \<noteq> QUEUED then Inl (op_invalid ''only queued work can be claimed'')
      else bind_result (next_operation_timestamp (wk_updated_at w) now) (\<lambda>stamp.
        Inr (w\<lparr>wk_state := CLAIMED, wk_attempt := wk_attempt w + 1, wk_owner_id := Some owner,
               wk_lease_expires_at := Some lease, wk_updated_at := stamp\<rparr>)))"

definition requeue_unstarted_work :: "OperationWorkItem \<Rightarrow> string \<Rightarrow> OperationWorkItem result" where
  "requeue_unstarted_work w now =
     (if wk_child_started w then Inl (op_invalid ''started work cannot be requeued'')
      else bind_result (next_operation_timestamp (wk_updated_at w) now) (\<lambda>stamp.
        Inr (w\<lparr>wk_state := QUEUED, wk_owner_id := None, wk_lease_expires_at := None, wk_updated_at := stamp\<rparr>)))"

definition mark_work_child_started :: "OperationWorkItem \<Rightarrow> string \<Rightarrow> int \<Rightarrow> string \<Rightarrow> OperationWorkItem result" where
  "mark_work_child_started w owner att now =
     (if wk_state w \<noteq> CLAIMED \<or> wk_owner_id w \<noteq> Some owner \<or> wk_attempt w \<noteq> att
      then Inl (op_stale ''Work ownership changed before the child spawn boundary'')
      else if wk_child_started w then Inr w
      else bind_result (next_operation_timestamp (wk_updated_at w) now) (\<lambda>stamp.
        Inr (w\<lparr>wk_child_started := True, wk_updated_at := stamp\<rparr>)))"

definition renew_work_claim :: "OperationWorkItem \<Rightarrow> string \<Rightarrow> string \<Rightarrow> string \<Rightarrow> OperationWorkItem result" where
  "renew_work_claim w owner lease now =
     (if wk_state w \<noteq> CLAIMED \<or> wk_owner_id w \<noteq> Some owner
      then Inl (op_stale ''only the current work owner can renew its lease'')
      else bind_result (next_operation_timestamp (wk_updated_at w) now) (\<lambda>stamp.
        Inr (w\<lparr>wk_lease_expires_at := Some lease, wk_updated_at := stamp\<rparr>)))"

section \<open>The JSON codec\<close>

definition WORK_ITEM_FIELDS :: "string list" where
  "WORK_ITEM_FIELDS = [''operation_id'', ''request'', ''state'', ''attempt'', ''owner_id'', ''lease_expires_at'',
     ''child_started'', ''created_at'', ''updated_at'', ''schema_version'']"

definition request_fields :: "string \<Rightarrow> string list" where
  "request_fields k =
     (if k = ''profile'' then [''kind'', ''workspace_id'', ''profile_name'', ''expected_head_sha'',
        ''expected_fingerprint'', ''config_generation'']
      else if k = ''adhoc'' then [''kind'', ''workspace_id'', ''argv'', ''working_directory'', ''mutability'',
        ''expected_head_sha'', ''expected_fingerprint'', ''config_generation'']
      else if k = ''diagnostic'' then [''kind'', ''workspace_id'', ''diagnostic_id'', ''selector'', ''selector2'',
        ''intent'', ''expectation'', ''expected_failure_class'', ''force_rerun'', ''rerun_failed'',
        ''expected_head_sha'', ''expected_fingerprint'', ''config_generation'']
      else [])"

definition optional_fields :: "string \<Rightarrow> string list" where
  "optional_fields k = (if k = ''adhoc'' then [''stdin_text'', ''script'', ''shell'', ''argv_sequence''] else [])"

definition of_opt_strings :: "string list option \<Rightarrow> pyval" where
  "of_opt_strings v = (case v of None \<Rightarrow> VNone | Some ss \<Rightarrow> of_strings ss)"

definition request_payload :: "OperationWorkRequest \<Rightarrow> pydict" where
  "request_payload r =
     (if wr_kind r = ''profile'' then
       [(''kind'', VStr ''profile''), (''workspace_id'', VStr (wr_workspace_id r)),
        (''profile_name'', of_opt (wr_profile_name r)), (''expected_head_sha'', VStr (wr_expected_head_sha r)),
        (''expected_fingerprint'', VStr (wr_expected_fingerprint r)), (''config_generation'', VInt (wr_config_generation r))]
      else if wr_kind r = ''diagnostic'' then
       [(''kind'', VStr ''diagnostic''), (''workspace_id'', VStr (wr_workspace_id r)),
        (''diagnostic_id'', of_opt (wr_diagnostic_id r)), (''selector'', of_opt_strings (wr_selector r)),
        (''selector2'', of_opt_strings (wr_selector2 r)), (''intent'', of_opt (wr_intent r)),
        (''expectation'', of_opt (wr_expectation r)), (''expected_failure_class'', of_opt (wr_expected_failure_class r)),
        (''force_rerun'', VBool (wr_force_rerun r)), (''rerun_failed'', VBool (wr_rerun_failed r)),
        (''expected_head_sha'', VStr (wr_expected_head_sha r)),
        (''expected_fingerprint'', VStr (wr_expected_fingerprint r)), (''config_generation'', VInt (wr_config_generation r))]
      else
       [(''kind'', VStr ''adhoc''), (''workspace_id'', VStr (wr_workspace_id r)), (''argv'', of_strings (wr_argv r)),
        (''script'', of_opt (wr_script r)), (''shell'', of_opt (wr_shell r)),
        (''argv_sequence'', (case wr_argv_sequence r of None \<Rightarrow> VNone | Some es \<Rightarrow> VList (map of_strings es))),
        (''working_directory'', of_opt (wr_working_directory r)), (''mutability'', VStr (wr_mutability r)),
        (''stdin_text'', of_opt (wr_stdin_text r)), (''expected_head_sha'', VStr (wr_expected_head_sha r)),
        (''expected_fingerprint'', VStr (wr_expected_fingerprint r)), (''config_generation'', VInt (wr_config_generation r))])"

definition work_item_payload :: "OperationWorkItem \<Rightarrow> pydict" where
  "work_item_payload w =
     [(''operation_id'', VStr (wk_operation_id w)), (''request'', VDict (request_payload (wk_request w))),
      (''state'', VStr (work_state_value (wk_state w))), (''attempt'', VInt (wk_attempt w)),
      (''owner_id'', of_opt (wk_owner_id w)), (''lease_expires_at'', of_opt (wk_lease_expires_at w)),
      (''child_started'', VBool (wk_child_started w)), (''created_at'', VStr (wk_created_at w)),
      (''updated_at'', VStr (wk_updated_at w)), (''schema_version'', VInt (wk_schema_version w))]"

text \<open>A selector is null or a list of strings; \<open>None\<close> here stands for neither.\<close>

definition opt_string_list :: "pyval \<Rightarrow> string list option option" where
  "opt_string_list v = (if v = VNone then Some None else map_option Some (string_list v))"

fun string_lists :: "pyval list \<Rightarrow> string list list option" where
  "string_lists [] = Some []"
| "string_lists (v # vs) =
     (case (string_list v, string_lists vs) of (Some s, Some ss) \<Rightarrow> Some (s # ss) | _ \<Rightarrow> None)"

definition profile_from :: "pydict \<Rightarrow> OperationWorkRequest result" where
  "profile_from d =
     bind_result (py_int (dict_get_none d ''config_generation'')) (\<lambda>gen.
     profile_request (py_str (dict_get_none d ''workspace_id'')) (py_str (dict_get_none d ''profile_name''))
       (py_str (dict_get_none d ''expected_head_sha'')) (py_str (dict_get_none d ''expected_fingerprint'')) gen)"

definition diagnostic_from :: "pydict \<Rightarrow> OperationWorkRequest result" where
  "diagnostic_from d =
     (case (opt_string_list (dict_get_none d ''selector''), opt_string_list (dict_get_none d ''selector2'')) of
        (Some sel, Some sel2) \<Rightarrow>
          bind_result (py_int (dict_get_none d ''config_generation'')) (\<lambda>gen.
          diagnostic_request (py_str (dict_get_none d ''workspace_id'')) (py_str (dict_get_none d ''diagnostic_id''))
            sel sel2 (opt_str (dict_get_none d ''intent'')) (opt_str (dict_get_none d ''expectation''))
            (opt_str (dict_get_none d ''expected_failure_class''))
            (py_bool (dict_get_none d ''force_rerun'')) (py_bool (dict_get_none d ''rerun_failed''))
            (py_str (dict_get_none d ''expected_head_sha'')) (py_str (dict_get_none d ''expected_fingerprint'')) gen)
      | _ \<Rightarrow> Inl (op_invalid ''operation work diagnostic selectors must be null or JSON string arrays''))"

definition adhoc_from :: "pydict \<Rightarrow> OperationWorkRequest result" where
  "adhoc_from d =
     (case string_list (dict_get_none d ''argv'') of
        None \<Rightarrow> Inl (op_invalid ''operation work adhoc argv must be a JSON string array'')
      | Some argv \<Rightarrow>
          bind_result
            (case dict_get_none d ''argv_sequence'' of
               VNone \<Rightarrow> Inr None
             | VList vs \<Rightarrow> (case string_lists vs of
                   Some ss \<Rightarrow> Inr (Some ss)
                 | None \<Rightarrow> Inl (op_invalid ''operation work adhoc argv_sequence must be a JSON array of string arrays''))
             | _ \<Rightarrow> Inl (op_invalid ''operation work adhoc argv_sequence must be a JSON array of string arrays''))
            (\<lambda>argvs.
          bind_result (py_int (dict_get_none d ''config_generation'')) (\<lambda>gen.
          adhoc_request (py_str (dict_get_none d ''workspace_id'')) argv (opt_str (dict_get_none d ''script''))
            (opt_str (dict_get_none d ''shell'')) argvs (opt_str (dict_get_none d ''working_directory''))
            (py_str (dict_get_none d ''mutability'')) (py_str (dict_get_none d ''expected_head_sha''))
            (py_str (dict_get_none d ''expected_fingerprint'')) gen (opt_str (dict_get_none d ''stdin_text'')))))"

definition work_state_of :: "string \<Rightarrow> OperationWorkState result" where
  "work_state_of s = (if s = ''queued'' then Inr QUEUED else if s = ''claimed'' then Inr CLAIMED
     else Inl (ValueError (repr_str s @ '' is not a valid OperationWorkState'')))"

definition payload_request_kind :: "pydict \<Rightarrow> string" where
  "payload_request_kind d =
     (case dict_get_none d ''request'' of
        VDict r \<Rightarrow> (case dict_get_none r ''kind'' of VStr k \<Rightarrow> k | _ \<Rightarrow> [])
      | _ \<Rightarrow> [])"

definition payload_shape_ok :: "pydict \<Rightarrow> bool" where
  "payload_shape_ok d \<longleftrightarrow>
     (let k = payload_request_kind d in
      same_keys d WORK_ITEM_FIELDS \<and> dict_get_none d ''schema_version'' = VInt 1 \<and>
      (case dict_get_none d ''attempt'' of VInt a \<Rightarrow> 0 \<le> a | _ \<Rightarrow> False) \<and>
      (case dict_get_none d ''child_started'' of VBool _ \<Rightarrow> True | _ \<Rightarrow> False) \<and>
      (case dict_get_none d ''request'' of
         VDict r \<Rightarrow> set (request_fields k) \<subseteq> set (map fst r) \<and>
                    set (map fst r) \<subseteq> set (request_fields k) \<union> set (optional_fields k)
       | _ \<Rightarrow> False) \<and>
      k \<in> {''profile'', ''adhoc'', ''diagnostic''})"

definition work_item_from_payload :: "pydict \<Rightarrow> OperationWorkItem result" where
  "work_item_from_payload d =
     (case (dict_get_none d ''request'', dict_get_none d ''attempt'', dict_get_none d ''child_started'') of
        (VDict r, VInt a, VBool started) \<Rightarrow>
          if \<not> payload_shape_ok d
          then Inl (op_invalid ''operation work payload fields do not match schema version 1'')
          else bind_result
            (if payload_request_kind d = ''profile'' then profile_from r
             else if payload_request_kind d = ''diagnostic'' then diagnostic_from r
             else adhoc_from r) (\<lambda>rq.
          bind_result (work_state_of (py_str (dict_get_none d ''state''))) (\<lambda>st.
          Inr \<lparr>wk_operation_id = py_str (dict_get_none d ''operation_id''), wk_request = rq, wk_state = st,
               wk_attempt = a, wk_owner_id = opt_str (dict_get_none d ''owner_id''),
               wk_lease_expires_at = opt_str (dict_get_none d ''lease_expires_at''), wk_child_started = started,
               wk_created_at = py_str (dict_get_none d ''created_at''),
               wk_updated_at = py_str (dict_get_none d ''updated_at''), wk_schema_version = 1\<rparr>))
      | _ \<Rightarrow> Inl (op_invalid ''operation work payload fields do not match schema version 1''))"

section \<open>Lemmas: the codec\<close>

text \<open>The requests the class methods build: their kind's fields set, every other field at its default.\<close>

definition canonical_request :: "OperationWorkRequest \<Rightarrow> bool" where
  "canonical_request r \<longleftrightarrow> request_post_init r = None \<and>
     (let b = base_request (wr_kind r) (wr_workspace_id r) (wr_expected_head_sha r)
                (wr_expected_fingerprint r) (wr_config_generation r) in
      (wr_kind r = ''profile'' \<and> wr_profile_name r \<noteq> None \<and> r = b\<lparr>wr_profile_name := wr_profile_name r\<rparr>) \<or>
      (wr_kind r = ''diagnostic'' \<and> wr_diagnostic_id r \<noteq> None \<and>
        r = b\<lparr>wr_diagnostic_id := wr_diagnostic_id r, wr_selector := wr_selector r, wr_selector2 := wr_selector2 r,
              wr_intent := wr_intent r, wr_expectation := wr_expectation r,
              wr_expected_failure_class := wr_expected_failure_class r, wr_force_rerun := wr_force_rerun r,
              wr_rerun_failed := wr_rerun_failed r\<rparr>) \<or>
      (wr_kind r = ''adhoc'' \<and>
        r = b\<lparr>wr_argv := wr_argv r, wr_script := wr_script r, wr_shell := wr_shell r,
              wr_argv_sequence := wr_argv_sequence r, wr_working_directory := wr_working_directory r,
              wr_mutability := wr_mutability r, wr_stdin_text := wr_stdin_text r\<rparr>))"

lemma built_canonical:
  "profile_request ws name h fp gen = Inr r \<Longrightarrow> canonical_request r"
  "diagnostic_request ws diag sel sel2 intnt expct fcls force rerun h fp gen = Inr r \<Longrightarrow> canonical_request r"
  "adhoc_request ws argv script sh argvs wd mut h fp gen stdin = Inr r \<Longrightarrow> canonical_request r"
  by (auto simp: profile_request_def diagnostic_request_def adhoc_request_def make_request_def
      canonical_request_def base_request_def Let_def)

lemma opt_string_list_of [simp]: "opt_string_list (of_opt_strings v) = Some v"
  by (cases v) (simp_all add: opt_string_list_def of_opt_strings_def, simp add: of_strings_def)

lemma string_lists_map [simp]: "string_lists (map of_strings es) = Some es"
  by (induction es) simp_all

lemma request_payload_kind:
  "canonical_request r \<Longrightarrow> dict_get_none (request_payload r) ''kind'' = VStr (wr_kind r)"
  by (auto simp: canonical_request_def request_payload_def dict_get_none_def Let_def)

lemma request_payload_fields:
  "canonical_request r \<Longrightarrow>
     set (request_fields (wr_kind r)) \<subseteq> set (map fst (request_payload r)) \<and>
     set (map fst (request_payload r)) \<subseteq> set (request_fields (wr_kind r)) \<union> set (optional_fields (wr_kind r))"
  by (auto simp: canonical_request_def request_payload_def request_fields_def optional_fields_def Let_def)

lemma request_roundtrip:
  assumes "canonical_request r"
  shows "(if wr_kind r = ''profile'' then profile_from (request_payload r)
          else if wr_kind r = ''diagnostic'' then diagnostic_from (request_payload r)
          else adhoc_from (request_payload r)) = Inr r"
proof -
  let ?b = "base_request (wr_kind r) (wr_workspace_id r) (wr_expected_head_sha r)
                (wr_expected_fingerprint r) (wr_config_generation r)"
  have ok: "request_post_init r = None" using assms by (simp add: canonical_request_def)
  consider (p) n where "wr_kind r = ''profile''" "wr_profile_name r = Some n" "r = ?b\<lparr>wr_profile_name := wr_profile_name r\<rparr>"
    | (d) g where "wr_kind r = ''diagnostic''" "wr_diagnostic_id r = Some g"
        "r = ?b\<lparr>wr_diagnostic_id := wr_diagnostic_id r, wr_selector := wr_selector r, wr_selector2 := wr_selector2 r,
              wr_intent := wr_intent r, wr_expectation := wr_expectation r,
              wr_expected_failure_class := wr_expected_failure_class r, wr_force_rerun := wr_force_rerun r,
              wr_rerun_failed := wr_rerun_failed r\<rparr>"
    | (a) "wr_kind r = ''adhoc''"
        "r = ?b\<lparr>wr_argv := wr_argv r, wr_script := wr_script r, wr_shell := wr_shell r,
              wr_argv_sequence := wr_argv_sequence r, wr_working_directory := wr_working_directory r,
              wr_mutability := wr_mutability r, wr_stdin_text := wr_stdin_text r\<rparr>"
    using assms unfolding canonical_request_def Let_def by blast
  then show ?thesis
  proof cases
    case p
    have "profile_from (request_payload r) = make_request (?b\<lparr>wr_profile_name := wr_profile_name r\<rparr>)"
      using p(1,2) by (simp add: profile_from_def request_payload_def dict_get_none_def of_opt_def profile_request_def)
    then show ?thesis using p(1) ok unfolding p(3) [symmetric] by (simp add: make_request_def)
  next
    case d
    have "diagnostic_from (request_payload r) = make_request (?b\<lparr>wr_diagnostic_id := wr_diagnostic_id r,
              wr_selector := wr_selector r, wr_selector2 := wr_selector2 r,
              wr_intent := wr_intent r, wr_expectation := wr_expectation r,
              wr_expected_failure_class := wr_expected_failure_class r, wr_force_rerun := wr_force_rerun r,
              wr_rerun_failed := wr_rerun_failed r\<rparr>)"
      using d(1,2) by (simp add: diagnostic_from_def request_payload_def dict_get_none_def diagnostic_request_def)
        (simp add: of_opt_def)
    then show ?thesis using d(1) ok unfolding d(3) [symmetric] by (simp add: make_request_def)
  next
    case a
    have "adhoc_from (request_payload r) = make_request (?b\<lparr>wr_argv := wr_argv r, wr_script := wr_script r,
              wr_shell := wr_shell r, wr_argv_sequence := wr_argv_sequence r,
              wr_working_directory := wr_working_directory r,
              wr_mutability := wr_mutability r, wr_stdin_text := wr_stdin_text r\<rparr>)"
      using a(1) by (cases "wr_argv_sequence r")
        (simp_all add: adhoc_from_def request_payload_def dict_get_none_def adhoc_request_def)
    then show ?thesis using a(1) ok unfolding a(2) [symmetric] by (simp add: make_request_def)
  qed
qed

lemma work_payload_shape:
  assumes "canonical_request (wk_request w)" "wk_schema_version w = 1" "0 \<le> wk_attempt w"
  shows "payload_shape_ok (work_item_payload w)"
    and "payload_request_kind (work_item_payload w) = wr_kind (wk_request w)"
proof -
  show k: "payload_request_kind (work_item_payload w) = wr_kind (wk_request w)"
    using request_payload_kind [OF assms(1)]
    by (simp add: payload_request_kind_def work_item_payload_def dict_get_none_def)
  have "same_keys (work_item_payload w) WORK_ITEM_FIELDS"
    by (simp add: same_keys_def work_item_payload_def WORK_ITEM_FIELDS_def)
  moreover have "wr_kind (wk_request w) \<in> {''profile'', ''adhoc'', ''diagnostic''}"
    using assms(1) by (auto simp: canonical_request_def Let_def)
  ultimately show "payload_shape_ok (work_item_payload w)"
    using assms(2,3) request_payload_fields [OF assms(1)] unfolding payload_shape_ok_def Let_def k
    by (simp add: work_item_payload_def dict_get_none_def)
qed

lemma work_state_of_value [simp]: "work_state_of (work_state_value s) = Inr s"
  by (cases s) (simp_all add: work_state_of_def)

lemma work_item_roundtrip:
  assumes "canonical_request (wk_request w)" "wk_schema_version w = 1" "0 \<le> wk_attempt w"
  shows "work_item_from_payload (work_item_payload w) = Inr w"
proof -
  have g: "dict_get_none (work_item_payload w) ''request'' = VDict (request_payload (wk_request w))"
    "dict_get_none (work_item_payload w) ''attempt'' = VInt (wk_attempt w)"
    "dict_get_none (work_item_payload w) ''child_started'' = VBool (wk_child_started w)"
    "dict_get_none (work_item_payload w) ''state'' = VStr (work_state_value (wk_state w))"
    "dict_get_none (work_item_payload w) ''operation_id'' = VStr (wk_operation_id w)"
    "dict_get_none (work_item_payload w) ''owner_id'' = of_opt (wk_owner_id w)"
    "dict_get_none (work_item_payload w) ''lease_expires_at'' = of_opt (wk_lease_expires_at w)"
    "dict_get_none (work_item_payload w) ''created_at'' = VStr (wk_created_at w)"
    "dict_get_none (work_item_payload w) ''updated_at'' = VStr (wk_updated_at w)"
    by (simp_all add: work_item_payload_def dict_get_none_def)
  note sh = work_payload_shape [OF assms]
  have "work_item_from_payload (work_item_payload w) = Inr (w\<lparr>wk_schema_version := 1\<rparr>)"
    unfolding work_item_from_payload_def g sh(2) prod.case pyval.case request_roundtrip [OF assms(1)]
    by (simp add: sh(1))
  also have "w\<lparr>wk_schema_version := 1\<rparr> = w" using assms(2) by simp
  finally show ?thesis .
qed

section \<open>The step relation of a work item\<close>

inductive wk_step :: "OperationWorkItem \<Rightarrow> OperationWorkItem \<Rightarrow> bool" where
  claim: "claim_work_item w owner lease now = Inr w' \<Longrightarrow> wk_step w w'"
| requeue: "requeue_unstarted_work w now = Inr w' \<Longrightarrow> wk_step w w'"
| start: "mark_work_child_started w owner att now = Inr w' \<Longrightarrow> wk_step w w'"
| renew: "renew_work_claim w owner lease now = Inr w' \<Longrightarrow> wk_step w w'"

text \<open>The invariant of a work item: a queued item has no owner, no lease and no started child, a
  claimed one has both owner and lease and at least one attempt.\<close>

definition work_ok :: "OperationWorkItem \<Rightarrow> bool" where
  "work_ok w \<longleftrightarrow> 0 \<le> wk_attempt w \<and> wk_schema_version w = 1 \<and>
     (case wk_state w of
        QUEUED \<Rightarrow> wk_owner_id w = None \<and> wk_lease_expires_at w = None \<and> \<not> wk_child_started w
      | CLAIMED \<Rightarrow> wk_owner_id w \<noteq> None \<and> wk_lease_expires_at w \<noteq> None \<and> 1 \<le> wk_attempt w)"

text \<open>What every step keeps and how the attempt count moves.\<close>

lemma wk_step_frame:
  assumes "wk_step w w'"
  shows "wk_request w' = wk_request w" "wk_operation_id w' = wk_operation_id w"
    "wk_created_at w' = wk_created_at w" "work_ok w \<Longrightarrow> work_ok w'"
    "wk_attempt w' = wk_attempt w + (if wk_state w = QUEUED \<and> wk_state w' = CLAIMED then 1 else 0)"
    "w' = w \<or> (\<exists>now. next_operation_timestamp (wk_updated_at w) now = Inr (wk_updated_at w'))"
  using assms
  by (induction rule: wk_step.induct;
      auto simp: claim_work_item_def requeue_unstarted_work_def mark_work_child_started_def
        renew_work_claim_def work_ok_def elim!: bind_result_InrE split: if_splits OperationWorkState.splits)+

interpretation wk: stamped_steps wk_step wk_updated_at
proof
  fix w w' assume "wk_step w w'"
  then consider "w' = w" | now where "next_operation_timestamp (wk_updated_at w) now = Inr (wk_updated_at w')"
    using wk_step_frame(6) by blast
  then show "w' = w \<or> (\<exists>i j. stamp_at (wk_updated_at w) i \<and> stamp_at (wk_updated_at w') j \<and> i < j)"
  proof cases
    case 2
    then obtain i j where "stamp_at (wk_updated_at w) i" "stamp_at (wk_updated_at w') (max j (i + 1))"
      by (rule next_operation_timestamp_spec)
    then show ?thesis by (metis less_add_one max.strict_coboundedI2)
  qed simp
qed

lemma wk_step_started:
  assumes "wk_step w w'" "wk_child_started w" "wk_state w = CLAIMED"
  shows "wk_child_started w' \<and> wk_state w' = CLAIMED \<and> wk_owner_id w' = wk_owner_id w \<and> wk_attempt w' = wk_attempt w"
  using assms
  by (induction rule: wk_step.induct)
     (auto simp: claim_work_item_def requeue_unstarted_work_def mark_work_child_started_def
        renew_work_claim_def elim!: bind_result_InrE split: if_splits)

lemma wk_run_ok:
  assumes "wk_step\<^sup>*\<^sup>* w w'" "work_ok w"
  shows "work_ok w' \<and> wk_request w' = wk_request w \<and> wk_operation_id w' = wk_operation_id w \<and>
    wk_attempt w \<le> wk_attempt w'"
  using assms
proof (induction rule: rtranclp_induct)
  case (step y z)
  with wk_step_frame [OF step.hyps(2)] show ?case by (auto split: if_splits)
qed simp

lemma new_work_item_ok: "new_work_item oid r now = Inr w \<Longrightarrow> work_ok w \<and> wk_request w = r \<and> wk_operation_id w = oid"
  by (auto simp: new_work_item_def work_ok_def)

lemma wk_run_started:
  assumes "wk_step\<^sup>*\<^sup>* w w'" "work_ok w" "wk_child_started w"
  shows "wk_child_started w' \<and> wk_state w' = CLAIMED \<and> wk_owner_id w' = wk_owner_id w \<and> wk_attempt w' = wk_attempt w"
  using assms(1)
proof (induction rule: rtranclp_induct)
  case base
  from assms(2,3) show ?case by (auto simp: work_ok_def split: OperationWorkState.splits)
next
  case (step y z)
  with wk_step_started [OF step.hyps(2)] show ?case by simp
qed

section \<open>Properties\<close>

text \<open>
  Claim C9. Persisting work loses nothing: every item reached from a new work item, whatever the
  sequence of claims, requeues, renewals and child starts, is decoded back exactly from its JSON
  payload, for every request the class methods build.
\<close>

theorem reachable_work_item_roundtrip:
  assumes "canonical_request r" "new_work_item oid r now = Inr w0" "wk_step\<^sup>*\<^sup>* w0 w"
  shows "work_item_from_payload (work_item_payload w) = Inr w"
proof -
  have "work_ok w" "wk_request w = r"
    using wk_run_ok [OF assms(3)] new_work_item_ok [OF assms(2)] by auto
  with assms(1) show ?thesis by (intro work_item_roundtrip) (auto simp: work_ok_def)
qed

text \<open>
  Claim C10. The child of a work item starts under at most one attempt: once it has been marked
  started, no later step requeues the item, hands it to another owner or opens a new attempt.
\<close>

theorem started_work_stays_with_its_owner:
  assumes "new_work_item oid r now = Inr w0" "wk_step\<^sup>*\<^sup>* w0 w" "wk_child_started w" "wk_step\<^sup>*\<^sup>* w w'"
  shows "wk_child_started w' \<and> wk_state w' = CLAIMED \<and> wk_owner_id w' = wk_owner_id w \<and> wk_attempt w' = wk_attempt w"
proof -
  have "work_ok w" using wk_run_ok [OF assms(2)] new_work_item_ok [OF assms(1)] by auto
  with wk_run_started assms(3,4) show ?thesis by blast
qed

text \<open>
  The attempt count is the number of claims: a step raises it by one when it claims a
  queued item and leaves it otherwise, and a reachable item is claimed exactly when it has an
  owner and a lease.
\<close>

theorem work_attempts_count_claims:
  assumes "new_work_item oid r now = Inr w0" "wk_step\<^sup>*\<^sup>* w0 w" "wk_step w w'"
  shows "wk_attempt w' = wk_attempt w + (if wk_state w = QUEUED \<and> wk_state w' = CLAIMED then 1 else 0) \<and>
    (wk_state w' = CLAIMED \<longleftrightarrow> wk_owner_id w' \<noteq> None) \<and> (wk_state w' = CLAIMED \<longleftrightarrow> wk_lease_expires_at w' \<noteq> None)"
proof -
  have "work_ok w" using wk_run_ok [OF assms(2)] new_work_item_ok [OF assms(1)] by auto
  then have "work_ok w'" by (rule wk_step_frame(4) [OF assms(3)])
  with wk_step_frame(5) [OF assms(3)] show ?thesis
    by (auto simp: work_ok_def split: OperationWorkState.splits)
qed

subsection \<open>Witnesses\<close>

abbreviation example_oid :: string where
  "example_oid \<equiv> ''op-000000000000000000000000''"

definition example_request_of :: "string \<Rightarrow> OperationWorkRequest" where
  "example_request_of fp = (base_request ''profile'' ''ws'' ''h'' fp 1)\<lparr>wr_profile_name := Some ''full''\<rparr>"

definition example_item :: "string \<Rightarrow> OperationWorkState \<Rightarrow> int \<Rightarrow> (string \<times> nat) option \<Rightarrow> bool \<Rightarrow> nat \<Rightarrow> OperationWorkItem" where
  "example_item fp s att own started upd =
     \<lparr>wk_operation_id = example_oid, wk_request = example_request_of fp, wk_state = s, wk_attempt = att,
      wk_owner_id = map_option fst own, wk_lease_expires_at = map_option (clock \<circ> snd) own,
      wk_child_started = started, wk_created_at = clock 0, wk_updated_at = clock upd, wk_schema_version = 1\<rparr>"

abbreviation example_fp :: string where
  "example_fp \<equiv> replicate 64 CHR ''a''"

lemma example_request_canonical: "canonical_request (example_request_of fp)"
  by (rule built_canonical(1) [of "''ws''" "''full''" "''h''" fp 1])
     (simp add: profile_request_def make_request_def example_request_of_def base_request_def request_post_init_def)

lemma example_item_new:
  "new_work_item example_oid (example_request_of example_fp) (clock 0) = Inr (example_item example_fp QUEUED 0 None False 0)"
proof -
  have "length example_fp = 64" "\<forall>c \<in> set example_fp. c = CHR ''a''" by (simp_all only: length_replicate) auto
  then show ?thesis
    by (simp add: new_work_item_def example_item_def) (simp add: example_request_of_def base_request_def)
qed

lemma example_item_claim:
  "claim_work_item (example_item fp QUEUED 0 None False 0) ''w1'' (clock 5) (clock 1) =
     Inr (example_item fp CLAIMED 1 (Some (''w1'', 5)) False 1)"
  by (simp add: claim_work_item_def example_item_def)

lemma example_item_start:
  "mark_work_child_started (example_item fp CLAIMED 1 (Some (''w1'', 5)) False 1) ''w1'' 1 (clock 2) =
     Inr (example_item fp CLAIMED 1 (Some (''w1'', 5)) True 2)"
  by (simp add: mark_work_child_started_def example_item_def)

lemma example_item_renew:
  "renew_work_claim (example_item fp CLAIMED 1 (Some (''w1'', 5)) True 2) ''w1'' (clock 6) (clock 3) =
     Inr (example_item fp CLAIMED 1 (Some (''w1'', 6)) True 3)"
  by (simp add: renew_work_claim_def example_item_def)

lemma example_item_run:
  "wk_step\<^sup>*\<^sup>* (example_item fp QUEUED 0 None False 0) (example_item fp CLAIMED 1 (Some (''w1'', 5)) True 2)"
  using wk_step.claim [OF example_item_claim] wk_step.start [OF example_item_start]
  by (meson rtranclp.rtrancl_into_rtrancl rtranclp.rtrancl_refl)

theorem reachable_work_item_roundtrip_witness:
  "work_item_from_payload (work_item_payload (example_item example_fp CLAIMED 1 (Some (''w1'', 5)) True 2)) =
     Inr (example_item example_fp CLAIMED 1 (Some (''w1'', 5)) True 2)"
  by (rule reachable_work_item_roundtrip [OF example_request_canonical example_item_new example_item_run])

theorem started_work_stays_with_its_owner_witness:
  "wk_child_started (example_item example_fp CLAIMED 1 (Some (''w1'', 6)) True 3) \<and>
   wk_owner_id (example_item example_fp CLAIMED 1 (Some (''w1'', 6)) True 3) = Some ''w1''"
proof -
  have "wk_step\<^sup>*\<^sup>* (example_item example_fp CLAIMED 1 (Some (''w1'', 5)) True 2)
      (example_item example_fp CLAIMED 1 (Some (''w1'', 6)) True 3)"
    using wk_step.renew [OF example_item_renew] by blast
  from started_work_stays_with_its_owner [OF example_item_new example_item_run _ this] show ?thesis
    by (simp add: example_item_def)
qed

theorem work_attempts_count_claims_witness:
  "wk_attempt (example_item example_fp CLAIMED 1 (Some (''w1'', 5)) False 1) =
     wk_attempt (example_item example_fp QUEUED 0 None False 0) + 1"
  using work_attempts_count_claims [OF example_item_new rtranclp.rtrancl_refl wk_step.claim [OF example_item_claim]]
  by (simp add: example_item_def)

end
