(* ===== verification/Store_Port.thy ===== *)
theory Store_Port
  imports Py_Prelude
begin

text \<open>
  The contract of the durable stores behind the ports ports/operation\_store.py and
  ports/operation\_work\_queue.py: reads return what was saved last, a save states the version it
  replaces and is refused when the record moved on. Clients read a record, compute its successor
  and save it against the version they read. The lemmas about such clients are proved once here,
  for every store that meets the contract.
\<close>

text \<open>
  The contract has two side conditions: \<open>keeps\<close> are the records that survive the codec unchanged,
  and a collection is \<open>sound\<close> when every record is filed under its own id.
\<close>

text \<open>One client action: a read-modify-write of one record, or the creation of a record.\<close>

inductive cas_step ::
  "('s \<Rightarrow> string \<Rightarrow> 'r option result) \<Rightarrow> ('s \<Rightarrow> 'r \<Rightarrow> 'v \<Rightarrow> 's result) \<Rightarrow> ('s \<Rightarrow> 'r \<Rightarrow> 's result) \<Rightarrow>
   ('r \<Rightarrow> 'v) \<Rightarrow> ('r \<Rightarrow> bool) \<Rightarrow> ('r \<Rightarrow> 'r \<Rightarrow> bool) \<Rightarrow> 's \<Rightarrow> 's \<Rightarrow> bool"
  for read save create version keeps step
where
  update: "read s i = Inr (Some c) \<Longrightarrow> step c r \<Longrightarrow> save s r (version c) = Inr s' \<Longrightarrow>
    cas_step read save create version keeps step s s'"
| create: "keeps r \<Longrightarrow> create s r = Inr s' \<Longrightarrow> cas_step read save create version keeps step s s'"

locale versioned_store =
  fixes read :: "'s \<Rightarrow> string \<Rightarrow> 'r option result"
    and save :: "'s \<Rightarrow> 'r \<Rightarrow> 'v \<Rightarrow> 's result"
    and create :: "'s \<Rightarrow> 'r \<Rightarrow> 's result"
    and rid :: "'r \<Rightarrow> string"
    and version :: "'r \<Rightarrow> 'v"
    and keeps :: "'r \<Rightarrow> bool"
    and sound :: "'s \<Rightarrow> bool"
  assumes read_rid: "sound s \<Longrightarrow> read s i = Inr (Some c) \<Longrightarrow> rid c = i"
    and save_sound: "save s r v = Inr s' \<Longrightarrow> sound s \<Longrightarrow> sound s'"
    and create_sound: "create s r = Inr s' \<Longrightarrow> sound s \<Longrightarrow> sound s'"
    and save_reads: "save s r v = Inr s' \<Longrightarrow> keeps r \<Longrightarrow> read s' (rid r) = Inr (Some r)"
    and save_frame: "save s r v = Inr s' \<Longrightarrow> i \<noteq> rid r \<Longrightarrow> read s' i = read s i"
    and save_expected: "save s r v = Inr s' \<Longrightarrow> \<exists>c. read s (rid r) = Inr (Some c) \<and> version c = v"
    and create_fresh: "create s r = Inr s' \<Longrightarrow> read s (rid r) = Inr None"
    and create_reads: "create s r = Inr s' \<Longrightarrow> keeps r \<Longrightarrow> read s' (rid r) = Inr (Some r)"
    and create_frame: "create s r = Inr s' \<Longrightarrow> i \<noteq> rid r \<Longrightarrow> read s' i = read s i"
begin

lemma save_stale:
  "read s (rid r) = Inr (Some c) \<Longrightarrow> version c \<noteq> v \<Longrightarrow> \<exists>e. save s r v = Inl e"
  by (cases "save s r v") (use save_expected in fastforce)+

lemma save_absent: "read s (rid r) = Inr None \<Longrightarrow> \<exists>e. save s r v = Inl e"
  by (cases "save s r v") (use save_expected in fastforce)+

lemma create_existing: "read s (rid r) = Inr (Some c) \<Longrightarrow> \<exists>e. create s r = Inl e"
  by (cases "create s r") (use create_fresh in fastforce)+

end

text \<open>A store whose records evolve by a step relation that the version tells apart.\<close>

locale evolving_store = versioned_store +
  fixes step :: "'b \<Rightarrow> 'b \<Rightarrow> bool"
  assumes step_rid: "step c r \<Longrightarrow> rid r = rid c"
    and step_keeps: "step c r \<Longrightarrow> keeps c \<Longrightarrow> keeps r"
    and step_version: "step\<^sup>*\<^sup>* c r \<Longrightarrow> version r = version c \<Longrightarrow> r = c"
begin

abbreviation clients :: "'a \<Rightarrow> 'a \<Rightarrow> bool" where
  "clients \<equiv> cas_step read save create version keeps step"

text \<open>Whatever the clients do, a record they keep only moves along its step relation.\<close>

lemma client_step_sound: "clients s s' \<Longrightarrow> sound s \<Longrightarrow> sound s'"
  by (elim cas_step.cases) (auto intro: save_sound create_sound)

lemma client_step_record:
  assumes "clients s s'" "sound s" "read s i = Inr (Some c)" "keeps c"
  shows "\<exists>c'. read s' i = Inr (Some c') \<and> keeps c' \<and> step\<^sup>*\<^sup>* c c'"
  using assms(1)
proof cases
  case (update j d r)
  show ?thesis
  proof (cases "rid r = i")
    case True
    with update read_rid [OF assms(2) update(1)] step_rid have "j = i" by metis
    with update assms(3) have "d = c" by simp
    with update assms(4) True step_keeps save_reads show ?thesis by blast
  next
    case False
    with save_frame update(3) assms(3,4) show ?thesis by (metis rtranclp.rtrancl_refl)
  qed
next
  case (create r)
  then have "i \<noteq> rid r" using create_fresh assms(3) by fastforce
  with create_frame create(2) assms(3,4) show ?thesis by (metis rtranclp.rtrancl_refl)
qed

lemma clients_record:
  assumes "clients\<^sup>*\<^sup>* s s'" "sound s" "read s i = Inr (Some c)" "keeps c"
  shows "sound s' \<and> (\<exists>c'. read s' i = Inr (Some c') \<and> keeps c' \<and> step\<^sup>*\<^sup>* c c')"
  using assms(1)
proof (induction rule: rtranclp_induct)
  case base
  then show ?case using assms(2-4) by blast
next
  case (step y z)
  then obtain c' where "sound y" "read y i = Inr (Some c')" "keeps c'" "step\<^sup>*\<^sup>* c c'" by blast
  with client_step_record [OF step.hyps(2)] client_step_sound [OF step.hyps(2)] show ?case
    by (meson rtranclp_trans)
qed

text \<open>A save against the version read earlier succeeds only if nothing changed in between.\<close>

lemma no_lost_update:
  assumes "sound s" "read s i = Inr (Some c)" "keeps c" "clients\<^sup>*\<^sup>* s s'" "rid r = i" "save s' r (version c) = Inr s''"
  shows "read s' i = Inr (Some c)"
proof -
  obtain c' where c': "read s' i = Inr (Some c')" "step\<^sup>*\<^sup>* c c'"
    using clients_record [OF assms(4,1-3)] by blast
  have "version c' = version c" using save_expected [OF assms(6)] c'(1) assms(5) by auto
  with step_version c' show ?thesis by blast
qed

end

end
