(* ===== verification/Py_Json.thy ===== *)
theory Py_Json
  imports Py_Value "HOL-Library.Multiset"
begin

text \<open>
  \<open>json.dumps\<close> with \<open>sort_keys=True\<close>, in the two layouts the program writes: indented by two
  spaces (state files) and compact (hashed documents). \<open>json_sorted\<close> is what reading such a text
  back gives: the same value with the entries of every dictionary in key order.
\<close>

definition json_escape :: "bool \<Rightarrow> char \<Rightarrow> string" where
  "json_escape ascii c =
     (if c = CHR 0x22 then [CHR 0x5C, CHR 0x22]
      else if c = CHR 0x5C then [CHR 0x5C, CHR 0x5C]
      else if c = CHR 0x0A then [CHR 0x5C, CHR ''n'']
      else if c = CHR 0x0D then [CHR 0x5C, CHR ''r'']
      else if c = CHR 0x09 then [CHR 0x5C, CHR ''t'']
      else if c = CHR 0x0C then [CHR 0x5C, CHR ''f'']
      else if c = CHR 0x08 then [CHR 0x5C, CHR ''b'']
      else if ord_c c < 32 \<or> (ascii \<and> 127 < ord_c c) then [CHR 0x5C] @ ''u00'' @ hex_pair (ord_c c)
      else [c])"

definition json_string :: "bool \<Rightarrow> string \<Rightarrow> string" where
  "json_string ascii s = [CHR 0x22] @ concat (map (json_escape ascii) s) @ [CHR 0x22]"

definition new_line :: "nat \<Rightarrow> string" where
  "new_line n = CHR 0x0A # replicate (2 * n) CHR '' ''"

function (sequential) json_indented :: "bool \<Rightarrow> nat \<Rightarrow> pyval \<Rightarrow> string" where
  "json_indented ascii n VNone = ''null''"
| "json_indented ascii n (VBool b) = (if b then ''true'' else ''false'')"
| "json_indented ascii n (VInt i) = str_of_int i"
| "json_indented ascii n (VStr s) = json_string ascii s"
| "json_indented ascii n (VList vs) =
     (if vs = [] then ''[]''
      else ''['' @ new_line (Suc n) @
           join_with ('','' @ new_line (Suc n)) (map (\<lambda>v. json_indented ascii (Suc n) v) vs) @ new_line n @ '']'')"
| "json_indented ascii n (VDict kvs) =
     (if kvs = [] then ''{}''
      else ''{'' @ new_line (Suc n) @
           join_with ('','' @ new_line (Suc n))
             (map (\<lambda>kv. json_string ascii (fst kv) @ '': '' @ json_indented ascii (Suc n) (snd kv)) (sort_key fst kvs)) @
           new_line n @ ''}'')"
  by pat_completeness auto
termination
  by (relation "measure (\<lambda>(ascii, n, v). size v)") (simp_all del: pyval.size)

function (sequential) json_compact :: "bool \<Rightarrow> pyval \<Rightarrow> string" where
  "json_compact ascii VNone = ''null''"
| "json_compact ascii (VBool b) = (if b then ''true'' else ''false'')"
| "json_compact ascii (VInt i) = str_of_int i"
| "json_compact ascii (VStr s) = json_string ascii s"
| "json_compact ascii (VList vs) = ''['' @ join_with '','' (map (\<lambda>v. json_compact ascii v) vs) @ '']''"
| "json_compact ascii (VDict kvs) =
     ''{'' @ join_with '','' (map (\<lambda>kv. json_string ascii (fst kv) @ '':'' @ json_compact ascii (snd kv)) (sort_key fst kvs)) @ ''}''"
  by pat_completeness auto
termination
  by (relation "measure (\<lambda>(ascii, v). size v)") (simp_all del: pyval.size)

function (sequential) json_sorted :: "pyval \<Rightarrow> pyval" where
  "json_sorted (VList vs) = VList (map (\<lambda>v. json_sorted v) vs)"
| "json_sorted (VDict kvs) = VDict (map (\<lambda>kv. (fst kv, json_sorted (snd kv))) (sort_key fst kvs))"
| "json_sorted v = v"
  by pat_completeness auto
termination
  by (relation "measure size") (simp_all del: pyval.size)

lemma map_of_sort_key:
  "distinct (map fst kvs) \<Longrightarrow> map_of (sort_key fst kvs) = map_of (kvs :: ('a :: linorder \<times> 'b) list)"
proof -
  assume "distinct (map fst kvs)"
  then have "distinct (map fst (sort_key fst kvs))"
    by (simp add: distinct_map) 
  then show ?thesis using \<open>distinct (map fst kvs)\<close> by (intro map_of_inject_set [THEN iffD2]) simp_all
qed

lemma map_of_map_snd: "map_of (map (\<lambda>kv. (fst kv, f (snd kv))) kvs) k = map_option f (map_of kvs k)"
  by (induction kvs) auto

text \<open>Looking a key up in what was read back.\<close>

lemma dict_get_none_sorted:
  assumes "distinct (map fst kvs)"
  shows "dict_get_none (map (\<lambda>kv. (fst kv, json_sorted (snd kv))) (sort_key fst kvs)) k =
    json_sorted (dict_get_none kvs k)"
  by (simp add: dict_get_none_def map_of_map_snd map_of_sort_key [OF assms] split: option.split)

lemma keys_sorted: "set (map fst (map (\<lambda>kv. (fst kv, json_sorted (snd kv))) (sort_key fst kvs))) = set (map fst kvs)"
  by (simp add: image_image)

text \<open>The text does not depend on the order of the entries.\<close>

lemma sort_key_sorted_entries:
  "sort_key fst (map (\<lambda>kv. (fst kv, f (snd kv))) (sort_key fst kvs)) =
     map (\<lambda>kv. (fst kv, f (snd kv))) (sort_key fst (kvs :: ('a :: linorder \<times> 'b) list))"
  by (rule sort_key_id_if_sorted) (simp add: comp_def)

lemma json_indented_sorted: "json_indented ascii n (json_sorted v) = json_indented ascii n v"
proof (induction v arbitrary: n rule: json_sorted.induct)
  case (1 vs)
  then have "map (json_indented ascii (Suc n)) (map json_sorted vs) = map (json_indented ascii (Suc n)) vs" by simp
  then show ?case by (simp only: json_sorted.simps json_indented.simps map_is_Nil_conv)
next
  case (2 kvs)
  let ?g = "\<lambda>kv. (fst kv, json_sorted (snd kv))"
  have "map (\<lambda>kv. json_string ascii (fst kv) @ '': '' @ json_indented ascii (Suc n) (snd kv))
      (sort_key fst (map ?g (sort_key fst kvs))) =
    map (\<lambda>kv. json_string ascii (fst kv) @ '': '' @ json_indented ascii (Suc n) (snd kv)) (sort_key fst kvs)"
    unfolding sort_key_sorted_entries using "2.IH" by simp
  moreover have "sort_key fst kvs = [] \<longleftrightarrow> kvs = []" by (metis length_0_conv length_sort)
  ultimately show ?case by simp
qed simp_all

subsection \<open>A bound on the length of the text\<close>

function (sequential) json_weight :: "nat \<Rightarrow> pyval \<Rightarrow> nat" where
  "json_weight n (VStr s) = 6 * length s + 2"
| "json_weight n (VInt i) = length (str_of_int i)"
| "json_weight n (VList vs) =
     4 * n + 8 + sum_list (map (\<lambda>v. json_weight (Suc n) v + (2 * n + 4)) vs)"
| "json_weight n (VDict kvs) =
     4 * n + 8 + sum_list (map (\<lambda>kv. 6 * length (fst kv) + 4 + json_weight (Suc n) (snd kv) + (2 * n + 4)) kvs)"
| "json_weight n v = 5"
  by pat_completeness auto
termination
  by (relation "measure (\<lambda>(n, v). size v)") (simp_all del: pyval.size)

lemma length_join_with: "length (join_with sep xs) \<le> sum_list (map (\<lambda>x. length x + length sep) xs)"
  by (induction sep xs rule: join_with.induct) auto

lemma length_json_string: "length (json_string a s) \<le> 6 * length s + 2"
proof -
  have "length (json_escape a c) \<le> 6" for c by (simp add: json_escape_def hex_pair_def Let_def)
  then have "length (concat (map (json_escape a) s)) \<le> 6 * length s"
    by (induction s) (auto, metis (no_types, lifting) add_mono)
  then show ?thesis by (simp add: json_string_def)
qed

lemma sum_list_sort_key: "sum_list (map f (sort_key k xs)) = sum_list (map (f :: 'a \<Rightarrow> nat) xs)"
  by (metis mset_map mset_sort sum_mset_sum_list)

lemma length_separator: "length ('','' @ new_line (Suc n)) = 2 * n + 4"
  by (simp add: new_line_def)

lemma length_json_indented: "length (json_indented a n v) \<le> json_weight n v"
proof (induction a n v rule: json_indented.induct)
  case (5 a n vs)
  have "length (join_with ('','' @ new_line (Suc n)) (map (\<lambda>v. json_indented a (Suc n) v) vs)) \<le>
      sum_list (map (\<lambda>v. length (json_indented a (Suc n) v) + (2 * n + 4)) vs)"
    using length_join_with [of "'','' @ new_line (Suc n)" "map (\<lambda>v. json_indented a (Suc n) v) vs"]
    by (simp only: length_separator map_map comp_def)
  also have "\<dots> \<le> sum_list (map (\<lambda>v. json_weight (Suc n) v + (2 * n + 4)) vs)"
    by (cases "vs = []") (simp, intro sum_list_mono add_mono order_refl "5.IH")
  finally show ?case by (simp add: new_line_def)
next
  case (6 a n kvs)
  let ?f = "\<lambda>kv. json_string a (fst kv) @ '': '' @ json_indented a (Suc n) (snd kv)"
  have "length (join_with ('','' @ new_line (Suc n)) (map ?f (sort_key fst kvs))) \<le>
      sum_list (map (\<lambda>kv. length (?f kv) + (2 * n + 4)) (sort_key fst kvs))"
    using length_join_with [of "'','' @ new_line (Suc n)" "map ?f (sort_key fst kvs)"]
    by (simp only: length_separator map_map comp_def)
  also have "\<dots> = sum_list (map (\<lambda>kv. length (?f kv) + (2 * n + 4)) kvs)" by (rule sum_list_sort_key)
  also have "\<dots> \<le> sum_list (map (\<lambda>kv. 6 * length (fst kv) + 4 + json_weight (Suc n) (snd kv) + (2 * n + 4)) kvs)"
  proof (rule sum_list_mono)
    fix kv assume "kv \<in> set kvs"
    then have "kvs \<noteq> []" "kv \<in> set (sort_key fst kvs)" by auto
    with "6.IH" have "length (json_indented a (Suc n) (snd kv)) \<le> json_weight (Suc n) (snd kv)" by blast
    with length_json_string [of a "fst kv"]
    show "length (?f kv) + (2 * n + 4) \<le> 6 * length (fst kv) + 4 + json_weight (Suc n) (snd kv) + (2 * n + 4)"
      by simp
  qed
  finally show ?case by (simp add: new_line_def)
qed (use length_json_string in auto)

end
