(* ===== verification/Operation_Store.thy ===== *)
theory Operation_Store
  imports Operation_Lifecycle Store_Port Py_Json "HOL-Library.Product_Lexorder"
begin

text \<open>
  The file collection of adapters/persistence/json\_state\_file\_store.py and the operation store of
  adapters/persistence/json\_operation\_store.py, the implementation of the port
  ports/operation\_store.py.

  A collection maps a record id to the content of its file: the JSON value its text denotes, or
  a text that is not JSON. Writing the text of a value and reading it back gives the value with its
  dictionaries in key order (\<open>json_sorted\<close>). The per-record lock of the source makes each
  operation one atomic step; lock timeouts and operating-system errors are outside the model.
\<close>

section \<open>Files\<close>

datatype json_file = Json pyval | NotJson

type_synonym files = "(string \<times> json_file) list"

definition SAFE_RECORD_ID :: regex where
  "SAFE_RECORD_ID = Seq (One is_ascii_alnum) (upto (\<lambda>c. is_ascii_alnum c \<or> c \<in> set ''._:-'') 0 127)"

text \<open>\<open>record_id\<close>, for an id validator that returns its argument or raises.\<close>

definition record_id_check :: "(string \<Rightarrow> exn option) \<Rightarrow> string \<Rightarrow> exn option" where
  "record_id_check validator v =
     (case validator v of
        Some _ \<Rightarrow> Some (RepoForgeError ''STATE_INVALID'' ''State record identifier is invalid'')
      | None \<Rightarrow> raise_if (\<not> fullmatch SAFE_RECORD_ID v \<or> CHR ''/'' \<in> set v \<or> CHR 0x5C \<in> set v)
          (RepoForgeError ''STATE_INVALID'' ''State record identifier is unsafe''))"

text \<open>The encoded size of a record: its indented text, and a final newline.\<close>

definition encoded_size :: "pyval \<Rightarrow> nat" where
  "encoded_size v = Suc (length (utf8_encode (json_indented False 0 v)))"

definition too_large :: exn where
  "too_large = RepoForgeError ''STATE_TOO_LARGE'' ''State record exceeds its encoded size bound''"

definition write_file :: "nat \<Rightarrow> files \<Rightarrow> string \<Rightarrow> pyval \<Rightarrow> files result" where
  "write_file max_bytes fs i v =
     (if max_bytes < encoded_size v then Inl too_large else Inr (dict_set fs i (Json (json_sorted v))))"

definition file_size :: "json_file \<Rightarrow> nat" where
  "file_size f = (case f of Json v \<Rightarrow> encoded_size v | NotJson \<Rightarrow> 0)"

definition read_file :: "nat \<Rightarrow> files \<Rightarrow> string \<Rightarrow> json_file option result" where
  "read_file max_bytes fs i =
     (case map_of fs i of None \<Rightarrow> Inr None
      | Some f \<Rightarrow> if max_bytes < file_size f then Inl too_large else Inr (Some f))"

definition delete_file :: "files \<Rightarrow> string \<Rightarrow> files" where
  "delete_file fs i = filter (\<lambda>f. fst f \<noteq> i) fs"

text \<open>\<open>list_ids\<close>: the ids whose file name matches the pattern's prefix, in file-name order, a page of
  them, and whether the page ends before the last.\<close>

definition list_ids :: "string \<Rightarrow> files \<Rightarrow> nat \<Rightarrow> nat \<Rightarrow> string list \<times> bool" where
  "list_ids prefix fs max_records offset =
     (let ids = sort_key (\<lambda>i. i @ ''.json'') (filter (\<lambda>i. startswith i prefix) (map fst fs))
      in (take max_records (drop offset ids), offset + max_records < length ids))"

section \<open>The operation codec\<close>

definition FORBIDDEN_KEYS :: "string list" where
  "FORBIDDEN_KEYS = [''body'', ''content'', ''patch'', ''diff'', ''stdout'', ''stderr'', ''environment'', ''api_key'',
     ''access_token'', ''token'', ''secret'', ''password'', ''credential'', ''credentials'']"

function (sequential) assert_safe :: "pyval \<Rightarrow> string \<Rightarrow> exn option" where
  "assert_safe (VDict kvs) path =
     first_error (map (\<lambda>kv.
       (if lowered_key (fst kv) \<in> set FORBIDDEN_KEYS
        then Some (RepoForgeError ''OPERATION_CORRUPT''
               (''Operation record contains forbidden persisted field '' @ path @ fst kv))
        else assert_safe (snd kv) (path @ fst kv @ ''.''))) kvs)"
| "assert_safe (VList vs) path = first_error (map (\<lambda>v. assert_safe v path) vs)"
| "assert_safe v path = None"
  by pat_completeness auto
termination
  by (relation "measure (\<lambda>(v, path). size v)") (simp_all del: pyval.size)

declare assert_safe.simps(1) [simp del]

definition binding_payload :: "OperationSnapshotBinding option \<Rightarrow> pyval" where
  "binding_payload b =
     (case b of None \<Rightarrow> VNone
      | Some s \<Rightarrow> VDict [(''head_sha'', of_opt (head_sha s)), (''workspace_fingerprint'', of_opt (workspace_fingerprint s)),
          (''config_generation'', of_opt_int (config_generation s)), (''evidence_snapshot_id'', of_opt (evidence_snapshot_id s))])"

text \<open>\<open>asdict(task)\<close> with the enumerations replaced by their values.\<close>

definition task_dict :: "OperationTask \<Rightarrow> pydict" where
  "task_dict t =
     [(''operation_id'', VStr (op_id t)), (''kind'', VStr (op_kind t)), (''state'', VStr (state_value (op_state t))),
      (''phase'', VStr (op_phase t)), (''progress_current'', VInt (progress_current t)),
      (''progress_total'', of_opt_int (progress_total t)), (''progress_unit'', of_opt (progress_unit t)),
      (''progress_message'', of_opt (progress_message t)), (''task_id'', of_opt (op_task_id t)),
      (''workspace_id'', of_opt (op_workspace_id t)), (''snapshot_binding'', binding_payload (snapshot_binding t)),
      (''result_reference'', of_opt (result_reference t)), (''error_code'', of_opt (error_code t)),
      (''error_message'', of_opt (error_message t)), (''retryability'', VStr (retryability_value (retryability t))),
      (''cancel_supported'', VBool (cancel_supported t)),
      (''cancellation_requested_at'', of_opt (cancellation_requested_at t)), (''created_at'', VStr (op_created_at t)),
      (''updated_at'', VStr (op_updated_at t)), (''expires_at'', of_opt (op_expires_at t)),
      (''owner_id'', of_opt (op_owner_id t)), (''lease_expires_at'', of_opt (op_lease_expires_at t)),
      (''receipt_id'', of_opt (receipt_id t)), (''record_provenance'', VStr (record_provenance t)),
      (''record_consistency'', VStr (record_consistency t)), (''record_diagnostics'', of_strings (record_diagnostics t)),
      (''schema_version'', VInt (op_schema_version t)), (''attempt'', VInt (op_attempt t))]"

definition task_payload :: "OperationTask \<Rightarrow> pydict result" where
  "task_payload t =
     bind_result (validate_operation_task t) (\<lambda>_.
     checked (assert_safe (VDict (task_dict t)) []) (task_dict t))"

definition LEGACY_FIELDS :: "string list" where
  "LEGACY_FIELDS = [''operation_id'', ''kind'', ''state'', ''phase'', ''progress_current'', ''progress_total'',
     ''progress_unit'', ''progress_message'', ''task_id'', ''workspace_id'', ''snapshot_binding'', ''result_reference'',
     ''error_code'', ''error_message'', ''retryability'', ''cancel_supported'', ''cancellation_requested_at'',
     ''created_at'', ''updated_at'', ''expires_at'', ''schema_version'']"

definition PREVIOUS_CURRENT_FIELDS :: "string list" where
  "PREVIOUS_CURRENT_FIELDS = LEGACY_FIELDS @ [''receipt_id'', ''record_provenance'', ''record_consistency'', ''record_diagnostics'']"

definition CURRENT_FIELDS :: "string list" where
  "CURRENT_FIELDS = PREVIOUS_CURRENT_FIELDS @ [''owner_id'', ''lease_expires_at'']"

definition record_fields_ok :: "int \<Rightarrow> pydict \<Rightarrow> bool" where
  "record_fields_ok version raw =
     (if version = LEGACY_OPERATION_SCHEMA_VERSION then same_keys raw LEGACY_FIELDS
      else same_keys raw PREVIOUS_CURRENT_FIELDS \<or> same_keys raw CURRENT_FIELDS \<or>
           same_keys raw (CURRENT_FIELDS @ [''attempt'']))"

text \<open>
  Reading a record. The constructor of the source takes whatever the JSON holds, and the checks
  that follow (the \<open>isinstance\<close> tests of the validator, the timestamp parser, the enumerations)
  refuse a value of the wrong type; every such refusal is reported as the same error. Here the
  types are tested first and the fields are projected after.
\<close>

definition is_opt_str :: "pyval \<Rightarrow> bool" where
  "is_opt_str v = (case v of VNone \<Rightarrow> True | VStr _ \<Rightarrow> True | _ \<Rightarrow> False)"

definition is_int :: "pyval \<Rightarrow> bool" where
  "is_int v = (case v of VInt _ \<Rightarrow> True | _ \<Rightarrow> False)"

definition is_opt_int :: "pyval \<Rightarrow> bool" where
  "is_opt_int v \<longleftrightarrow> v = VNone \<or> is_int v"

definition is_bool :: "pyval \<Rightarrow> bool" where
  "is_bool v = (case v of VBool _ \<Rightarrow> True | _ \<Rightarrow> False)"

definition the_opt_str :: "pyval \<Rightarrow> string option" where
  "the_opt_str v = (case v of VStr s \<Rightarrow> Some s | _ \<Rightarrow> None)"

definition the_int :: "pyval \<Rightarrow> int" where
  "the_int v = (case v of VInt i \<Rightarrow> i | _ \<Rightarrow> 0)"

definition the_opt_int :: "pyval \<Rightarrow> int option" where
  "the_opt_int v = (case v of VInt i \<Rightarrow> Some i | _ \<Rightarrow> None)"

definition the_bool :: "pyval \<Rightarrow> bool" where
  "the_bool v = (case v of VBool b \<Rightarrow> b | _ \<Rightarrow> False)"

text \<open>\<open>tuple(v)\<close> where every item is a string: a list, or the characters of a string, or the keys of
  a dictionary.\<close>

definition tuple_of :: "pyval \<Rightarrow> string list option" where
  "tuple_of v = (case v of VList vs \<Rightarrow> strings_of vs | VStr s \<Rightarrow> Some (map (\<lambda>c. [c]) s)
     | VDict d \<Rightarrow> Some (map fst d) | _ \<Rightarrow> None)"

definition state_of :: "pyval \<Rightarrow> OperationState option" where
  "state_of v = find (\<lambda>s. v = VStr (state_value s)) [PENDING, RUNNING, SUCCEEDED, FAILED, CANCELLED, EXPIRED, ORPHANED]"

definition retryability_of :: "pyval \<Rightarrow> OperationRetryability option" where
  "retryability_of v = find (\<lambda>s. v = VStr (retryability_value s)) [RETRY_NONE, RETRY_MANUAL, RETRY_AUTOMATIC]"

definition binding_typed :: "pyval \<Rightarrow> bool" where
  "binding_typed v =
     (case v of VNone \<Rightarrow> True
      | VDict d \<Rightarrow> set (map fst d) \<subseteq> {''head_sha'', ''workspace_fingerprint'', ''config_generation'', ''evidence_snapshot_id''} \<and>
          is_opt_str (dict_get_none d ''head_sha'') \<and> is_opt_str (dict_get_none d ''workspace_fingerprint'') \<and>
          is_opt_int (dict_get_none d ''config_generation'') \<and> is_opt_str (dict_get_none d ''evidence_snapshot_id'')
      | _ \<Rightarrow> False)"

definition the_binding :: "pyval \<Rightarrow> OperationSnapshotBinding option" where
  "the_binding v =
     (case v of VDict d \<Rightarrow> Some \<lparr>head_sha = the_opt_str (dict_get_none d ''head_sha''),
          workspace_fingerprint = the_opt_str (dict_get_none d ''workspace_fingerprint''),
          config_generation = the_opt_int (dict_get_none d ''config_generation''),
          evidence_snapshot_id = the_opt_str (dict_get_none d ''evidence_snapshot_id'')\<rparr>
      | _ \<Rightarrow> None)"

definition raw_attempt :: "pydict \<Rightarrow> pyval" where
  "raw_attempt raw = (case dict_get raw ''attempt'' of None \<Rightarrow> VInt 0 | Some v \<Rightarrow> v)"

definition record_typed :: "int \<Rightarrow> pydict \<Rightarrow> bool" where
  "record_typed version raw \<longleftrightarrow>
     (let g = dict_get_none raw in
      state_of (g ''state'') \<noteq> None \<and> is_int (g ''progress_current'') \<and> is_opt_int (g ''progress_total'') \<and>
      is_opt_str (g ''progress_unit'') \<and> is_opt_str (g ''progress_message'') \<and> is_opt_str (g ''task_id'') \<and>
      is_opt_str (g ''workspace_id'') \<and> binding_typed (g ''snapshot_binding'') \<and> is_opt_str (g ''result_reference'') \<and>
      is_opt_str (g ''error_code'') \<and> is_opt_str (g ''error_message'') \<and> retryability_of (g ''retryability'') \<noteq> None \<and>
      is_bool (g ''cancel_supported'') \<and> is_opt_str (g ''cancellation_requested_at'') \<and> is_opt_str (g ''expires_at'') \<and>
      is_opt_str (g ''owner_id'') \<and> is_opt_str (g ''lease_expires_at'') \<and>
      (version = OPERATION_SCHEMA_VERSION \<longrightarrow> is_opt_str (g ''receipt_id'') \<and> tuple_of (g ''record_diagnostics'') \<noteq> None) \<and>
      is_int (raw_attempt raw))"

definition build_task :: "int \<Rightarrow> pydict \<Rightarrow> OperationTask" where
  "build_task version raw =
     (let g = dict_get_none raw in
      \<lparr>op_id = py_str (g ''operation_id''), op_kind = py_str (g ''kind''), op_state = the (state_of (g ''state'')),
       op_phase = py_str (g ''phase''), progress_current = the_int (g ''progress_current''),
       progress_total = the_opt_int (g ''progress_total''), progress_unit = the_opt_str (g ''progress_unit''),
       progress_message = the_opt_str (g ''progress_message''), op_task_id = the_opt_str (g ''task_id''),
       op_workspace_id = the_opt_str (g ''workspace_id''), snapshot_binding = the_binding (g ''snapshot_binding''),
       result_reference = the_opt_str (g ''result_reference''), error_code = the_opt_str (g ''error_code''),
       error_message = the_opt_str (g ''error_message''), retryability = the (retryability_of (g ''retryability'')),
       cancel_supported = the_bool (g ''cancel_supported''),
       cancellation_requested_at = the_opt_str (g ''cancellation_requested_at''),
       op_created_at = py_str (g ''created_at''), op_updated_at = py_str (g ''updated_at''),
       op_expires_at = the_opt_str (g ''expires_at''), op_owner_id = the_opt_str (g ''owner_id''),
       op_lease_expires_at = the_opt_str (g ''lease_expires_at''),
       receipt_id = (if version = OPERATION_SCHEMA_VERSION then the_opt_str (g ''receipt_id'') else None),
       record_provenance =
         (if version = OPERATION_SCHEMA_VERSION \<and> ''owner_id'' \<in> keys_of raw \<and> ''lease_expires_at'' \<in> keys_of raw
          then py_str (g ''record_provenance'') else ''legacy_migrated''),
       record_consistency = (if version = OPERATION_SCHEMA_VERSION then py_str (g ''record_consistency'') else ''consistent''),
       record_diagnostics = (if version = OPERATION_SCHEMA_VERSION then the (tuple_of (g ''record_diagnostics'')) else []),
       op_schema_version = OPERATION_SCHEMA_VERSION, op_attempt = the_int (raw_attempt raw)\<rparr>)"

abbreviation op_corrupt :: "string \<Rightarrow> exn" where
  "op_corrupt m \<equiv> RepoForgeError ''OPERATION_CORRUPT'' m"

definition decode_operation :: "json_file \<Rightarrow> string \<Rightarrow> OperationTask result" where
  "decode_operation f expected =
     (case f of
        NotJson \<Rightarrow> Inl (op_corrupt ''Operation record is not valid UTF-8 JSON'')
      | Json (VDict raw) \<Rightarrow>
          (let v = dict_get_none raw ''schema_version'' in
           if v \<notin> {VInt LEGACY_OPERATION_SCHEMA_VERSION, VInt OPERATION_SCHEMA_VERSION}
           then Inl (RepoForgeError ''OPERATION_SCHEMA_UNSUPPORTED'' (''Unsupported operation schema version: '' @ py_repr v))
           else bind_result (checked (assert_safe (VDict raw) []) ()) (\<lambda>_.
             if \<not> record_fields_ok (the_int v) raw
             then Inl (op_corrupt (''Operation record fields do not match schema version '' @ str_of_int (the_int v)))
             else if dict_get_none raw ''operation_id'' \<noteq> VStr expected
             then Inl (op_corrupt ''Operation record identity does not match its filename'')
             else if \<not> record_typed (the_int v) raw
             then Inl (op_corrupt ''Operation record cannot be decoded safely'')
             else case normalize_loaded_operation (build_task (the_int v) raw) (the_int v) of
                    Inr t \<Rightarrow> Inr t
                  | Inl e \<Rightarrow> Inl (case e of
                      RepoForgeError code m \<Rightarrow>
                        if code = ''OPERATION_SCHEMA_UNSUPPORTED'' then e
                        else op_corrupt ''Operation record cannot be decoded safely''
                    | OverflowError m \<Rightarrow> e
                    | RuntimeError m \<Rightarrow> e
                    | _ \<Rightarrow> op_corrupt ''Operation record cannot be decoded safely'')))
      | Json _ \<Rightarrow> Inl (op_corrupt ''Operation record must be a JSON object''))"

section \<open>JsonOperationStore\<close>

abbreviation op_max_bytes :: nat where
  "op_max_bytes \<equiv> 1000000"

definition operation_path :: "string \<Rightarrow> exn option" where
  "operation_path i = record_id_check validate_operation_id i"

definition op_store_create :: "files \<Rightarrow> OperationTask \<Rightarrow> files result" where
  "op_store_create fs t =
     bind_result (validate_operation_task t) (\<lambda>_.
     bind_result (checked (operation_path (op_id t)) ()) (\<lambda>_.
     if map_of fs (op_id t) \<noteq> None
     then Inl (RepoForgeError ''ALREADY_EXISTS'' (''Operation already exists: '' @ op_id t))
     else bind_result (task_payload t) (\<lambda>p. write_file op_max_bytes fs (op_id t) (VDict p))))"

definition op_store_read :: "files \<Rightarrow> string \<Rightarrow> OperationTask option result" where
  "op_store_read fs i =
     bind_result (checked (validate_operation_id i) ()) (\<lambda>_.
     bind_result (checked (operation_path i) ()) (\<lambda>_.
     bind_result (read_file op_max_bytes fs i) (\<lambda>data.
     case data of None \<Rightarrow> Inr None
     | Some f \<Rightarrow> bind_result (decode_operation f i) (\<lambda>t. Inr (Some t)))))"

definition op_store_save :: "files \<Rightarrow> OperationTask \<Rightarrow> string \<Rightarrow> files result" where
  "op_store_save fs t expected_updated_at =
     bind_result (validate_operation_task t) (\<lambda>_.
     bind_result (checked (operation_path (op_id t)) ()) (\<lambda>_.
     bind_result (op_store_read fs (op_id t)) (\<lambda>current.
     case current of
       None \<Rightarrow> Inl (RepoForgeError ''OPERATION_NOT_FOUND'' (''Operation not found: '' @ op_id t))
     | Some c \<Rightarrow>
         if op_updated_at c \<noteq> expected_updated_at
         then Inl (op_stale (''Operation changed since '' @ expected_updated_at @ ''; current updated_at is '' @ op_updated_at c))
         else bind_result (task_payload t) (\<lambda>p. write_file op_max_bytes fs (op_id t) (VDict p)))))"

definition op_store_delete :: "files \<Rightarrow> string \<Rightarrow> files result" where
  "op_store_delete fs i =
     bind_result (checked (validate_operation_id i) ()) (\<lambda>_.
     bind_result (checked (operation_path i) ()) (\<lambda>_. Inr (delete_file fs i)))"

record OperationRecordPage =
  page_records :: "OperationTask list"
  page_scan_truncated :: bool
  page_unreadable :: "string list"

text \<open>\<open>list_records\<close>: what can be decoded, newest first, and the ids of what cannot.\<close>

definition op_store_list :: "files \<Rightarrow> int \<Rightarrow> OperationRecordPage result" where
  "op_store_list fs max_records =
     (if max_records < 1 \<or> 2000 < max_records
      then Inl (op_invalid ''max_records must be between 1 and 2000'')
      else let (ids, cut) = list_ids ''op-'' fs (nat max_records) 0;
               reads = map (\<lambda>i. (i, op_store_read fs i)) ids;
               records = concat (map (\<lambda>(i, r). case r of Inr (Some t) \<Rightarrow> [t] | _ \<Rightarrow> []) reads);
               unreadable = concat (map (\<lambda>(i, r). case r of Inl _ \<Rightarrow> [i] | _ \<Rightarrow> []) reads)
           in Inr \<lparr>page_records = rev (sort_key (\<lambda>t. (op_updated_at t, op_id t)) records),
                   page_scan_truncated = cut, page_unreadable = sort unreadable\<rparr>)"

section \<open>Lemmas: files\<close>

lemma encoded_size_sorted [simp]: "encoded_size (json_sorted v) = encoded_size v"
  by (simp add: encoded_size_def json_indented_sorted)

lemma read_after_write:
  assumes "write_file n fs i v = Inr fs'"
  shows "read_file n fs' j = (if j = i then Inr (Some (Json (json_sorted v))) else read_file n fs j)"
  using assms by (auto simp: write_file_def read_file_def file_size_def map_of_dict_set split: if_splits)

lemma map_of_delete_file: "map_of (delete_file fs i) = (map_of fs)(i := None)"
  by (induction fs) (auto simp: delete_file_def)

lemma operation_id_path:
  assumes "validate_operation_id i = None"
  shows "operation_path i = None"
proof -
  from assms obtain r where i: "i = ''op-'' @ r" "\<forall>c \<in> set r. is_lower_hex c" "length r = 24"
    by (auto simp: validate_operation_id_def bounded_def OPERATION_ID_def fullmatch_lit_Rep simp del: lit.simps split: if_splits)
  have al: "is_ascii_alnum c \<and> c \<noteq> CHR ''/'' \<and> c \<noteq> CHR 0x5C" if "is_lower_hex c" for c
    using that by (auto simp: is_lower_hex_def is_ascii_alnum_def is_digit_def is_ascii_lower_def in_range_def)
  have "is_ascii_alnum CHR ''o''" "is_ascii_alnum CHR ''p''" by code_simp+
  with i al have "fullmatch SAFE_RECORD_ID i" unfolding SAFE_RECORD_ID_def fullmatch_One_Rep by simp
  moreover have "CHR ''/'' \<notin> set i" "CHR 0x5C \<notin> set i" using i al by auto
  ultimately show ?thesis using assms by (simp add: operation_path_def record_id_check_def)
qed

section \<open>Lemmas: the codec\<close>

lemma first_error_map: "first_error (map f xs) = None \<longleftrightarrow> (\<forall>x \<in> set xs. f x = None)"
  by auto

lemma if_Some_None: "(if b then Some e else x) = None \<longleftrightarrow> \<not> b \<and> x = None"
  by simp

lemma assert_safe_VDict:
  "assert_safe (VDict kvs) p = None \<longleftrightarrow>
     (\<forall>kv \<in> set kvs. lowered_key (fst kv) \<notin> set FORBIDDEN_KEYS \<and> assert_safe (snd kv) (p @ fst kv @ ''.'') = None)"
  by (simp only: assert_safe.simps first_error_map if_Some_None)

lemma assert_safe_path: "assert_safe v p = None \<longleftrightarrow> assert_safe v q = None"
proof (induction v p arbitrary: q rule: assert_safe.induct)
  case (1 kvs path)
  then show ?case unfolding assert_safe_VDict by blast
next
  case (2 vs path)
  then show ?case by (simp only: assert_safe.simps first_error_map) blast
qed simp_all

lemma assert_safe_dict:
  "assert_safe (VDict kvs) p = None \<longleftrightarrow>
     (\<forall>kv \<in> set kvs. lowered_key (fst kv) \<notin> set FORBIDDEN_KEYS \<and> assert_safe (snd kv) [] = None)"
  unfolding assert_safe_VDict using assert_safe_path by blast

lemma assert_safe_sorted: "assert_safe v p = None \<Longrightarrow> assert_safe (json_sorted v) q = None"
proof (induction v arbitrary: p q rule: json_sorted.induct)
  case (1 vs)
  then show ?case by auto
next
  case (2 kvs)
  then show ?case by (simp only: json_sorted.simps assert_safe_dict) auto
qed auto

lemma lowered_key_lower:
  assumes "list_all (\<lambda>c. is_ascii_lower c \<or> c = CHR ''_'') k"
  shows "lowered_key k = k"
proof -
  have "lower_c c = c \<and> c \<noteq> CHR ''-''" if "c \<in> set k" for c
    using assms that
    by (auto simp: list_all_iff lower_c_def py_isupper_def is_ascii_upper_def is_ascii_lower_def in_range_def)
  then show ?thesis unfolding lowered_key_def py_lower_def replace_char_def
    by (intro nth_equalityI) auto
qed

lemma task_keys_safe:
  "list_all (\<lambda>k. lowered_key k \<notin> set FORBIDDEN_KEYS)
     (CURRENT_FIELDS @ [''attempt'', ''head_sha'', ''workspace_fingerprint'', ''config_generation'', ''evidence_snapshot_id''])"
  by (simp add: CURRENT_FIELDS_def PREVIOUS_CURRENT_FIELDS_def LEGACY_FIELDS_def FORBIDDEN_KEYS_def
      lowered_key_lower is_ascii_lower_def in_range_def)

lemma assert_safe_scalars [simp]:
  "assert_safe (of_opt v) p = None" "assert_safe (of_opt_int i) p = None" "assert_safe (of_strings ss) p = None"
  by (auto simp: of_opt_def of_opt_int_def of_strings_def split: option.split)

lemma assert_safe_binding: "assert_safe (binding_payload b) p = None"
proof (cases b)
  case (Some s)
  then show ?thesis
    using task_keys_safe unfolding binding_payload_def Some option.case assert_safe_dict by simp
qed (simp add: binding_payload_def)

lemma assert_safe_task: "assert_safe (VDict (task_dict t)) p = None"
  using task_keys_safe assert_safe_binding
  unfolding assert_safe_dict by (simp add: task_dict_def CURRENT_FIELDS_def PREVIOUS_CURRENT_FIELDS_def LEGACY_FIELDS_def)

lemma task_payload_valid: "valid_task t \<Longrightarrow> task_payload t = Inr (task_dict t)"
  using assert_safe_task [of t "[]"] by (simp add: task_payload_def)

lemma task_dict_distinct: "distinct (map fst (task_dict t))"
  by (simp add: task_dict_def)

lemma binding_distinct:
  "distinct (map fst [(''head_sha'', a), (''workspace_fingerprint'', b), (''config_generation'', c), (''evidence_snapshot_id'', d)])"
  by simp

lemma sorted_scalars [simp]:
  "json_sorted (of_opt v) = of_opt v" "json_sorted (of_opt_int i) = of_opt_int i"
  "json_sorted (of_strings ss) = of_strings ss"
  by (simp_all add: of_opt_def of_opt_int_def of_strings_def split: option.split)

lemma projections [simp]:
  "the_opt_str (of_opt v) = v" "the_opt_int (of_opt_int i) = i" "the_int (VInt n) = n" "the_bool (VBool b) = b"
  "is_opt_str (of_opt v)" "is_opt_int (of_opt_int i)" "is_int (VInt n)" "is_bool (VBool b)"
  "tuple_of (of_strings ss) = Some ss"
  by (simp_all add: the_opt_str_def the_opt_int_def the_int_def the_bool_def is_opt_str_def is_opt_int_def
      is_int_def is_bool_def of_opt_def of_opt_int_def tuple_of_def of_strings_def split: option.split)

lemma enum_roundtrip [simp]:
  "state_of (VStr (state_value st)) = Some st" "retryability_of (VStr (retryability_value rt)) = Some rt"
  by (cases st; simp add: state_of_def) (cases rt; simp add: retryability_of_def)

lemma binding_roundtrip:
  "the_binding (json_sorted (binding_payload b)) = b" "binding_typed (json_sorted (binding_payload b))"
proof -
  show "the_binding (json_sorted (binding_payload b)) = b"
  proof (cases b)
    case (Some s)
    show ?thesis unfolding Some binding_payload_def option.case json_sorted.simps the_binding_def pyval.case
      by (simp only: dict_get_none_sorted [OF binding_distinct]) (simp add: dict_get_none_def)
  qed (simp add: binding_payload_def the_binding_def)
  show "binding_typed (json_sorted (binding_payload b))"
  proof (cases b)
    case (Some s)
    show ?thesis unfolding Some binding_payload_def option.case json_sorted.simps binding_typed_def pyval.case
      by (simp only: dict_get_none_sorted [OF binding_distinct] keys_sorted) (simp add: dict_get_none_def)
  qed (simp add: binding_payload_def binding_typed_def)
qed

text \<open>The dictionary read back from the file of a record, and its lookups.\<close>

definition stored_dict :: "OperationTask \<Rightarrow> pydict" where
  "stored_dict t = map (\<lambda>kv. (fst kv, json_sorted (snd kv))) (sort_key fst (task_dict t))"

lemma json_sorted_task: "json_sorted (VDict (task_dict t)) = VDict (stored_dict t)"
  by (simp add: stored_dict_def)

lemma stored_get: "dict_get_none (stored_dict t) k = json_sorted (dict_get_none (task_dict t) k)"
  unfolding stored_dict_def by (rule dict_get_none_sorted [OF task_dict_distinct])

lemma stored_keys: "set (map fst (stored_dict t)) = set (map fst (task_dict t))"
  unfolding stored_dict_def by (rule keys_sorted)

lemma stored_attempt: "raw_attempt (stored_dict t) = VInt (op_attempt t)"
proof -
  have "map_of (stored_dict t) ''attempt'' = Some (VInt (op_attempt t))"
    unfolding stored_dict_def by (simp only: map_of_map_snd map_of_sort_key [OF task_dict_distinct])
      (simp add: task_dict_def)
  then show ?thesis by (simp add: raw_attempt_def dict_get_def)
qed

lemma task_dict_get:
  "dict_get_none (task_dict t) ''operation_id'' = VStr (op_id t)"
  "dict_get_none (task_dict t) ''kind'' = VStr (op_kind t)"
  "dict_get_none (task_dict t) ''state'' = VStr (state_value (op_state t))"
  "dict_get_none (task_dict t) ''phase'' = VStr (op_phase t)"
  "dict_get_none (task_dict t) ''progress_current'' = VInt (progress_current t)"
  "dict_get_none (task_dict t) ''progress_total'' = of_opt_int (progress_total t)"
  "dict_get_none (task_dict t) ''progress_unit'' = of_opt (progress_unit t)"
  "dict_get_none (task_dict t) ''progress_message'' = of_opt (progress_message t)"
  "dict_get_none (task_dict t) ''task_id'' = of_opt (op_task_id t)"
  "dict_get_none (task_dict t) ''workspace_id'' = of_opt (op_workspace_id t)"
  "dict_get_none (task_dict t) ''snapshot_binding'' = binding_payload (snapshot_binding t)"
  "dict_get_none (task_dict t) ''result_reference'' = of_opt (result_reference t)"
  "dict_get_none (task_dict t) ''error_code'' = of_opt (error_code t)"
  "dict_get_none (task_dict t) ''error_message'' = of_opt (error_message t)"
  "dict_get_none (task_dict t) ''retryability'' = VStr (retryability_value (retryability t))"
  "dict_get_none (task_dict t) ''cancel_supported'' = VBool (cancel_supported t)"
  "dict_get_none (task_dict t) ''cancellation_requested_at'' = of_opt (cancellation_requested_at t)"
  "dict_get_none (task_dict t) ''created_at'' = VStr (op_created_at t)"
  "dict_get_none (task_dict t) ''updated_at'' = VStr (op_updated_at t)"
  "dict_get_none (task_dict t) ''expires_at'' = of_opt (op_expires_at t)"
  "dict_get_none (task_dict t) ''owner_id'' = of_opt (op_owner_id t)"
  "dict_get_none (task_dict t) ''lease_expires_at'' = of_opt (op_lease_expires_at t)"
  "dict_get_none (task_dict t) ''receipt_id'' = of_opt (receipt_id t)"
  "dict_get_none (task_dict t) ''record_provenance'' = VStr (record_provenance t)"
  "dict_get_none (task_dict t) ''record_consistency'' = VStr (record_consistency t)"
  "dict_get_none (task_dict t) ''record_diagnostics'' = of_strings (record_diagnostics t)"
  "dict_get_none (task_dict t) ''schema_version'' = VInt (op_schema_version t)"
  by (simp_all add: task_dict_def dict_get_none_def)

lemma stored_fields_ok: "record_fields_ok 2 (stored_dict t)"
proof -
  have "same_keys (task_dict t) (CURRENT_FIELDS @ [''attempt''])"
    unfolding same_keys_def set_eq_subset
    by (simp add: task_dict_def CURRENT_FIELDS_def PREVIOUS_CURRENT_FIELDS_def LEGACY_FIELDS_def)
  then show ?thesis
    by (simp add: record_fields_ok_def same_keys_def stored_keys LEGACY_OPERATION_SCHEMA_VERSION_def del: set_map)
qed

lemma stored_typed: "record_typed 2 (stored_dict t)"
  unfolding record_typed_def Let_def stored_get task_dict_get stored_attempt
  by (simp add: binding_roundtrip(2))

lemma stored_build:
  assumes "op_schema_version t = 2"
  shows "build_task 2 (stored_dict t) = t"
proof -
  have "''owner_id'' \<in> keys_of (stored_dict t)" "''lease_expires_at'' \<in> keys_of (stored_dict t)"
    using stored_keys [of t] by (simp_all add: keys_of_def task_dict_def)
  then show ?thesis
    using assms unfolding build_task_def Let_def stored_get task_dict_get stored_attempt
    by (simp add: binding_roundtrip(1) OPERATION_SCHEMA_VERSION_def)
qed

lemma normalize_current:
  assumes "valid_task t" "record_provenance t = ''current''"
  shows "normalize_loaded_operation t 2 = Inr t"
proof -
  note c = valid_current_consistent [OF assms]
  have o: "operation_record_inconsistencies t = []" using c(1) by (simp add: inconsistencies_Nil)
  have ph: "(if terminal_state (op_state t) then state_value (op_state t) else op_phase t) = op_phase t"
    using c(1) by (auto simp: lifecycle_consistent_def)
  have sv: "op_schema_version t = 2"
    using assms(1) by (simp add: valid_task_iff field_checks_def OPERATION_SCHEMA_VERSION_def)
  have "t\<lparr>op_phase := op_phase t, record_provenance := record_provenance t, record_consistency := ''consistent'',
      record_diagnostics := [], op_schema_version := 2\<rparr> = t"
    using c(2,3) sv by simp
  with assms(1) c o ph show ?thesis
    by (simp add: normalize_loaded_operation_def Let_def OPERATION_SCHEMA_VERSION_def
        LEGACY_OPERATION_SCHEMA_VERSION_def)
qed

lemma decode_stored:
  assumes "valid_task t" "record_provenance t = ''current''"
  shows "decode_operation (Json (json_sorted (VDict (task_dict t)))) (op_id t) = Inr t"
proof -
  have sv: "op_schema_version t = 2"
    using assms(1) by (simp add: valid_task_iff field_checks_def OPERATION_SCHEMA_VERSION_def)
  have g: "dict_get_none (stored_dict t) ''schema_version'' = VInt 2"
    "dict_get_none (stored_dict t) ''operation_id'' = VStr (op_id t)"
    by (simp_all add: stored_get task_dict_get sv)
  have "assert_safe (VDict (stored_dict t)) [] = None"
    using assert_safe_sorted [OF assert_safe_task] unfolding json_sorted_task .
  then show ?thesis
    unfolding json_sorted_task decode_operation_def
    by (simp add: g stored_fields_ok stored_typed stored_build [OF sv] normalize_current [OF assms]
        OPERATION_SCHEMA_VERSION_def)
qed

section \<open>The store meets its port\<close>

definition current_task :: "OperationTask \<Rightarrow> bool" where
  "current_task t \<longleftrightarrow> valid_task t \<and> record_provenance t = ''current''"

lemma valid_task_id: "valid_task t \<Longrightarrow> validate_operation_id (op_id t) = None"
  by (simp add: valid_task_iff field_checks_def)

lemma op_store_write_reads:
  assumes "write_file op_max_bytes fs (op_id t) (VDict (task_dict t)) = Inr fs'"
  shows "current_task t \<Longrightarrow> op_store_read fs' (op_id t) = Inr (Some t)"
    and "i \<noteq> op_id t \<Longrightarrow> op_store_read fs' i = op_store_read fs i"
proof -
  show "op_store_read fs' (op_id t) = Inr (Some t)" if "current_task t"
    using that valid_task_id [of t] operation_id_path [of "op_id t"] decode_stored [of t]
    by (simp add: op_store_read_def read_after_write [OF assms] current_task_def del: json_sorted.simps)
  show "i \<noteq> op_id t \<Longrightarrow> op_store_read fs' i = op_store_read fs i"
    by (simp add: op_store_read_def read_after_write [OF assms])
qed

lemma op_store_saveE:
  assumes "op_store_save fs t v = Inr fs'"
  obtains c where "valid_task t" "op_store_read fs (op_id t) = Inr (Some c)" "op_updated_at c = v"
    "write_file op_max_bytes fs (op_id t) (VDict (task_dict t)) = Inr fs'"
  using assms task_payload_valid [of t]
  by (auto simp: op_store_save_def elim!: bind_result_InrE split: option.splits if_splits)

lemma op_store_createE:
  assumes "op_store_create fs t = Inr fs'"
  obtains "valid_task t" "map_of fs (op_id t) = None"
    "write_file op_max_bytes fs (op_id t) (VDict (task_dict t)) = Inr fs'"
  using assms task_payload_valid [of t]
  by (auto simp: op_store_create_def elim!: bind_result_InrE split: if_splits)

lemma normalize_id: "normalize_loaded_operation t v = Inr t' \<Longrightarrow> op_id t' = op_id t"
  by (auto simp: normalize_loaded_operation_def Let_def)

lemma decode_operation_id: "decode_operation f i = Inr t \<Longrightarrow> op_id t = i"
proof -
  assume "decode_operation f i = Inr t"
  then obtain raw v where "dict_get_none raw ''operation_id'' = VStr i" "normalize_loaded_operation (build_task v raw) v = Inr t"
    by (auto simp: decode_operation_def Let_def elim!: bind_result_InrE
        split: json_file.splits pyval.splits if_splits sum.splits)
  then show ?thesis using normalize_id [of "build_task v raw" v t] by (simp add: build_task_def Let_def)
qed

lemma op_store_read_id: "op_store_read fs i = Inr (Some t) \<Longrightarrow> op_id t = i"
  by (auto simp: op_store_read_def elim!: bind_result_InrE dest: decode_operation_id split: option.splits)

interpretation op_store: evolving_store op_store_read op_store_save op_store_create op_id op_updated_at current_task "\<lambda>_. True" op_step
proof unfold_locales
  fix fs fs' :: files and r c :: OperationTask and v :: string and i :: string
  show "op_store_read fs i = Inr (Some c) \<Longrightarrow> op_id c = i" by (rule op_store_read_id)
  show "op_store_save fs r v = Inr fs' \<Longrightarrow> current_task r \<Longrightarrow> op_store_read fs' (op_id r) = Inr (Some r)"
    by (elim op_store_saveE) (rule op_store_write_reads(1))
  show "op_store_save fs r v = Inr fs' \<Longrightarrow> i \<noteq> op_id r \<Longrightarrow> op_store_read fs' i = op_store_read fs i"
    by (elim op_store_saveE) (rule op_store_write_reads(2))
  show "op_store_save fs r v = Inr fs' \<Longrightarrow> \<exists>c. op_store_read fs (op_id r) = Inr (Some c) \<and> op_updated_at c = v"
    by (elim op_store_saveE) blast
  show "op_store_create fs r = Inr fs' \<Longrightarrow> op_store_read fs (op_id r) = Inr None"
    by (elim op_store_createE)
       (simp add: op_store_read_def read_file_def valid_task_id operation_id_path)
  show "op_store_create fs r = Inr fs' \<Longrightarrow> current_task r \<Longrightarrow> op_store_read fs' (op_id r) = Inr (Some r)"
    by (elim op_store_createE) (rule op_store_write_reads(1))
  show "op_store_create fs r = Inr fs' \<Longrightarrow> i \<noteq> op_id r \<Longrightarrow> op_store_read fs' i = op_store_read fs i"
    by (elim op_store_createE) (rule op_store_write_reads(2))
  show "op_step c r \<Longrightarrow> op_id r = op_id c"
    using op_run_frame [of c r] by (simp add: same_identity_def r_into_rtranclp)
  show "op_step c r \<Longrightarrow> current_task c \<Longrightarrow> current_task r"
    using op_run_frame [of c r] op_run_valid [of c r] by (simp add: same_identity_def current_task_def r_into_rtranclp)
  show "op_step\<^sup>*\<^sup>* c r \<Longrightarrow> op_updated_at r = op_updated_at c \<Longrightarrow> r = c"
    by (rule op.same_stamp_same_record)
qed

section \<open>Properties\<close>

text \<open>
  Claim C12. A saved operation is read back exactly, with every field, and saving it changes what
  is read under no other id.
\<close>

theorem operation_store_read_after_save:
  assumes "op_store_save fs t v = Inr fs'" "current_task t"
  shows "op_store_read fs' (op_id t) = Inr (Some t) \<and> (\<forall>i. i \<noteq> op_id t \<longrightarrow> op_store_read fs' i = op_store_read fs i)"
  using op_store.save_reads [OF assms] op_store.save_frame [OF assms(1)] by blast

text \<open>
  Claim C1. No update of an operation is lost: whatever any number of clients create, read, step
  and save in between, a save against the \<open>updated_at\<close> a client read earlier succeeds only if the
  stored record is still exactly the one that client read.
\<close>

theorem operation_store_no_lost_update:
  assumes "op_store_read fs i = Inr (Some c)" "current_task c"
    and "(cas_step op_store_read op_store_save op_store_create op_updated_at current_task op_step)\<^sup>*\<^sup>* fs fs'"
    and "op_id r = i" "op_store_save fs' r (op_updated_at c) = Inr fs''"
  shows "op_store_read fs' i = Inr (Some c)"
  using op_store.no_lost_update [OF TrueI assms] .

text \<open>
  A scan of the store reports every record it looked at: for each scanned id, the page
  has the decoded record, or lists the id as unreadable when reading it raises, so one corrupt
  file hides no other record.
\<close>

theorem operation_store_list_complete:
  assumes "op_store_list fs n = Inr page" "i \<in> set (fst (list_ids ''op-'' fs (nat n) 0))"
  shows "case op_store_read fs i of
      Inr (Some t) \<Rightarrow> t \<in> set (page_records page)
    | Inr None \<Rightarrow> i \<notin> set (page_unreadable page)
    | Inl _ \<Rightarrow> i \<in> set (page_unreadable page)"
proof -
  obtain ids cut where l: "list_ids ''op-'' fs (nat n) 0 = (ids, cut)"
    by (cases "list_ids ''op-'' fs (nat n) 0")
  then have i: "i \<in> set ids" using assms(2) by simp
  let ?rec = "\<lambda>r :: OperationTask option result. case r of Inr (Some t) \<Rightarrow> [t] | _ \<Rightarrow> []"
  let ?bad = "\<lambda>(i :: string) (r :: OperationTask option result). case r of Inl _ \<Rightarrow> [i] | Inr _ \<Rightarrow> []"
  have "page_records page = rev (sort_key (\<lambda>t. (op_updated_at t, op_id t)) (concat (map (\<lambda>i. ?rec (op_store_read fs i)) ids)))"
    "page_unreadable page = sort (concat (map (\<lambda>i. ?bad i (op_store_read fs i)) ids))"
    using assms(1) by (auto simp: op_store_list_def l Let_def comp_def split: if_splits)
  then have sets: "set (page_records page) = (\<Union>i \<in> set ids. set (?rec (op_store_read fs i)))"
    "set (page_unreadable page) = (\<Union>i \<in> set ids. set (?bad i (op_store_read fs i)))" by simp_all
  have bad: "j \<in> set (?bad j' r) \<longleftrightarrow> j = j' \<and> (\<exists>e. r = Inl e)" for j j' r by (cases r) auto
  show ?thesis
  proof (cases "op_store_read fs i")
    case (Inl e)
    with i have "i \<in> set (page_unreadable page)" unfolding sets by (intro UN_I [OF i]) simp
    with Inl show ?thesis by simp
  next
    case (Inr r)
    then have "i \<notin> set (page_unreadable page)" unfolding sets by (auto simp: bad)
    moreover have "t \<in> set (page_records page)" if "r = Some t" for t
      unfolding sets using Inr that by (intro UN_I [OF i]) simp
    ultimately show ?thesis using Inr by (cases r) simp_all
  qed
qed

subsection \<open>Witnesses\<close>

lemma length_clock: "length (clock h) = 25"
  by (simp add: clock_def clock_dt_def isoformat_def iso_date_def iso_time_def iso_offset_def)

lemma example_weight:
  "json_weight 0 (VDict (task_dict (example_task PENDING ''queued'' u None))) \<le> 5000"
  "json_weight 0 (VDict (task_dict (example_task RUNNING ''running'' u None))) \<le> 5000"
  by (simp_all add: task_dict_def example_task_def of_opt_def of_opt_int_def binding_payload_def of_strings_def
      length_clock default_error_code_def str_of_int_def str_of_nat.simps)

lemma write_example:
  assumes "json_weight 0 v \<le> 5000"
  shows "write_file op_max_bytes fs i v = Inr (dict_set fs i (Json (json_sorted v)))"
proof -
  have "length (utf8_encode (json_indented False 0 v)) \<le> 2 * 5000"
    using length_utf8_encode(2) [of "json_indented False 0 v"] length_json_indented [of False 0 v] assms by linarith
  then show ?thesis by (simp add: write_file_def encoded_size_def)
qed

abbreviation pending_task :: OperationTask where
  "pending_task \<equiv> example_task PENDING ''queued'' 0 None"

abbreviation running_task :: OperationTask where
  "running_task \<equiv> example_task RUNNING ''running'' 2 None"

lemma example_current: "current_task pending_task" "current_task running_task"
proof -
  have "valid_task pending_task" "valid_task running_task" by (rule example_valid; simp)+
  then show "current_task pending_task" "current_task running_task"
    unfolding current_task_def by (simp_all add: example_task_def [of _ _ _ None])
qed

definition stored_file :: "OperationTask \<Rightarrow> json_file" where
  "stored_file t = Json (json_sorted (VDict (task_dict t)))"

lemma example_ids: "op_id pending_task = op_id running_task" "op_updated_at pending_task = clock 0"
  by (simp_all add: example_task_def)

lemma example_created: "op_store_create [] pending_task = Inr [(op_id running_task, stored_file pending_task)]"
proof -
  have v: "valid_task pending_task" using example_current by (simp add: current_task_def)
  have w: "write_file op_max_bytes [] (op_id pending_task) (VDict (task_dict pending_task)) =
      Inr [(op_id pending_task, stored_file pending_task)]"
    using write_example [OF example_weight(1)] by (simp add: stored_file_def del: json_sorted.simps)
  have "operation_path (op_id pending_task) = None" using v valid_task_id operation_id_path by blast
  with v show ?thesis
    unfolding op_store_create_def task_payload_valid [OF v] example_ids(1) [symmetric] by (simp add: w)
qed

lemma example_read: "op_store_read [(op_id running_task, stored_file pending_task)] (op_id running_task) = Inr (Some pending_task)"
  using op_store.create_reads [OF example_created example_current(1)] by (simp only: example_ids)

lemma example_saved:
  "op_store_save [(op_id running_task, stored_file pending_task)] running_task (op_updated_at pending_task) =
     Inr [(op_id running_task, stored_file running_task)]"
proof -
  have v: "valid_task running_task" using example_current by (simp add: current_task_def)
  have w: "write_file op_max_bytes [(op_id running_task, stored_file pending_task)] (op_id running_task)
      (VDict (task_dict running_task)) = Inr [(op_id running_task, stored_file running_task)]"
    using write_example [OF example_weight(2)] by (simp add: stored_file_def del: json_sorted.simps)
  have "operation_path (op_id running_task) = None" using v valid_task_id operation_id_path by blast
  with v show ?thesis
    unfolding op_store_save_def task_payload_valid [OF v] by (simp add: w example_read)
qed

theorem operation_store_read_after_save_witness:
  "op_store_read [(op_id running_task, stored_file running_task)] (op_id running_task) = Inr (Some running_task)"
  using operation_store_read_after_save [OF example_saved example_current(2)] by blast

theorem operation_store_no_lost_update_witness:
  "op_store_read [(op_id running_task, stored_file pending_task)] (op_id running_task) = Inr (Some pending_task)"
  using operation_store_no_lost_update [OF example_read example_current(1) rtranclp.rtrancl_refl refl example_saved] .

theorem operation_store_list_complete_witness:
  "\<exists>page. op_store_list [(''op-x'', NotJson)] 10 = Inr page \<and> ''op-x'' \<in> set (page_unreadable page)"
proof -
  have l: "list_ids ''op-'' [(''op-x'', NotJson)] 10 0 = ([''op-x''], False)"
    by (simp add: list_ids_def startswith_def)
  have bad: "\<exists>e. op_store_read [(''op-x'', NotJson)] ''op-x'' = Inl e"
  proof -
    have "validate_operation_id ''op-x'' \<noteq> None" by code_simp
    then show ?thesis by (auto simp: op_store_read_def)
  qed
  obtain page where p: "op_store_list [(''op-x'', NotJson)] 10 = Inr page"
    by (simp add: op_store_list_def l Let_def)
  with operation_store_list_complete [OF p, of "''op-x''"] l bad show ?thesis by auto
qed

end
