(* ===== verification/Operation_Manager.thy ===== *)
theory Operation_Manager
  imports Operation_Store
begin

text \<open>
  application/operations/manager.py: the coordinator that reads an operation, computes its
  successor and saves it against the \<open>updated_at\<close> it read. Every call takes the environment of the
  process: what the clock returns, what the mutation gate of \<open>ApplicationContext.audited\<close> raises,
  and what other processes do to the collection between this call's accesses to it. A call returns
  the collection after it and its result, or raises.
\<close>

section \<open>The environment\<close>

text \<open>
  The index of each field counts the writes of one call (\<open>request_cancel\<close> may try three); \<open>others\<close> at
  an even index runs between a read and the write that follows it, at an odd index between a refused
  write and the next read.
\<close>

record mgr_env =
  now_iso :: "nat \<Rightarrow> string"
  gate :: "nat \<Rightarrow> exn option"
  others :: "nat \<Rightarrow> files \<Rightarrow> files"

definition now_or :: "mgr_env \<Rightarrow> nat \<Rightarrow> string option \<Rightarrow> string" where
  "now_or env k explicit = (case explicit of Some s \<Rightarrow> if s = [] then now_iso env k else s | None \<Rightarrow> now_iso env k)"

text \<open>\<open>audited\<close>: the operation runs if the gate admits it. The operation names of the manager are not
  policy writes; the audit trail and the metrics are output.\<close>

definition audited :: "exn option \<Rightarrow> 'a result \<Rightarrow> 'a result" where
  "audited g r = bind_result (checked g ()) (\<lambda>_. r)"

definition store_save :: "mgr_env \<Rightarrow> nat \<Rightarrow> files \<Rightarrow> OperationTask \<Rightarrow> string \<Rightarrow> (files \<times> OperationTask) result" where
  "store_save env k fs t expected =
     audited (gate env k) (bind_result (op_store_save (others env (2 * k) fs) t expected) (\<lambda>fs'. Inr (fs', t)))"

section \<open>Operations\<close>

definition mgr_status :: "files \<Rightarrow> string \<Rightarrow> OperationTask result" where
  "mgr_status fs i =
     bind_result (op_store_read fs i) (\<lambda>r.
     case r of None \<Rightarrow> Inl (RepoForgeError ''OPERATION_NOT_FOUND'' (''Operation not found: '' @ i)) | Some t \<Rightarrow> Inr t)"

text \<open>The id, when the caller gives none, is made of 24 hexadecimal digits of the id source.\<close>

definition mgr_create ::
  "mgr_env \<Rightarrow> string \<Rightarrow> files \<Rightarrow> string option \<Rightarrow> string \<Rightarrow> string \<Rightarrow> bool \<Rightarrow> string option \<Rightarrow> string option \<Rightarrow>
   OperationSnapshotBinding option \<Rightarrow> string option \<Rightarrow> string option \<Rightarrow> (files \<times> OperationTask) result" where
  "mgr_create env new_hex fs i knd ph cs tid wid binding expires now =
     (let oid = (case i of Some s \<Rightarrow> if s = [] then ''op-'' @ new_hex else s | None \<Rightarrow> ''op-'' @ new_hex) in
      bind_result (new_operation_task oid knd ph (now_or env 0 now) cs tid wid binding expires) (\<lambda>t.
      audited (gate env 0) (bind_result (op_store_create (others env 0 fs) t) (\<lambda>fs'. Inr (fs', t)))))"

definition mgr_save_transition ::
  "mgr_env \<Rightarrow> files \<Rightarrow> string \<Rightarrow> OperationState \<Rightarrow> string option \<Rightarrow> transition_args \<Rightarrow> string option \<Rightarrow>
   string option \<Rightarrow> int option \<Rightarrow> bool \<Rightarrow> (files \<times> OperationTask) result" where
  "mgr_save_transition env fs i new_state now args owner lease att bypass =
     bind_result (mgr_status fs i) (\<lambda>current.
     let transition_now = now_or env 0 now in
     if new_state = SUCCEEDED \<and> cancellation_requested_at current \<noteq> None
     then Inl (op_transition_invalid ''Operation cannot succeed after cancellation was requested'')
     else if new_state \<noteq> RUNNING \<and> lease \<noteq> None
     then Inl (op_invalid ''lease_expires_at is valid only when starting an operation'')
     else bind_result (if new_state \<noteq> RUNNING \<and> \<not> bypass then require_operation_owner current owner else Inr ()) (\<lambda>_.
     bind_result (transition_operation current new_state transition_now args) (\<lambda>moved.
     bind_result
       (if new_state = RUNNING \<and> (owner \<noteq> None \<or> lease \<noteq> None) then
          (case (owner, lease) of
             (Some w, Some l) \<Rightarrow> claim_operation_ownership moved w l transition_now att
           | _ \<Rightarrow> Inl (op_invalid ''owner_id and lease_expires_at must be provided together''))
        else Inr moved) (\<lambda>updated.
     if updated = current then Inr (fs, current)
     else store_save env 0 fs updated (op_updated_at current)))))"

definition mgr_start ::
  "mgr_env \<Rightarrow> files \<Rightarrow> string \<Rightarrow> string option \<Rightarrow> string option \<Rightarrow> string option \<Rightarrow> int option \<Rightarrow> string option \<Rightarrow>
   (files \<times> OperationTask) result" where
  "mgr_start env fs i receipt owner lease att now =
     mgr_save_transition env fs i RUNNING now (no_args\<lparr>arg_receipt_id := receipt\<rparr>) owner lease att False"

definition mgr_succeed ::
  "mgr_env \<Rightarrow> files \<Rightarrow> string \<Rightarrow> string \<Rightarrow> string option \<Rightarrow> string option \<Rightarrow> string option \<Rightarrow> (files \<times> OperationTask) result" where
  "mgr_succeed env fs i ref receipt owner now =
     mgr_save_transition env fs i SUCCEEDED now
       (no_args\<lparr>arg_result_reference := Some ref, arg_receipt_id := receipt\<rparr>) owner None None False"

text \<open>\<open>a or b\<close> for an optional count: zero and \<open>None\<close> both give \<open>b\<close>.\<close>

definition count_or :: "int option \<Rightarrow> int \<Rightarrow> int" where
  "count_or v d = (case v of Some n \<Rightarrow> if n = 0 then d else n | None \<Rightarrow> d)"

text \<open>The record \<open>reconcile_success\<close> saves.\<close>

definition reconciled :: "OperationTask \<Rightarrow> string \<Rightarrow> string \<Rightarrow> string \<Rightarrow> OperationTask" where
  "reconciled t ref receipt stamp = t\<lparr>op_state := SUCCEEDED, op_phase := state_value SUCCEEDED,
     progress_current := count_or (progress_total t) (max (progress_current t) 1),
     progress_total := Some (count_or (progress_total t) 1),
     progress_unit := (case progress_unit t of Some u \<Rightarrow> if u = [] then Some ''effects'' else Some u | None \<Rightarrow> Some ''effects''),
     progress_message := Some ''Completed'', result_reference := Some ref, receipt_id := Some receipt,
     error_code := None, error_message := None, retryability := RETRY_NONE, op_updated_at := stamp,
     op_owner_id := None, op_lease_expires_at := None\<rparr>"

definition mgr_reconcile_success ::
  "mgr_env \<Rightarrow> files \<Rightarrow> string \<Rightarrow> string \<Rightarrow> string \<Rightarrow> string option \<Rightarrow> (files \<times> OperationTask) result" where
  "mgr_reconcile_success env fs i ref receipt now =
     bind_result (mgr_status fs i) (\<lambda>current.
     if op_state current = SUCCEEDED then
       (if result_reference current = Some ref \<and> receipt_id current = Some receipt then Inr (fs, current)
        else Inl (op_transition_invalid ''Reconciled result does not match the existing success record''))
     else if op_state current \<noteq> FAILED \<or> error_code current \<noteq> Some ''EFFECT_OUTCOME_UNKNOWN'' \<or>
         receipt_id current \<noteq> Some receipt
     then Inl (op_transition_invalid ''Only the exact unknown-effect operation may reconcile to success'')
     else bind_result (next_operation_timestamp (op_updated_at current) (now_or env 0 now)) (\<lambda>stamp.
       store_save env 0 fs (reconciled current ref receipt stamp) (op_updated_at current)))"

definition mgr_fail ::
  "mgr_env \<Rightarrow> files \<Rightarrow> string \<Rightarrow> transition_args \<Rightarrow> string option \<Rightarrow> string option \<Rightarrow> (files \<times> OperationTask) result" where
  "mgr_fail env fs i args owner now = mgr_save_transition env fs i FAILED now args owner None None False"

definition mgr_cancelled ::
  "mgr_env \<Rightarrow> files \<Rightarrow> string \<Rightarrow> string option \<Rightarrow> string option \<Rightarrow> (files \<times> OperationTask) result" where
  "mgr_cancelled env fs i owner now = mgr_save_transition env fs i CANCELLED now no_args owner None None False"

text \<open>\<open>message or default\<close>\<close>

definition message_or :: "string option \<Rightarrow> string \<Rightarrow> string" where
  "message_or v d = (case v of Some s \<Rightarrow> if s = [] then d else s | None \<Rightarrow> d)"

definition mgr_expire ::
  "mgr_env \<Rightarrow> files \<Rightarrow> string \<Rightarrow> string option \<Rightarrow> string option \<Rightarrow> (files \<times> OperationTask) result" where
  "mgr_expire env fs i msg now =
     mgr_save_transition env fs i EXPIRED now
       (no_args\<lparr>arg_error_code := Some ''OPERATION_EXPIRED'',
          arg_error_message := Some (message_or msg ''Operation expired: its deadline elapsed before it reached a terminal state.'')\<rparr>)
       None None None True"

definition mgr_orphan ::
  "mgr_env \<Rightarrow> files \<Rightarrow> string \<Rightarrow> string \<Rightarrow> string option \<Rightarrow> string option \<Rightarrow> (files \<times> OperationTask) result" where
  "mgr_orphan env fs i code msg now =
     mgr_save_transition env fs i ORPHANED now
       (no_args\<lparr>arg_error_code := Some code,
          arg_error_message := Some (message_or msg ''Operation worker was lost (the runtime process that owned it is gone).''),
          arg_retryability := RETRY_MANUAL\<rparr>)
       None None None True"

definition mgr_progress ::
  "mgr_env \<Rightarrow> files \<Rightarrow> string \<Rightarrow> string \<Rightarrow> int \<Rightarrow> int option \<Rightarrow> string option \<Rightarrow> string option \<Rightarrow>
   string option \<Rightarrow> string option \<Rightarrow> string option \<Rightarrow> (files \<times> OperationTask) result" where
  "mgr_progress env fs i ph cur tot unt msg owner lease now =
     bind_result (mgr_status fs i) (\<lambda>existing.
     bind_result (require_operation_owner existing owner) (\<lambda>_.
     bind_result (update_operation_progress existing ph cur tot unt msg (now_or env 0 now)) (\<lambda>moved.
     bind_result
       (case lease of None \<Rightarrow> Inr moved
        | Some l \<Rightarrow> (case owner of
            None \<Rightarrow> Inl (op_invalid ''lease renewal requires owner_id'')
          | Some w \<Rightarrow> renew_operation_ownership moved w l (now_or env 0 now))) (\<lambda>updated.
     store_save env 0 fs updated (op_updated_at existing)))))"

definition mgr_renew_ownership ::
  "mgr_env \<Rightarrow> files \<Rightarrow> string \<Rightarrow> string \<Rightarrow> string \<Rightarrow> string option \<Rightarrow> (files \<times> OperationTask) result" where
  "mgr_renew_ownership env fs i owner lease now =
     bind_result (mgr_status fs i) (\<lambda>existing.
     bind_result (renew_operation_ownership existing owner lease (now_or env 0 now)) (\<lambda>updated.
     store_save env 0 fs updated (op_updated_at existing)))"

definition mgr_requeue :: "mgr_env \<Rightarrow> files \<Rightarrow> string \<Rightarrow> string option \<Rightarrow> (files \<times> OperationTask) result" where
  "mgr_requeue env fs i now =
     bind_result (mgr_status fs i) (\<lambda>existing.
     bind_result (requeue_operation existing (now_or env 0 now)) (\<lambda>updated.
     store_save env 0 fs updated (op_updated_at existing)))"

text \<open>
  The compare-and-set loop of \<open>request_cancel\<close>: the \<open>k\<close>-th attempt, with \<open>remaining\<close> attempts left,
  this one included.
\<close>

definition CANCEL_CAS_ATTEMPTS :: nat where
  "CANCEL_CAS_ATTEMPTS = 3"

fun cancel_attempts ::
  "mgr_env \<Rightarrow> string \<Rightarrow> string option \<Rightarrow> string option \<Rightarrow> nat \<Rightarrow> nat \<Rightarrow> files \<Rightarrow>
   (files \<times> OperationCancellationDecision) result" where
  "cancel_attempts env i expected now 0 k fs = Inl (RuntimeError ''unreachable'')"
| "cancel_attempts env i expected now (Suc remaining) k fs =
     bind_result (mgr_status fs i) (\<lambda>existing.
     if expected \<noteq> None \<and> expected \<noteq> Some (op_updated_at existing)
     then Inl (op_stale (''Operation changed since '' @ the expected @ ''; current updated_at is '' @ op_updated_at existing))
     else bind_result (request_operation_cancellation existing (now_or env k now)) (\<lambda>decision.
     if dec_task decision = existing then Inr (fs, decision)
     else case store_save env k fs (dec_task decision) (op_updated_at existing) of
            Inr (fs', saved) \<Rightarrow> Inr (fs', decision\<lparr>dec_task := saved\<rparr>)
          | Inl e \<Rightarrow>
              if (case e of RepoForgeError code _ \<Rightarrow> code = ''OPERATION_STALE'' | _ \<Rightarrow> False) \<and> remaining \<noteq> 0
              then cancel_attempts env i expected now remaining (Suc k) (others env (2 * k + 1) (others env (2 * k) fs))
              else Inl e))"

definition mgr_request_cancel ::
  "mgr_env \<Rightarrow> files \<Rightarrow> string \<Rightarrow> string option \<Rightarrow> string option \<Rightarrow> (files \<times> OperationCancellationDecision) result" where
  "mgr_request_cancel env fs i expected now =
     cancel_attempts env i expected now (if expected \<noteq> None then 1 else CANCEL_CAS_ATTEMPTS) 0 fs"

text \<open>
  \<open>delete\<close>: the record goes first; what the companion stores (results and identities, when they are
  configured) raise while they drop their side of it is suppressed.
\<close>

definition mgr_delete :: "mgr_env \<Rightarrow> files \<Rightarrow> string \<Rightarrow> files result" where
  "mgr_delete env fs i =
     bind_result (mgr_status fs i) (\<lambda>_. audited (gate env 0) (op_store_delete (others env 0 fs) i))"

section \<open>Records under the manager\<close>

text \<open>
  How one call of the manager moves a record: by the domain operations, except that no request for
  cancellation is overtaken by a success, or by the reconciliation of a failure whose effect was
  unknown.
\<close>

inductive mgr_step :: "OperationTask \<Rightarrow> OperationTask \<Rightarrow> bool" where
  domain: "op_step t t' \<Longrightarrow>
    (op_state t' = SUCCEEDED \<Longrightarrow> op_state t = SUCCEEDED \<or> cancellation_requested_at t = None) \<Longrightarrow> mgr_step t t'"
| reconcile: "op_state t = FAILED \<Longrightarrow> error_code t = Some ''EFFECT_OUTCOME_UNKNOWN'' \<Longrightarrow> receipt_id t = Some rc \<Longrightarrow>
    next_operation_timestamp (op_updated_at t) now = Inr stamp \<Longrightarrow> valid_task (reconciled t ref rc stamp) \<Longrightarrow>
    mgr_step t (reconciled t ref rc stamp)"

lemma reconciled_simps [simp]:
  "op_id (reconciled t ref rc stamp) = op_id t"
  "op_updated_at (reconciled t ref rc stamp) = stamp"
  "op_state (reconciled t ref rc stamp) = SUCCEEDED"
  "record_provenance (reconciled t ref rc stamp) = record_provenance t"
  "result_reference (reconciled t ref rc stamp) = Some ref"
  "receipt_id (reconciled t ref rc stamp) = Some rc"
  "cancellation_requested_at (reconciled t ref rc stamp) = cancellation_requested_at t"
  by (simp_all add: reconciled_def)

lemma mgr_step_frame: "mgr_step t t' \<Longrightarrow> op_id t' = op_id t \<and> record_provenance t' = record_provenance t"
proof (induction rule: mgr_step.induct)
  case (domain t t')
  then show ?case using op_run_frame [of t t'] by (simp add: same_identity_def r_into_rtranclp)
qed simp

lemma mgr_step_valid: "mgr_step t t' \<Longrightarrow> valid_task t \<Longrightarrow> valid_task t'"
proof (induction rule: mgr_step.induct)
  case (domain t t')
  then show ?case using op_run_valid by blast
qed simp

lemma mgr_run_frame:
  "mgr_step\<^sup>*\<^sup>* t t' \<Longrightarrow> op_id t' = op_id t \<and> record_provenance t' = record_provenance t \<and> (valid_task t \<longrightarrow> valid_task t')"
  by (induction rule: rtranclp_induct) (auto dest: mgr_step_frame mgr_step_valid)

interpretation mgr: stamped_steps mgr_step op_updated_at
proof
  fix t t' assume "mgr_step t t'"
  then show "t' = t \<or> (\<exists>i j. stamp_at (op_updated_at t) i \<and> stamp_at (op_updated_at t') j \<and> i < j)"
  proof cases
    case domain
    then show ?thesis using op_step_changes changes_stamp by metis
  next
    case (reconcile rc now stamp ref)
    obtain i j where "stamp_at (op_updated_at t) i" "stamp_at stamp (max j (i + 1))"
      by (rule next_operation_timestamp_spec [OF reconcile(5)])
    moreover have "i < max j (i + 1)" by simp
    ultimately show ?thesis unfolding reconcile(1) by (intro disjI2 exI conjI) simp_all
  qed
qed

text \<open>The store, with the manager's calls as its clients; one call may take several record steps.\<close>

interpretation mgr_store: evolving_store op_store_read op_store_save op_store_create op_id op_updated_at
  current_task "\<lambda>_. True" "mgr_step\<^sup>*\<^sup>*"
proof unfold_locales
  show "mgr_step\<^sup>*\<^sup>* c r \<Longrightarrow> op_id r = op_id c" for c r using mgr_run_frame by blast
  show "mgr_step\<^sup>*\<^sup>* c r \<Longrightarrow> current_task c \<Longrightarrow> current_task r" for c r
    using mgr_run_frame [of c r] by (simp add: current_task_def)
  show "(mgr_step\<^sup>*\<^sup>*)\<^sup>*\<^sup>* c r \<Longrightarrow> op_updated_at r = op_updated_at c \<Longrightarrow> r = c" for c r
    using mgr.same_stamp_same_record [of c r] by simp
qed

abbreviation peers :: "files \<Rightarrow> files \<Rightarrow> bool" where
  "peers \<equiv> cas_step op_store_read op_store_save op_store_create op_updated_at current_task mgr_step\<^sup>*\<^sup>*"

definition friendly :: "mgr_env \<Rightarrow> bool" where
  "friendly env \<longleftrightarrow> (\<forall>k s. peers\<^sup>*\<^sup>* s (others env k s))"

definition all_current :: "files \<Rightarrow> bool" where
  "all_current fs \<longleftrightarrow> (\<forall>i c. op_store_read fs i = Inr (Some c) \<longrightarrow> current_task c)"

section \<open>What each call does\<close>

lemma mgr_status_Inr [simp]: "mgr_status fs i = Inr c \<longleftrightarrow> op_store_read fs i = Inr (Some c)"
  by (auto simp: mgr_status_def bind_result_Inr_iff split: option.splits)

lemma audited_Inr [simp]: "audited g r = Inr a \<longleftrightarrow> g = None \<and> r = Inr a"
  by (auto simp: audited_def bind_result_Inr_iff)

lemma store_save_Inr:
  "store_save env k fs t v = Inr (fs', t') \<longleftrightarrow>
     gate env k = None \<and> op_store_save (others env (2 * k) fs) t v = Inr fs' \<and> t' = t"
  by (auto simp: store_save_def bind_result_Inr_iff)

lemma require_owner_Inr:
  "require_operation_owner t owner = Inr u \<longleftrightarrow> valid_task t \<and> (op_owner_id t = None \<or> owner = op_owner_id t)"
  by (auto simp: require_operation_owner_def bind_result_Inr_iff)

text \<open>A call that read one record and wrote at most its successor.\<close>

definition updates :: "mgr_env \<Rightarrow> nat \<Rightarrow> files \<Rightarrow> string \<Rightarrow> files \<Rightarrow> OperationTask \<Rightarrow> OperationTask \<Rightarrow> bool" where
  "updates env k fs i fs' c t \<longleftrightarrow> op_store_read fs i = Inr (Some c) \<and> mgr_step\<^sup>*\<^sup>* c t \<and>
     (fs' = fs \<and> t = c \<or> store_save env k fs t (op_updated_at c) = Inr (fs', t))"

lemma updates_peers:
  assumes "updates env k fs i fs' c t" "friendly env" "current_task c"
  shows "peers\<^sup>*\<^sup>* fs fs' \<and> op_store_read fs' i = Inr (Some t) \<and>
    (t \<noteq> c \<longrightarrow> op_store_read (others env (2 * k) fs) i = Inr (Some c))"
proof (cases "fs' = fs \<and> t = c")
  case False
  let ?o = "others env (2 * k) fs"
  from assms(1) False have r: "op_store_read fs i = Inr (Some c)" "mgr_step\<^sup>*\<^sup>* c t"
    and save: "op_store_save ?o t (op_updated_at c) = Inr fs'"
    by (auto simp: updates_def store_save_Inr)
  have o: "peers\<^sup>*\<^sup>* fs ?o" using assms(2) by (simp add: friendly_def)
  have id: "op_id t = i" using mgr_run_frame [OF r(2)] op_store_read_id [OF r(1)] by simp
  have unmoved: "op_store_read ?o i = Inr (Some c)"
    by (rule mgr_store.no_lost_update [OF TrueI r(1) assms(3) o id save])
  have "peers ?o fs'" 
    by (rule cas_step.update [where read = op_store_read and save = op_store_save and version = op_updated_at and step = "mgr_step\<^sup>*\<^sup>*" and c = c, OF unmoved r(2) save])
  moreover have "op_store_read fs' (op_id t) = Inr (Some t)"
    using op_store.save_reads [OF save] mgr_store.step_keeps [OF r(2) assms(3)] by blast
  ultimately show ?thesis using o unmoved id by auto
qed (use assms in \<open>auto simp: updates_def\<close>)

lemma transition_mgr_step:
  assumes "transition_operation c s now args = Inr t"
    and "s = SUCCEEDED \<Longrightarrow> op_state c = SUCCEEDED \<or> cancellation_requested_at c = None"
  shows "mgr_step c t"
proof (rule mgr_step.domain [OF op_step.transition [OF assms(1)]])
  show "op_state t = SUCCEEDED \<Longrightarrow> op_state c = SUCCEEDED \<or> cancellation_requested_at c = None"
    using assms by (cases rule: transition_operationE) auto
qed

lemma running_mgr_step:
  assumes "op_step c t" "op_state t = op_state c \<or> op_state t = PENDING"
  shows "mgr_step c t"
  using assms by (auto intro: mgr_step.domain)

lemma claim_mgr_step:
  assumes "claim_operation_ownership c w l now att = Inr t"
  shows "mgr_step c t"
proof (rule running_mgr_step [OF op_step.claim [OF assms]])
  show "op_state t = op_state c \<or> op_state t = PENDING" using assms by (rule claim_operation_ownershipE) simp
qed

lemma renew_mgr_step:
  assumes "renew_operation_ownership c w l now = Inr t"
  shows "mgr_step c t"
  using assms by (rule renew_operation_ownershipE) (rule claim_mgr_step)

lemma started_claim:
  assumes "(if b then (case (owner, lease) of
       (Some w, Some l) \<Rightarrow> claim_operation_ownership moved w l now att | _ \<Rightarrow> Inl e) else Inr moved) = Inr u"
  shows "u = moved \<or> (\<exists>w l. claim_operation_ownership moved w l now att = Inr u)"
  using assms by (auto split: if_splits option.splits)

lemma save_transition_updates:
  assumes "mgr_save_transition env fs i s now args owner lease att bypass = Inr (fs', t)"
  obtains c where "updates env 0 fs i fs' c t"
    "s = SUCCEEDED \<Longrightarrow> cancellation_requested_at c = None"
    "s \<noteq> RUNNING \<Longrightarrow> \<not> bypass \<Longrightarrow> op_owner_id c = None \<or> owner = op_owner_id c"
proof -
  let ?now = "now_or env 0 now"
  from assms obtain c where c: "op_store_read fs i = Inr (Some c)"
    and rest: "\<not> (s = SUCCEEDED \<and> cancellation_requested_at c \<noteq> None)"
      "bind_result (if s \<noteq> RUNNING \<and> \<not> bypass then require_operation_owner c owner else Inr ()) (\<lambda>_.
       bind_result (transition_operation c s ?now args) (\<lambda>moved.
       bind_result
         (if s = RUNNING \<and> (owner \<noteq> None \<or> lease \<noteq> None) then
            (case (owner, lease) of
               (Some w, Some l) \<Rightarrow> claim_operation_ownership moved w l ?now att
             | _ \<Rightarrow> Inl (op_invalid ''owner_id and lease_expires_at must be provided together''))
          else Inr moved) (\<lambda>updated.
       if updated = c then Inr (fs, c) else store_save env 0 fs updated (op_updated_at c)))) = Inr (fs', t)"
    by (auto simp: mgr_save_transition_def Let_def bind_result_Inr_iff [of "mgr_status fs i"] split: if_splits)
  have guard: "s = SUCCEEDED \<Longrightarrow> cancellation_requested_at c = None"
    "s \<noteq> RUNNING \<Longrightarrow> \<not> bypass \<Longrightarrow> op_owner_id c = None \<or> owner = op_owner_id c"
    using rest by (auto simp: require_owner_Inr elim!: bind_result_InrE [of "require_operation_owner c owner"])
  from rest(2) obtain moved updated where m: "transition_operation c s ?now args = Inr moved"
    and u: "(if s = RUNNING \<and> (owner \<noteq> None \<or> lease \<noteq> None) then
          (case (owner, lease) of
             (Some w, Some l) \<Rightarrow> claim_operation_ownership moved w l ?now att
           | _ \<Rightarrow> Inl (op_invalid ''owner_id and lease_expires_at must be provided together''))
        else Inr moved) = Inr updated"
    and f: "(if updated = c then Inr (fs, c) else store_save env 0 fs updated (op_updated_at c)) = Inr (fs', t)"
    unfolding bind_result_Inr_iff by blast
  have "t = updated" using f by (auto simp: store_save_Inr split: if_splits)
  then have claim: "t = moved \<or> (\<exists>w l. claim_operation_ownership moved w l ?now att = Inr t)"
    and save: "t = c \<and> fs' = fs \<or> store_save env 0 fs t (op_updated_at c) = Inr (fs', t)"
    using started_claim [OF u] f by (simp_all split: if_splits)
  have "mgr_step c moved" by (rule transition_mgr_step [OF m]) (simp add: guard(1))
  with claim claim_mgr_step have "mgr_step\<^sup>*\<^sup>* c t" by (metis r_into_rtranclp rtranclp.rtrancl_into_rtrancl)
  with c save have "updates env 0 fs i fs' c t" by (auto simp: updates_def)
  then show thesis by (rule that) (simp_all add: guard)
qed

lemma reconcile_updates:
  assumes "mgr_reconcile_success env fs i ref rc now = Inr (fs', t)"
  obtains c where "updates env 0 fs i fs' c t" "op_state t = SUCCEEDED"
    "result_reference t = Some ref" "receipt_id t = Some rc"
proof -
  from assms obtain c where c: "op_store_read fs i = Inr (Some c)"
    by (auto simp: mgr_reconcile_success_def elim!: bind_result_InrE)
  show thesis
  proof (cases "op_state c = SUCCEEDED")
    case True
    with assms c show thesis
      by (intro that [of c]) (auto simp: mgr_reconcile_success_def mgr_status_def updates_def split: if_splits)
  next
    case False
    with assms c obtain stamp where s: "op_state c = FAILED" "error_code c = Some ''EFFECT_OUTCOME_UNKNOWN''"
      "receipt_id c = Some rc" "next_operation_timestamp (op_updated_at c) (now_or env 0 now) = Inr stamp"
      "store_save env 0 fs (reconciled c ref rc stamp) (op_updated_at c) = Inr (fs', t)"
      by (auto simp: mgr_reconcile_success_def mgr_status_def elim!: bind_result_InrE split: if_splits)
    then have t: "t = reconciled c ref rc stamp" "valid_task (reconciled c ref rc stamp)"
      by (auto simp: store_save_Inr elim: op_store_saveE)
    have "mgr_step c t" unfolding t(1) by (rule mgr_step.reconcile [OF s(1-4) t(2)])
    with c s(5) t(1) show thesis by (intro that [of c]) (auto simp: updates_def)
  qed
qed

lemma progress_updates:
  assumes "mgr_progress env fs i ph cur tot unt msg owner lease now = Inr (fs', t)"
  obtains c where "updates env 0 fs i fs' c t" "op_owner_id c = None \<or> owner = op_owner_id c"
proof -
  let ?now = "now_or env 0 now"
  from assms obtain c moved where c: "op_store_read fs i = Inr (Some c)" "op_owner_id c = None \<or> owner = op_owner_id c"
    "update_operation_progress c ph cur tot unt msg ?now = Inr moved"
    and renew: "(case lease of None \<Rightarrow> Inr moved
        | Some l \<Rightarrow> (case owner of
            None \<Rightarrow> Inl (op_invalid ''lease renewal requires owner_id'')
          | Some w \<Rightarrow> renew_operation_ownership moved w l ?now)) = Inr t"
    and save: "store_save env 0 fs t (op_updated_at c) = Inr (fs', t)"
    unfolding mgr_progress_def bind_result_Inr_iff require_owner_Inr mgr_status_Inr store_save_Inr by blast
  have rest: "moved = t \<or> (\<exists>w l. renew_operation_ownership moved w l ?now = Inr t)"
    using renew by (auto split: option.splits)
  have "mgr_step c moved"
  proof (rule running_mgr_step [OF op_step.progress [OF c(3)]])
    show "op_state moved = op_state c \<or> op_state moved = PENDING" using c(3) by (rule update_operation_progressE) simp
  qed
  with rest renew_mgr_step have "mgr_step\<^sup>*\<^sup>* c t" by (metis r_into_rtranclp rtranclp.rtrancl_into_rtrancl)
  with c(1) save have "updates env 0 fs i fs' c t" by (simp add: updates_def)
  then show thesis using c(2) by (rule that)
qed

lemma renew_updates:
  assumes "mgr_renew_ownership env fs i owner lease now = Inr (fs', t)"
  obtains c where "updates env 0 fs i fs' c t"
proof -
  from assms obtain c where c: "op_store_read fs i = Inr (Some c)"
    "renew_operation_ownership c owner lease (now_or env 0 now) = Inr t" "store_save env 0 fs t (op_updated_at c) = Inr (fs', t)"
    by (auto simp: mgr_renew_ownership_def store_save_Inr elim!: bind_result_InrE)
  then have "updates env 0 fs i fs' c t" using renew_mgr_step [OF c(2)] by (simp add: updates_def r_into_rtranclp)
  then show thesis by (rule that)
qed

lemma requeue_updates:
  assumes "mgr_requeue env fs i now = Inr (fs', t)"
  obtains c where "updates env 0 fs i fs' c t"
proof -
  from assms obtain c where c: "op_store_read fs i = Inr (Some c)" "requeue_operation c (now_or env 0 now) = Inr t"
    "store_save env 0 fs t (op_updated_at c) = Inr (fs', t)"
    by (auto simp: mgr_requeue_def store_save_Inr elim!: bind_result_InrE)
  have "mgr_step c t"
    using c(2) by (intro running_mgr_step [OF op_step.requeue [OF c(2)]]) (elim requeue_operationE, simp)
  with c have "updates env 0 fs i fs' c t" by (simp add: updates_def r_into_rtranclp)
  then show thesis by (rule that)
qed

lemma create_peers:
  assumes "mgr_create env hex fs i knd ph cs tid wid binding expires now = Inr (fs', t)" "friendly env"
  shows "peers\<^sup>*\<^sup>* fs fs' \<and> op_state t = PENDING \<and> op_store_read fs' (op_id t) = Inr (Some t)"
proof -
  from assms(1) obtain oid where t: "new_operation_task oid knd ph (now_or env 0 now) cs tid wid binding expires = Inr t"
    "op_store_create (others env 0 fs) t = Inr fs'"
    by (auto simp: mgr_create_def Let_def elim!: bind_result_InrE)
  have cur: "current_task t" "op_state t = PENDING"
    using t(1) by (auto simp: current_task_def elim!: new_operation_taskE)
  have "peers (others env 0 fs) fs'" by (rule cas_step.create [where keeps = current_task and create = op_store_create, OF cur(1) t(2)])
  moreover have "peers\<^sup>*\<^sup>* fs (others env 0 fs)" using assms(2) by (simp add: friendly_def)
  ultimately show ?thesis using op_store.create_reads [OF t(2) cur(1)] cur(2) by auto
qed

lemma cancellation_mgr_step:
  assumes "request_operation_cancellation c now = Inr d"
  shows "mgr_step c (dec_task d)"
proof (rule running_mgr_step [OF op_step.cancel [OF assms]])
  show "op_state (dec_task d) = op_state c \<or> op_state (dec_task d) = PENDING"
    using assms by (cases rule: request_operation_cancellationE) simp_all
qed

lemma all_current_peers: "peers\<^sup>*\<^sup>* fs fs' \<Longrightarrow> op_store_read fs i = Inr (Some c) \<Longrightarrow> current_task c \<Longrightarrow>
    \<exists>c'. op_store_read fs' i = Inr (Some c') \<and> current_task c' \<and> mgr_step\<^sup>*\<^sup>* c c'"
  using mgr_store.clients_record [of fs fs' i c] by simp

lemma cancel_attempts_updates:
  assumes "cancel_attempts env i expected now n k fs = Inr (fs', d)" "friendly env"
    and "op_store_read fs i = Inr (Some r)" "current_task r"
  shows "\<exists>k' fs0 c. peers\<^sup>*\<^sup>* fs fs0 \<and> updates env k' fs0 i fs' c (dec_task d) \<and> current_task c \<and>
    request_operation_cancellation c (now_or env k' now) = Inr d"
  using assms
proof (induction env i expected now n k fs arbitrary: r rule: cancel_attempts.induct)
  case (2 env i expected now remaining k fs)
  let ?d = "request_operation_cancellation r (now_or env k now)"
  let ?next = "others env (2 * k + 1) (others env (2 * k) fs)"
  from 2(2,4) obtain d0 where d0: "?d = Inr d0" and exp: "\<not> (expected \<noteq> None \<and> expected \<noteq> Some (op_updated_at r))"
    by (auto simp: mgr_status_def elim!: bind_result_InrE split: if_splits)
  have step: "mgr_step\<^sup>*\<^sup>* r (dec_task d0)" using cancellation_mgr_step [OF d0] by blast
  show ?case
  proof (cases "dec_task d0 = r")
    case True
    with 2(2,4) d0 exp have "fs' = fs" "d = d0" by (auto simp: mgr_status_def)
    with 2(4,5) True d0 step show ?thesis by (intro exI [of _ k] exI [of _ fs] exI [of _ r]) (auto simp: updates_def)
  next
    case False
    show ?thesis
    proof (cases "store_save env k fs (dec_task d0) (op_updated_at r)")
      case (Inr p)
      with 2(2,4) d0 exp False have "fs' = fst p" "d = d0\<lparr>dec_task := snd p\<rparr>"
        by (auto simp: mgr_status_def split: prod.splits)
      moreover have "snd p = dec_task d0" using Inr by (cases p) (auto simp: store_save_Inr)
      ultimately have "d = d0" "store_save env k fs (dec_task d) (op_updated_at r) = Inr (fs', dec_task d)"
        using Inr by (auto simp: prod_eq_iff)
      with 2(4,5) d0 step show ?thesis by (intro exI [of _ k] exI [of _ fs] exI [of _ r]) (auto simp: updates_def)
    next
      case (Inl e)
      then have rec: "cancel_attempts env i expected now remaining (Suc k) ?next = Inr (fs', d)"
        and st: "case e of RepoForgeError code _ \<Rightarrow> code = ''OPERATION_STALE'' | _ \<Rightarrow> False" "remaining \<noteq> 0"
        using 2(2,4) d0 exp False by (auto simp: mgr_status_def split: if_splits)
      have "peers\<^sup>*\<^sup>* fs (others env (2 * k) fs)" "peers\<^sup>*\<^sup>* (others env (2 * k) fs) ?next"
        using 2(3) by (simp_all add: friendly_def)
      then have p: "peers\<^sup>*\<^sup>* fs ?next" by (rule rtranclp_trans)
      obtain r' where r': "op_store_read ?next i = Inr (Some r')" "current_task r'"
        using all_current_peers [OF p 2(4,5)] by blast
      from 2(1) [OF exp False Inl conjI [OF st] rec 2(3) r'] obtain k' fs0 c where
        "peers\<^sup>*\<^sup>* ?next fs0" "updates env k' fs0 i fs' c (dec_task d)" "current_task c"
        "request_operation_cancellation c (now_or env k' now) = Inr d" by blast
      with p show ?thesis by (meson rtranclp_trans)
    qed
  qed
qed simp

section \<open>Runs of the manager\<close>

text \<open>Any call of the manager that returns, except \<open>delete\<close>.\<close>

inductive mgr_call :: "mgr_env \<Rightarrow> files \<Rightarrow> files \<Rightarrow> bool" where
  create: "mgr_create env hex fs oi knd ph cs tid wid binding expires now = Inr (fs', t) \<Longrightarrow> mgr_call env fs fs'"
| start: "mgr_start env fs i receipt owner lease att now = Inr (fs', t) \<Longrightarrow> mgr_call env fs fs'"
| succeed: "mgr_succeed env fs i ref receipt owner now = Inr (fs', t) \<Longrightarrow> mgr_call env fs fs'"
| reconcile: "mgr_reconcile_success env fs i ref rc now = Inr (fs', t) \<Longrightarrow> mgr_call env fs fs'"
| fail: "mgr_fail env fs i args owner now = Inr (fs', t) \<Longrightarrow> mgr_call env fs fs'"
| cancelled: "mgr_cancelled env fs i owner now = Inr (fs', t) \<Longrightarrow> mgr_call env fs fs'"
| expire: "mgr_expire env fs i msg now = Inr (fs', t) \<Longrightarrow> mgr_call env fs fs'"
| orphan: "mgr_orphan env fs i code msg now = Inr (fs', t) \<Longrightarrow> mgr_call env fs fs'"
| progress: "mgr_progress env fs i ph cur tot unt msg owner lease now = Inr (fs', t) \<Longrightarrow> mgr_call env fs fs'"
| renew: "mgr_renew_ownership env fs i w l now = Inr (fs', t) \<Longrightarrow> mgr_call env fs fs'"
| requeue: "mgr_requeue env fs i now = Inr (fs', t) \<Longrightarrow> mgr_call env fs fs'"
| cancel: "mgr_request_cancel env fs i expected now = Inr (fs', d) \<Longrightarrow> mgr_call env fs fs'"

lemma updates_call_peers:
  assumes "updates env k fs i fs' c t" "friendly env" "all_current fs"
  shows "peers\<^sup>*\<^sup>* fs fs'"
proof -
  have "current_task c" using assms(1,3) by (auto simp: updates_def all_current_def)
  then show ?thesis using updates_peers [OF assms(1,2)] by blast
qed

lemmas save_transition_calls = mgr_start_def mgr_succeed_def mgr_fail_def mgr_cancelled_def mgr_expire_def mgr_orphan_def

lemma mgr_call_peers:
  assumes "mgr_call env fs fs'" "friendly env" "all_current fs"
  shows "peers\<^sup>*\<^sup>* fs fs'"
proof -
  note up = updates_call_peers [OF _ assms(2,3)]
  from assms(1) show ?thesis
  proof cases
    case create
    then show ?thesis using create_peers [OF _ assms(2)] by blast
  next
    case (cancel i expected now d)
    then obtain r where r: "op_store_read fs i = Inr (Some r)"
      by (auto simp: mgr_request_cancel_def CANCEL_CAS_ATTEMPTS_def numeral_3_eq_3 elim!: bind_result_InrE split: if_splits)
    then have "current_task r" using assms(3) by (simp add: all_current_def)
    from cancel_attempts_updates [OF cancel [unfolded mgr_request_cancel_def] assms(2) r this] obtain k fs0 c where
      "peers\<^sup>*\<^sup>* fs fs0" "updates env k fs0 i fs' c (dec_task d)" "current_task c" by blast
    with updates_peers [OF _ assms(2)] show ?thesis by (meson rtranclp_trans)
  qed (unfold save_transition_calls,
      (blast intro: up elim: save_transition_updates reconcile_updates progress_updates renew_updates requeue_updates)+)
qed

lemma peers_all_current:
  assumes "peers\<^sup>*\<^sup>* fs fs'" "all_current fs"
  shows "all_current fs'"
  using assms
proof (induction rule: rtranclp_induct)
  case (step y z)
  then have y: "all_current y" by blast
  from step.hyps(2) show ?case
  proof cases
    case (update i c r)
    with y have "current_task r" using mgr_store.step_keeps by (auto simp: all_current_def)
    with y update op_store.save_reads op_store.save_frame show ?thesis
      unfolding all_current_def by (metis Inr_inject option.inject)
  next
    case (create r)
    with y op_store.create_reads op_store.create_frame show ?thesis
      unfolding all_current_def by (metis Inr_inject option.inject)
  qed
qed

definition mgr_run :: "files \<Rightarrow> files \<Rightarrow> bool" where
  "mgr_run = (\<lambda>a b. \<exists>env. friendly env \<and> mgr_call env a b)\<^sup>*\<^sup>*"

lemma mgr_run_peers:
  assumes "mgr_run fs fs'" "all_current fs"
  shows "peers\<^sup>*\<^sup>* fs fs'"
  using assms(1) unfolding mgr_run_def
proof (induction rule: rtranclp_induct)
  case (step y z)
  then show ?case using mgr_call_peers peers_all_current [OF step.IH assms(2)] by (meson rtranclp_trans)
qed blast

lemma mgr_run_record:
  assumes "mgr_run fs fs'" "all_current fs" "op_store_read fs i = Inr (Some c)"
  obtains c' where "op_store_read fs' i = Inr (Some c')" "mgr_step\<^sup>*\<^sup>* c c'"
  using all_current_peers [OF mgr_run_peers [OF assms(1,2)] assms(3)] assms(2,3) that
  by (auto simp: all_current_def)

lemma claim_keeps_request:
  assumes "claim_operation_ownership t owner lease now att = Inr t'"
  shows "cancellation_requested_at t' = cancellation_requested_at t"
  using assms by (rule claim_operation_ownershipE) simp

lemma op_step_keeps_request:
  assumes "op_step t t'" "cancellation_requested_at t \<noteq> None"
  shows "cancellation_requested_at t' \<noteq> None"
  using assms(1)
proof cases
  case (transition s now args)
  then show ?thesis using assms(2) by (cases rule: transition_operationE) auto
next
  case (requeue now)
  then show ?thesis using assms(2) by (elim requeue_operationE) auto
next
  case (claim owner lease now att)
  then show ?thesis using assms(2) claim_keeps_request by simp
next
  case (renew owner lease now)
  then show ?thesis using assms(2) claim_keeps_request by (elim renew_operation_ownershipE) simp
next
  case (progress ph cur tot unt msg now)
  then show ?thesis using assms(2) by (elim update_operation_progressE) auto
next
  case (cancel now d)
  then show ?thesis using assms(2) by (cases rule: request_operation_cancellationE [OF cancel(2)]) auto
qed

definition unknown_effect :: "OperationTask \<Rightarrow> bool" where
  "unknown_effect t \<longleftrightarrow> op_state t = FAILED \<and> error_code t = Some ''EFFECT_OUTCOME_UNKNOWN''"

lemma mgr_run_overtaken:
  assumes "mgr_step\<^sup>*\<^sup>* c c'" "cancellation_requested_at c \<noteq> None" "op_state c \<noteq> SUCCEEDED"
  shows "cancellation_requested_at c' \<noteq> None \<and>
    (op_state c' = SUCCEEDED \<longrightarrow> (\<exists>u. mgr_step\<^sup>*\<^sup>* c u \<and> unknown_effect u \<and> mgr_step\<^sup>*\<^sup>* u c'))"
  using assms(1)
proof (induction rule: rtranclp_induct)
  case (step y z)
  show ?case using step.hyps(2)
  proof cases
    case domain
    then have "cancellation_requested_at z \<noteq> None" using op_step_keeps_request step.IH by blast
    moreover have "op_state y = SUCCEEDED" if "op_state z = SUCCEEDED" using domain that step.IH by blast
    ultimately show ?thesis using step.IH step.hyps(2) by (meson rtranclp.rtrancl_into_rtrancl)
  next
    case (reconcile rc now stamp ref)
    have "unknown_effect y" using reconcile by (simp add: unknown_effect_def)
    then show ?thesis using step.IH step.hyps reconcile(1) by (auto intro: r_into_rtranclp)
  qed
qed (use assms in auto)

lemma mgr_run_terminal:
  assumes "mgr_step\<^sup>*\<^sup>* c c'" "terminal_state (op_state c)" "\<not> unknown_effect c"
  shows "c' = c"
  using assms(1)
proof (induction rule: rtranclp_induct)
  case (step y z)
  show ?case using step.hyps(2)
  proof cases
    case domain
    then show ?thesis using op_run_terminal [of c z] step.IH assms(2) by blast
  next
    case reconcile
    then show ?thesis using step.IH assms(3) by (simp add: unknown_effect_def)
  qed
qed simp

section \<open>Properties\<close>

text \<open>
  Claim C25. The manager refines the record life cycle on the shared collection: whatever calls
  any number of processes make, and however their reads and writes interleave, a record once read
  is later found moved along its step relation, and if it has the same \<open>updated_at\<close> it is the same
  record; no call overwrites the result of another.
\<close>

theorem manager_refines_life_cycle:
  assumes "mgr_run fs fs'" "all_current fs" "op_store_read fs i = Inr (Some c)"
  shows "\<exists>c'. op_store_read fs' i = Inr (Some c') \<and> mgr_step\<^sup>*\<^sup>* c c' \<and> (op_updated_at c' = op_updated_at c \<longrightarrow> c' = c)"
proof -
  obtain c' where c': "op_store_read fs' i = Inr (Some c')" "mgr_step\<^sup>*\<^sup>* c c'"
    by (rule mgr_run_record [OF assms])
  with mgr.same_stamp_same_record show ?thesis by blast
qed

text \<open>
  Claim C26. A requested cancellation is never overtaken by a success: if a record with a request
  for cancellation that has not succeeded is found succeeded after any run of the manager, it was
  failed with an unknown effect in between and then reconciled.
\<close>

theorem cancellation_not_overtaken:
  assumes "mgr_run fs fs'" "all_current fs" "op_store_read fs i = Inr (Some c)"
    and "cancellation_requested_at c \<noteq> None" "op_state c \<noteq> SUCCEEDED"
    and "op_store_read fs' i = Inr (Some c')" "op_state c' = SUCCEEDED"
  shows "\<exists>u. mgr_step\<^sup>*\<^sup>* c u \<and> unknown_effect u \<and> mgr_step\<^sup>*\<^sup>* u c'"
proof -
  have "mgr_step\<^sup>*\<^sup>* c c'" using mgr_run_record [OF assms(1-3)] assms(6) by auto
  with mgr_run_overtaken [OF this assms(4,5)] assms(7) show ?thesis by blast
qed

text \<open>
  Claim C28. Finished operations are final under the manager: no run of calls changes any field of a
  terminal record, except that a failure with an unknown effect may be reconciled.
\<close>

theorem manager_keeps_terminal_records:
  assumes "mgr_run fs fs'" "all_current fs" "op_store_read fs i = Inr (Some c)"
    and "terminal_state (op_state c)" "\<not> unknown_effect c"
  shows "op_store_read fs' i = Inr (Some c)"
  using mgr_run_record [OF assms(1-3)] mgr_run_terminal [OF _ assms(4,5)] by auto

text \<open>
  Only the owner may report on an owned operation: succeed, fail, cancelled, progress and
  the renewal of the lease all raise for any other caller, and for a caller that names no owner.
\<close>

theorem manager_rejects_non_owner:
  assumes "op_store_read fs i = Inr (Some c)" "op_owner_id c = Some holder" "owner \<noteq> Some holder"
  shows "(\<exists>e. mgr_succeed env fs i ref receipt owner now = Inl e) \<and> (\<exists>e. mgr_fail env fs i args owner now = Inl e) \<and>
    (\<exists>e. mgr_cancelled env fs i owner now = Inl e) \<and>
    (\<exists>e. mgr_progress env fs i ph cur tot unt msg owner lease now = Inl e) \<and>
    (\<forall>w. owner = Some w \<longrightarrow> (\<exists>e. mgr_renew_ownership env fs i w l now = Inl e))"
proof -
  have save: "\<exists>e. mgr_save_transition env fs i s now a owner None None False = Inl e" if "s \<noteq> RUNNING" for s a
  proof (cases "mgr_save_transition env fs i s now a owner None None False")
    case (Inr p)
    then obtain fs' t where "mgr_save_transition env fs i s now a owner None None False = Inr (fs', t)" by (cases p) simp
    then show ?thesis
      by (rule save_transition_updates) (use that assms in \<open>auto simp: updates_def\<close>)
  qed blast
  have "\<exists>e. mgr_progress env fs i ph cur tot unt msg owner lease now = Inl e"
  proof (cases "mgr_progress env fs i ph cur tot unt msg owner lease now")
    case (Inr p)
    then obtain fs' t where "mgr_progress env fs i ph cur tot unt msg owner lease now = Inr (fs', t)" by (cases p) simp
    then show ?thesis by (rule progress_updates) (use assms in \<open>auto simp: updates_def\<close>)
  qed blast
  moreover have "\<exists>e. mgr_renew_ownership env fs i w l now = Inl e" if "owner = Some w" for w
  proof (cases "mgr_renew_ownership env fs i w l now")
    case (Inr p)
    then obtain t where "renew_operation_ownership c w l (now_or env 0 now) = Inr t"
      using assms(1) by (auto simp: mgr_renew_ownership_def mgr_status_def elim!: bind_result_InrE)
    then show ?thesis by (rule renew_operation_ownershipE) (use assms that in auto)
  qed blast
  ultimately show ?thesis unfolding save_transition_calls using save by simp
qed

text \<open>
  Claim C27. A cancellation that returns has settled the matter: the record it returns is the one
  stored, and that operation is finished, or does not support cancellation, or carries the request.
  This holds whatever the other processes did during its up to three attempts.
\<close>

theorem request_cancel_settles:
  assumes "mgr_request_cancel env fs i expected now = Inr (fs', d)" "friendly env" "all_current fs"
    and "op_store_read fs i = Inr (Some r)"
  shows "op_store_read fs' i = Inr (Some (dec_task d)) \<and>
    (terminal_state (op_state (dec_task d)) \<or> \<not> cancel_supported (dec_task d) \<or>
     cancellation_requested_at (dec_task d) \<noteq> None) \<and>
    (dec_requested d \<longrightarrow> \<not> terminal_state (op_state (dec_task d)) \<and> cancellation_requested_at (dec_task d) \<noteq> None)"
proof -
  have "current_task r" using assms(3,4) by (simp add: all_current_def)
  from cancel_attempts_updates [OF assms(1) [unfolded mgr_request_cancel_def] assms(2,4) this] obtain k fs0 c where
    u: "updates env k fs0 i fs' c (dec_task d)" "current_task c" and d: "request_operation_cancellation c (now_or env k now) = Inr d"
    by blast
  have "op_store_read fs' i = Inr (Some (dec_task d))" using updates_peers [OF u(1) assms(2) u(2)] by blast
  moreover have "(terminal_state (op_state (dec_task d)) \<or> \<not> cancel_supported (dec_task d) \<or>
     cancellation_requested_at (dec_task d) \<noteq> None) \<and>
    (dec_requested d \<longrightarrow> \<not> terminal_state (op_state (dec_task d)) \<and> cancellation_requested_at (dec_task d) \<noteq> None)"
    using d by (auto simp: request_operation_cancellation_def elim!: bind_result_InrE split: if_splits)
  ultimately show ?thesis by blast
qed

text \<open>
  Reconciliation is idempotent: after it returned, the same call returns the same record
  again and leaves the collection as it is.
\<close>

theorem reconcile_success_idempotent:
  assumes "mgr_reconcile_success env fs i ref rc now = Inr (fs', t)" "friendly env" "all_current fs"
  shows "mgr_reconcile_success env' fs' i ref rc now' = Inr (fs', t)"
proof -
  obtain c where u: "updates env 0 fs i fs' c t" and t: "op_state t = SUCCEEDED"
    "result_reference t = Some ref" "receipt_id t = Some rc"
    by (rule reconcile_updates [OF assms(1)])
  have "current_task c" using u assms(3) by (auto simp: updates_def all_current_def)
  with updates_peers [OF u assms(2)] have "op_store_read fs' i = Inr (Some t)" by blast
  with t show ?thesis by (simp add: mgr_reconcile_success_def mgr_status_def)
qed

text \<open>
  Claim C40. A failure with an unknown effect that had counted two or more steps without a total
  can never be reconciled: the record built for it has a total of one below its progress, and the
  store refuses it.
\<close>

theorem uncounted_progress_not_reconciled:
  assumes "op_store_read fs i = Inr (Some c)" "op_state c = FAILED"
    and "progress_total c = None \<or> progress_total c = Some 0" "2 \<le> progress_current c"
  shows "\<exists>e. mgr_reconcile_success env fs i ref rc now = Inl e"
proof (cases "mgr_reconcile_success env fs i ref rc now")
  case (Inr p)
  then obtain stamp where "store_save env 0 fs (reconciled c ref rc stamp) (op_updated_at c) = Inr p"
    using assms(1,2) by (auto simp: mgr_reconcile_success_def mgr_status_def elim!: bind_result_InrE split: if_splits)
  then have "valid_task (reconciled c ref rc stamp)"
    by (cases p) (auto simp: store_save_Inr elim: op_store_saveE)
  then show ?thesis
    using assms(3,4) by (auto simp: valid_task_iff field_checks_def validate_progress_def reconciled_def count_or_def)
qed blast

subsection \<open>Witnesses\<close>

text \<open>A process alone on a collection with one record.\<close>

definition quiet :: "nat \<Rightarrow> mgr_env" where
  "quiet h = \<lparr>now_iso = \<lambda>_. clock h, gate = \<lambda>_. None, others = \<lambda>_ s. s\<rparr>"

lemma quiet_friendly: "friendly (quiet h)"
  by (simp add: friendly_def quiet_def)

lemma quiet_simps [simp]: "now_or (quiet h) k None = clock h" "gate (quiet h) k = None" "others (quiet h) k fs = fs"
  by (simp_all add: quiet_def now_or_def)

definition only :: "OperationTask \<Rightarrow> files" where
  "only t = [(op_id t, stored_file t)]"

abbreviation fits :: "OperationTask \<Rightarrow> bool" where
  "fits t \<equiv> current_task t \<and> json_weight 0 (VDict (task_dict t)) \<le> 5000"

lemma write_only:
  assumes "json_weight 0 (VDict (task_dict t)) \<le> 5000" "fs = [] \<or> (\<exists>u. fs = only u \<and> op_id u = op_id t)"
  shows "write_file op_max_bytes fs (op_id t) (VDict (task_dict t)) = Inr (only t)"
  using write_example [OF assms(1)] assms(2) by (auto simp: only_def stored_file_def simp del: json_sorted.simps)

lemma only_read:
  assumes "fits t"
  shows "op_store_read (only t) (op_id t) = Inr (Some t)" "all_current (only t)"
proof -
  note w = write_only [of t "[]", OF conjunct2 [OF assms] disjI1 [OF refl]]
  show r: "op_store_read (only t) (op_id t) = Inr (Some t)" using op_store_write_reads(1) [OF w] assms by blast
  have "\<not> (\<exists>c. op_store_read [] j = Inr (Some c))" for j
    by (auto simp: op_store_read_def read_file_def bind_result_Inr_iff)
  then have "j = op_id t" if "op_store_read (only t) j = Inr (Some c)" for j c
    using op_store_write_reads(2) [OF w, of j] that by metis
  with r assms show "all_current (only t)" unfolding all_current_def by (metis Inr_inject option.inject)
qed

lemma only_save:
  assumes "fits t" "fits u" "op_id u = op_id t"
  shows "store_save (quiet h) k (only t) u (op_updated_at t) = Inr (only u, u)"
proof -
  have v: "valid_task u" using assms(2) by (simp add: current_task_def)
  have "operation_path (op_id u) = None" using v valid_task_id operation_id_path by blast
  moreover have "write_file op_max_bytes (only t) (op_id u) (VDict (task_dict u)) = Inr (only u)"
    using assms by (intro write_only) auto
  ultimately have "op_store_save (only t) u (op_updated_at t) = Inr (only u)"
    using v only_read(1) [OF assms(1)] assms(3) task_payload_valid [OF v] by (simp add: op_store_save_def)
  then show ?thesis by (simp add: store_save_Inr)
qed

text \<open>A failure with an unknown effect, after a request for cancellation.\<close>

abbreviation a_receipt :: string where
  "a_receipt \<equiv> ''receipt-000000000000000000000000''"

definition effect_task :: "int \<Rightarrow> OperationTask" where
  "effect_task n = (example_task FAILED ''failed'' 2 None)
     \<lparr>error_code := Some ''EFFECT_OUTCOME_UNKNOWN'', receipt_id := Some a_receipt,
      cancellation_requested_at := Some (clock 2), progress_current := n\<rparr>"

lemma completed_no_patterns: "detect_patterns ''Completed'' [] = []"
  by code_simp

lemma completed_no_entropy: "detect_entropy ''Completed'' [] = []"
  by code_simp

lemma completed_no_key: "re_sub PRIVATE_KEY (\<lambda>_. ''<redacted:private-key>'') ''Completed'' = ''Completed''"
  by code_simp

lemma completed_no_token: "re_sub OP_TOKEN_CANDIDATE (replace_token ''Completed'') ''Completed'' = ''Completed''"
  by code_simp

lemma completed_bytes: "length (utf8_encode ''Completed'') = 9" "CHR 0x00 \<notin> set ''Completed''"
  by (simp_all add: utf8_encode_def utf8_char_def)

lemmas completed_plain = completed_no_patterns completed_no_entropy completed_no_key completed_no_token completed_bytes

lemma completed_redacted: "redact_text ''Completed'' [] 2000 [] = Inr ''Completed''"
proof -
  let ?rq = "redaction_request ''Completed'' [] 2000"
  have "detect ''Completed'' ?rq = []"
    by (simp add: detect_def redaction_request_def completed_plain detect_secrets_def)
  then have none: "merge_ranges (detect ''Completed'' ?rq) dg = ([], [])" for dg by (simp add: merge_ranges_def)
  obtain rs where "merge_ranges (detect ''Completed'' ?rq) (sha256_hex (utf8_encode ''Completed'')) =
      (rs, res_findings (evaluate_egress ?rq))" "res_ranges (evaluate_egress ?rq) = rs"
    by (rule redaction_request_ranges [of "''Completed''" "[]" 2000]) (use completed_bytes in simp_all)
  then have "res_ranges (evaluate_egress ?rq) = []" "res_findings (evaluate_egress ?rq) = []"
    unfolding none by simp_all
  moreover have "egress_request_check ?rq = None"
    by (simp add: egress_request_check_def redaction_request_def bounded_opt_check_def bounded_tuple_check_def)
  ultimately show ?thesis
    by (simp add: redact_text_def completed_bytes(1) Let_def legacy_redaction_def bound_text_def)
qed

lemma completed_safe [simp]: "safely_redacted (Some ''Completed'') ''progress_message'' = None"
  by (simp add: safely_redacted_def sanitize_message_def Let_def completed_plain completed_redacted)

lemma effect_fields [simp]:
  "bounded (Some ''EFFECT_OUTCOME_UNKNOWN'') ''error_code'' 128 (Some SAFE_ID) = None"
  "bounded (Some a_receipt) ''receipt_id'' 32 (Some RECEIPT_ID) = None"
  "bounded (Some ''r2'') ''result_reference'' 256 (Some SAFE_ID) = None"
  "bounded (Some ''effects'') ''progress_unit'' 64 None = None"
  "bounded (Some ''succeeded'') ''phase'' 64 (Some SAFE_PHASE) = None"
  by code_simp+

lemma completed_bounded [simp]: "bounded_multiline (Some ''Completed'') ''progress_message'' 2000 = None"
  by (simp add: bounded_multiline_def)

lemma effect_valid:
  assumes "0 \<le> n"
  shows "current_task (effect_task n)"
proof -
  have "lifecycle_consistent (effect_task n)"
    by (simp add: lifecycle_consistent_def effect_task_def example_task_def terminal_state_def)
  then have "\<forall>c \<in> set (record_checks (effect_task n)). c = None"
    by (simp add: record_checks_def inconsistencies_Nil) (simp add: effect_task_def example_task_def)
  moreover have "\<forall>c \<in> set (field_checks (effect_task n)). c = None"
    using assms by (simp add: field_checks_def effect_task_def example_task_def OPERATION_SCHEMA_VERSION_def
        optional_timestamp_def validate_progress_def)
  ultimately show ?thesis
    by (simp add: current_task_def valid_task_iff) (simp add: effect_task_def example_task_def)
qed

lemma effect_reconciled_valid: "current_task (reconciled (effect_task 0) ''r2'' a_receipt (clock 4))"
proof -
  let ?t = "reconciled (effect_task 0) ''r2'' a_receipt (clock 4)"
  have "lifecycle_consistent ?t"
    by (simp add: lifecycle_consistent_def reconciled_def effect_task_def example_task_def terminal_state_def count_or_def)
  then have "\<forall>c \<in> set (record_checks ?t). c = None"
    by (simp add: record_checks_def inconsistencies_Nil) (simp add: reconciled_def effect_task_def example_task_def)
  moreover have "\<forall>c \<in> set (field_checks ?t). c = None"
    by (simp add: field_checks_def reconciled_def effect_task_def example_task_def OPERATION_SCHEMA_VERSION_def
        optional_timestamp_def validate_progress_def count_or_def)
  ultimately show ?thesis
    by (simp add: current_task_def valid_task_iff) (simp add: effect_task_def example_task_def)
qed

lemma effect_weights:
  "json_weight 0 (VDict (task_dict (effect_task 0))) \<le> 5000"
  "json_weight 0 (VDict (task_dict (effect_task 2))) \<le> 5000"
  "json_weight 0 (VDict (task_dict (reconciled (effect_task 0) ''r2'' a_receipt (clock 4)))) \<le> 5000"
  "json_weight 0 (VDict (task_dict (pending_task\<lparr>cancellation_requested_at := Some (clock 4), op_updated_at := clock 4\<rparr>))) \<le> 5000"
  by (simp_all add: task_dict_def reconciled_def effect_task_def example_task_def of_opt_def of_opt_int_def binding_payload_def
      of_strings_def length_clock default_error_code_def str_of_int_def str_of_nat.simps count_or_def)

abbreviation reconciled_task :: OperationTask where
  "reconciled_task \<equiv> reconciled (effect_task 0) ''r2'' a_receipt (clock 4)"

abbreviation an_id :: string where
  "an_id \<equiv> ''op-000000000000000000000000''"

lemma effect_simps [simp]:
  "op_id (effect_task n) = an_id" "op_state (effect_task n) = FAILED" "op_updated_at (effect_task n) = clock 2"
  "error_code (effect_task n) = Some ''EFFECT_OUTCOME_UNKNOWN''" "receipt_id (effect_task n) = Some a_receipt"
  "cancellation_requested_at (effect_task n) = Some (clock 2)" "progress_total (effect_task n) = None"
  "progress_current (effect_task n) = n"
  by (simp_all add: effect_task_def example_task_def)

lemma effect_fits: "fits (effect_task 0)" "fits (effect_task 2)" "fits reconciled_task"
  using effect_valid effect_reconciled_valid effect_weights by simp_all

lemma effect_reconciles:
  "mgr_reconcile_success (quiet 4) (only (effect_task 0)) an_id ''r2'' a_receipt None = Inr (only reconciled_task, reconciled_task)"
proof -
  have s: "store_save (quiet 4) 0 (only (effect_task 0)) reconciled_task (clock 2) = Inr (only reconciled_task, reconciled_task)"
    using only_save [OF effect_fits(1,3)] by simp
  show ?thesis using only_read(1) [OF effect_fits(1)]
    by (simp add: mgr_reconcile_success_def mgr_status_def) (rule s)
qed

lemma effect_run: "mgr_run (only (effect_task 0)) (only reconciled_task)"
  unfolding mgr_run_def using mgr_call.reconcile [OF effect_reconciles] quiet_friendly by blast

theorem manager_refines_life_cycle_witness:
  "mgr_run (only (effect_task 0)) (only reconciled_task) \<and> op_store_read (only (effect_task 0)) an_id = Inr (Some (effect_task 0)) \<and>
   (\<exists>c'. op_store_read (only reconciled_task) an_id = Inr (Some c') \<and> mgr_step\<^sup>*\<^sup>* (effect_task 0) c')"
proof -
  have r: "op_store_read (only (effect_task 0)) an_id = Inr (Some (effect_task 0))"
    using only_read(1) [OF effect_fits(1)] by simp
  with manager_refines_life_cycle [OF effect_run only_read(2) [OF effect_fits(1)] r] effect_run show ?thesis by blast
qed

theorem cancellation_not_overtaken_witness:
  "\<exists>u. mgr_step\<^sup>*\<^sup>* (effect_task 0) u \<and> unknown_effect u \<and> mgr_step\<^sup>*\<^sup>* u reconciled_task"
proof (rule cancellation_not_overtaken [OF effect_run only_read(2) [OF effect_fits(1)]])
  show "op_store_read (only (effect_task 0)) an_id = Inr (Some (effect_task 0))"
    using only_read(1) [OF effect_fits(1)] by simp
  show "op_store_read (only reconciled_task) an_id = Inr (Some reconciled_task)"
    using only_read(1) [OF effect_fits(3)] by simp
qed simp_all

theorem manager_keeps_terminal_records_witness:
  "op_store_read (only reconciled_task) an_id = Inr (Some reconciled_task) \<and>
   mgr_run (only reconciled_task) (only reconciled_task) \<and> terminal_state (op_state reconciled_task) \<and>
   \<not> unknown_effect reconciled_task"
proof -
  have run: "mgr_run (only reconciled_task) (only reconciled_task)" by (simp add: mgr_run_def)
  have r: "op_store_read (only reconciled_task) an_id = Inr (Some reconciled_task)"
    using only_read(1) [OF effect_fits(3)] by simp
  have t: "terminal_state (op_state reconciled_task)" "\<not> unknown_effect reconciled_task"
    by (simp_all add: terminal_state_def unknown_effect_def)
  from manager_keeps_terminal_records [OF run only_read(2) [OF effect_fits(3)] r t] run t show ?thesis by blast
qed

theorem reconcile_success_idempotent_witness:
  "mgr_reconcile_success (quiet 5) (only reconciled_task) an_id ''r2'' a_receipt None = Inr (only reconciled_task, reconciled_task)"
  by (rule reconcile_success_idempotent [OF effect_reconciles quiet_friendly only_read(2) [OF effect_fits(1)]])

theorem uncounted_progress_not_reconciled_witness:
  "op_store_read (only (effect_task 2)) an_id = Inr (Some (effect_task 2)) \<and>
   (\<exists>e. mgr_reconcile_success (quiet 4) (only (effect_task 2)) an_id ''r2'' a_receipt None = Inl e)"
proof -
  have r: "op_store_read (only (effect_task 2)) an_id = Inr (Some (effect_task 2))"
    using only_read(1) [OF effect_fits(2)] by simp
  with uncounted_progress_not_reconciled [OF r] show ?thesis by simp
qed

text \<open>An operation owned by a worker, and one still queued.\<close>

abbreviation owned_task :: OperationTask where
  "owned_task \<equiv> example_task RUNNING ''running'' 2 (Some (''w1'', 3))"

lemma owned_fits: "fits owned_task"
proof -
  have "valid_task owned_task" by (rule example_valid; simp)
  moreover have "json_weight 0 (VDict (task_dict owned_task)) \<le> 5000"
    by (simp add: task_dict_def example_task_def of_opt_def of_opt_int_def binding_payload_def
        of_strings_def length_clock default_error_code_def str_of_int_def str_of_nat.simps)
  ultimately show ?thesis unfolding current_task_def by (simp add: example_task_def [of _ _ 2])
qed

theorem manager_rejects_non_owner_witness:
  "op_store_read (only owned_task) an_id = Inr (Some owned_task) \<and>
   (\<exists>e. mgr_succeed (quiet 4) (only owned_task) an_id ''r2'' None (Some ''w2'') None = Inl e)"
proof -
  have r: "op_store_read (only owned_task) an_id = Inr (Some owned_task)"
    using only_read(1) [OF owned_fits] by (simp add: example_task_def [of _ _ 2])
  with manager_rejects_non_owner [OF r, of "''w1''" "Some ''w2''"] show ?thesis by (simp add: example_task_def [of _ _ 2])
qed

abbreviation requested_task :: OperationTask where
  "requested_task \<equiv> pending_task\<lparr>cancellation_requested_at := Some (clock 4), op_updated_at := clock 4\<rparr>"

lemma pending_fits: "fits pending_task"
  using example_current example_weight by simp

lemma requested_fits: "fits requested_task"
proof -
  have "lifecycle_consistent requested_task"
    by (simp add: lifecycle_consistent_def example_task_def terminal_state_def default_error_code_def)
  then have "\<forall>c \<in> set (record_checks requested_task). c = None"
    by (simp add: record_checks_def inconsistencies_Nil) (simp add: example_task_def)
  moreover have "\<forall>c \<in> set (field_checks requested_task). c = None"
    by (simp add: field_checks_def example_task_def OPERATION_SCHEMA_VERSION_def optional_timestamp_def default_error_code_def)
  ultimately show ?thesis
    using effect_weights(4) by (simp add: current_task_def valid_task_iff) (simp add: example_task_def)
qed

lemma example_cancel:
  "mgr_request_cancel (quiet 4) (only pending_task) an_id None None =
     Inr (only requested_task, \<lparr>dec_task = requested_task, dec_requested = True, dec_already_requested = False,
       dec_already_terminal = False, dec_cancel_supported = True\<rparr>)"
proof -
  have r: "op_store_read (only pending_task) an_id = Inr (Some pending_task)"
    using only_read(1) [OF pending_fits] by (simp add: example_task_def)
  have f: "op_state pending_task = PENDING" "cancel_supported pending_task" "cancellation_requested_at pending_task = None"
    "op_updated_at pending_task = clock 0" "op_id pending_task = an_id"
    by (simp_all add: example_task_def)
  have v: "valid_task pending_task" "valid_task requested_task"
    using pending_fits requested_fits by (simp_all add: current_task_def)
  have d: "request_operation_cancellation pending_task (clock 4) =
      Inr \<lparr>dec_task = requested_task, dec_requested = True, dec_already_requested = False,
        dec_already_terminal = False, dec_cancel_supported = True\<rparr>"
    using v f by (simp add: request_operation_cancellation_def terminal_state_def)
  have s: "store_save (quiet 4) 0 (only pending_task) requested_task (clock 0) = Inr (only requested_task, requested_task)"
    using only_save [OF pending_fits requested_fits] f by simp
  have "requested_task \<noteq> pending_task" using f(3) by (metis OperationTask.select_convs(17) OperationTask.surjective OperationTask.update_convs(17,19) option.distinct(1))
  then show ?thesis
    by (simp add: mgr_request_cancel_def CANCEL_CAS_ATTEMPTS_def numeral_3_eq_3 mgr_status_def r d s f(4))
qed

theorem request_cancel_settles_witness:
  "op_store_read (only requested_task) an_id = Inr (Some requested_task) \<and> cancellation_requested_at requested_task \<noteq> None"
proof -
  have "op_store_read (only pending_task) an_id = Inr (Some pending_task)"
    using only_read(1) [OF pending_fits] by (simp add: example_task_def)
  from request_cancel_settles [OF example_cancel quiet_friendly only_read(2) [OF pending_fits] this] show ?thesis by simp
qed

end
