(* ===== verification/State_Repository.thy ===== *)
theory State_Repository
  imports Operation_Store
begin

text \<open>
  adapters/persistence/json\_state\_repository.py over domain/durable\_state.py and
  domain/versioning.py: typed state envelopes with revision compare-and-swap. The codec, the id
  validator and the size bound of a repository are the fields of a configuration record.
\<close>

record 'a state_repo =
  sr_encode :: "'a \<Rightarrow> pydict"
  sr_decode :: "pydict \<Rightarrow> 'a result"
  sr_version :: int
  sr_id_validator :: "string \<Rightarrow> exn option"
  sr_max_bytes :: nat

record 'a StateEnvelope =
  env_record_id :: string
  env_schema_version :: int
  env_revision :: int
  env_value :: 'a

definition state_error :: "string \<Rightarrow> string \<Rightarrow> exn" where
  "state_error code m = RepoForgeError code m"

text \<open>\<open>Revision.__post_init__\<close> and \<open>Revision.next\<close>\<close>

definition make_revision :: "int \<Rightarrow> int result" where
  "make_revision v = (if v \<le> 0 then Inl (ValueError ''revision must be a positive integer'') else Inr v)"

definition revision_next :: "int \<Rightarrow> int result" where
  "revision_next v = make_revision (v + 1)"

definition envelope_dict :: "'a state_repo \<Rightarrow> 'a StateEnvelope \<Rightarrow> pydict" where
  "envelope_dict cfg e =
     [(''payload'', VDict (sr_encode cfg (env_value e))), (''record_id'', VStr (env_record_id e)),
      (''revision'', VInt (env_revision e)), (''schema_version'', VInt (env_schema_version e))]"

definition encode_envelope :: "'a state_repo \<Rightarrow> 'a StateEnvelope \<Rightarrow> pyval result" where
  "encode_envelope cfg e =
     (if sr_max_bytes cfg < encoded_size (VDict (envelope_dict cfg e)) then Inl too_large
      else Inr (VDict (envelope_dict cfg e)))"

definition ENVELOPE_FIELDS :: "string list" where
  "ENVELOPE_FIELDS = [''payload'', ''record_id'', ''revision'', ''schema_version'']"

definition decode_envelope :: "'a state_repo \<Rightarrow> json_file \<Rightarrow> string \<Rightarrow> 'a StateEnvelope result" where
  "decode_envelope cfg f expected =
     (if sr_max_bytes cfg < file_size f then Inl too_large
      else case f of
        NotJson \<Rightarrow> Inl (state_error ''STATE_CORRUPT'' ''State record is not valid UTF-8 JSON'')
      | Json (VDict raw) \<Rightarrow>
          if \<not> same_keys raw ENVELOPE_FIELDS
          then Inl (state_error ''STATE_CORRUPT'' ''State record fields do not match the envelope'')
          else if dict_get_none raw ''record_id'' \<noteq> VStr expected
          then Inl (state_error ''STATE_CORRUPT'' ''State record identity does not match its filename'')
          else (case dict_get_none raw ''schema_version'' of
            VInt version \<Rightarrow>
              if version \<noteq> sr_version cfg
              then Inl (state_error ''STATE_SCHEMA_UNSUPPORTED'' (''Unsupported state schema version: '' @ str_of_int version))
              else (case dict_get_none raw ''revision'' of
                VInt rv \<Rightarrow>
                  (case dict_get_none raw ''payload'' of
                     VDict p \<Rightarrow>
                       (case bind_result (sr_decode cfg p) (\<lambda>v. bind_result (make_revision rv) (\<lambda>r. Inr (v, r))) of
                          Inr (v, r) \<Rightarrow> Inr \<lparr>env_record_id = expected, env_schema_version = sr_version cfg,
                                          env_revision = r, env_value = v\<rparr>
                        | Inl e \<Rightarrow> Inl (case e of KeyError _ \<Rightarrow> e | OverflowError _ \<Rightarrow> e | RuntimeError _ \<Rightarrow> e | StopIteration \<Rightarrow> e
                                       | _ \<Rightarrow> state_error ''STATE_CORRUPT'' ''State record cannot be decoded safely''))
                   | _ \<Rightarrow> Inl (state_error ''STATE_CORRUPT'' ''State payload must be an object''))
              | _ \<Rightarrow> Inl (state_error ''STATE_CORRUPT'' ''State revision is invalid''))
          | _ \<Rightarrow> Inl (state_error ''STATE_CORRUPT'' ''State schema version is invalid''))
      | Json _ \<Rightarrow> Inl (state_error ''STATE_CORRUPT'' ''State record fields do not match the envelope''))"

section \<open>Operations\<close>

definition repo_id :: "'a state_repo \<Rightarrow> string \<Rightarrow> unit result" where
  "repo_id cfg i = checked (record_id_check (sr_id_validator cfg) i) ()"

definition repo_read :: "'a state_repo \<Rightarrow> files \<Rightarrow> string \<Rightarrow> 'a StateEnvelope option result" where
  "repo_read cfg fs i =
     bind_result (repo_id cfg i) (\<lambda>_.
     bind_result (read_file (sr_max_bytes cfg) fs i) (\<lambda>data.
     case data of None \<Rightarrow> Inr None
     | Some f \<Rightarrow> bind_result (decode_envelope cfg f i) (\<lambda>e. Inr (Some e))))"

text \<open>\<open>read_raw_envelope\<close>: the checked envelope as a dictionary, its payload not decoded.\<close>

definition repo_read_raw :: "'a state_repo \<Rightarrow> files \<Rightarrow> string \<Rightarrow> pydict option result" where
  "repo_read_raw cfg fs i =
     bind_result (repo_id cfg i) (\<lambda>_.
     bind_result (read_file (sr_max_bytes cfg) fs i) (\<lambda>data.
     case data of
       None \<Rightarrow> Inr None
     | Some NotJson \<Rightarrow> Inl (state_error ''STATE_CORRUPT'' ''State record is not valid UTF-8 JSON'')
     | Some (Json (VDict raw)) \<Rightarrow>
         checked (first_error
           [raise_if (\<not> same_keys raw ENVELOPE_FIELDS)
              (state_error ''STATE_CORRUPT'' ''State record fields do not match the envelope''),
            raise_if (dict_get_none raw ''record_id'' \<noteq> VStr i)
              (state_error ''STATE_CORRUPT'' ''State record identity does not match its filename''),
            raise_if (type_name (dict_get_none raw ''revision'') \<noteq> ''int'')
              (state_error ''STATE_CORRUPT'' ''State revision is invalid''),
            raise_if (type_name (dict_get_none raw ''schema_version'') \<noteq> ''int'')
              (state_error ''STATE_CORRUPT'' ''State schema version is invalid''),
            raise_if (type_name (dict_get_none raw ''payload'') \<noteq> ''dict'')
              (state_error ''STATE_CORRUPT'' ''State payload must be an object'')]) (Some raw)
     | Some (Json _) \<Rightarrow> Inl (state_error ''STATE_CORRUPT'' ''State record fields do not match the envelope'')))"

definition new_envelope :: "'a state_repo \<Rightarrow> string \<Rightarrow> int \<Rightarrow> 'a \<Rightarrow> 'a StateEnvelope" where
  "new_envelope cfg i r v =
     \<lparr>env_record_id = i, env_schema_version = sr_version cfg, env_revision = r, env_value = v\<rparr>"

text \<open>A mutating operation returns the changed files and its value.\<close>

definition repo_create :: "'a state_repo \<Rightarrow> files \<Rightarrow> string \<Rightarrow> 'a \<Rightarrow> (files \<times> 'a StateEnvelope) result" where
  "repo_create cfg fs i v =
     bind_result (repo_id cfg i) (\<lambda>_.
     bind_result (encode_envelope cfg (new_envelope cfg i 1 v)) (\<lambda>data.
     if map_of fs i \<noteq> None
     then Inl (state_error ''ALREADY_EXISTS'' (''State record already exists: '' @ i))
     else bind_result (write_file (sr_max_bytes cfg) fs i data) (\<lambda>fs'. Inr (fs', new_envelope cfg i 1 v))))"

definition repo_create_or_read_equal :: "'a state_repo \<Rightarrow> files \<Rightarrow> string \<Rightarrow> 'a \<Rightarrow> (files \<times> 'a StateEnvelope) result" where
  "repo_create_or_read_equal cfg fs i v =
     bind_result (repo_id cfg i) (\<lambda>_.
     bind_result (encode_envelope cfg (new_envelope cfg i 1 v)) (\<lambda>data.
     bind_result (repo_read cfg fs i) (\<lambda>current.
     case current of
       Some c \<Rightarrow> if env_value c = v then Inr (fs, c)
                 else Inl (state_error ''ALREADY_EXISTS'' (''State record already exists: '' @ i))
     | None \<Rightarrow> bind_result (write_file (sr_max_bytes cfg) fs i data) (\<lambda>fs'. Inr (fs', new_envelope cfg i 1 v)))))"

definition repo_save :: "'a state_repo \<Rightarrow> files \<Rightarrow> string \<Rightarrow> 'a \<Rightarrow> int \<Rightarrow> (files \<times> 'a StateEnvelope) result" where
  "repo_save cfg fs i v expected_revision =
     bind_result (repo_id cfg i) (\<lambda>_.
     bind_result (repo_read cfg fs i) (\<lambda>current.
     case current of
       None \<Rightarrow> Inl (state_error ''STATE_NOT_FOUND'' (''State record not found: '' @ i))
     | Some c \<Rightarrow>
         if env_revision c \<noteq> expected_revision
         then Inl (state_error ''STATE_STALE'' (''State record changed from revision '' @
                str_of_int expected_revision @ '' to '' @ str_of_int (env_revision c)))
         else bind_result (revision_next (env_revision c)) (\<lambda>r.
           bind_result (encode_envelope cfg (new_envelope cfg i r v)) (\<lambda>data.
           bind_result (write_file (sr_max_bytes cfg) fs i data) (\<lambda>fs'. Inr (fs', new_envelope cfg i r v))))))"

definition repo_delete :: "'a state_repo \<Rightarrow> files \<Rightarrow> string \<Rightarrow> files result" where
  "repo_delete cfg fs i = bind_result (repo_id cfg i) (\<lambda>_. Inr (delete_file fs i))"

definition repo_delete_if_revision :: "'a state_repo \<Rightarrow> files \<Rightarrow> string \<Rightarrow> int \<Rightarrow> (files \<times> bool) result" where
  "repo_delete_if_revision cfg fs i expected_revision =
     bind_result (repo_id cfg i) (\<lambda>_.
     bind_result (repo_read cfg fs i) (\<lambda>current.
     case current of None \<Rightarrow> Inr (fs, False)
     | Some c \<Rightarrow> if env_revision c \<noteq> expected_revision then Inr (fs, False) else Inr (delete_file fs i, True)))"

definition repo_compare_and_delete :: "'a state_repo \<Rightarrow> files \<Rightarrow> string \<Rightarrow> int \<Rightarrow> 'a \<Rightarrow> (files \<times> bool) result" where
  "repo_compare_and_delete cfg fs i expected_revision expected_value =
     bind_result (repo_id cfg i) (\<lambda>_.
     bind_result (repo_read cfg fs i) (\<lambda>current.
     case current of None \<Rightarrow> Inr (fs, False)
     | Some c \<Rightarrow> if env_revision c \<noteq> expected_revision \<or> env_value c \<noteq> expected_value then Inr (fs, False)
                 else Inr (delete_file fs i, True)))"

definition repo_list_ids :: "files \<Rightarrow> int \<Rightarrow> nat \<Rightarrow> (string list \<times> bool) result" where
  "repo_list_ids fs max_records offset =
     (if max_records \<le> 0 then Inl (state_error ''STATE_INVALID'' ''max_records must be a positive integer'')
      else Inr (list_ids [] fs (nat max_records) offset))"

record 'a StatePage =
  sp_records :: "'a StateEnvelope list"
  sp_scan_truncated :: bool
  sp_unreadable :: "string list"

definition repo_list :: "'a state_repo \<Rightarrow> files \<Rightarrow> int \<Rightarrow> 'a StatePage result" where
  "repo_list cfg fs max_records =
     (if max_records < 1 \<or> 2000 < max_records
      then Inl (state_error ''STATE_INVALID'' ''max_records must be between 1 and 2000'')
      else let (ids, cut) = list_ids [] fs (nat max_records) 0;
               reads = map (\<lambda>i. (i, repo_read cfg fs i)) ids
           in Inr \<lparr>sp_records = rev (sort_key (\<lambda>e. (env_revision e, env_record_id e))
                       (concat (map (\<lambda>(i, r). case r of Inr (Some t) \<Rightarrow> [t] | _ \<Rightarrow> []) reads))),
                   sp_scan_truncated = cut,
                   sp_unreadable = sort (concat (map (\<lambda>(i, r). case r of Inl _ \<Rightarrow> [i] | _ \<Rightarrow> []) reads))\<rparr>)"

section \<open>Lemmas\<close>

text \<open>What a codec must give: decoding what was written returns the value.\<close>

definition codec_keeps :: "'a state_repo \<Rightarrow> 'a \<Rightarrow> bool" where
  "codec_keeps cfg v \<longleftrightarrow> (\<forall>p. json_sorted (VDict (sr_encode cfg v)) = VDict p \<longrightarrow> sr_decode cfg p = Inr v)"

lemma envelope_distinct:
  "distinct (map fst [(''payload'', a), (''record_id'', b), (''revision'', c), (''schema_version'', d)])"
  by simp

lemma decode_written:
  assumes "codec_keeps cfg v" "0 < r" "encoded_size (VDict (envelope_dict cfg (new_envelope cfg i r v))) \<le> sr_max_bytes cfg"
  shows "decode_envelope cfg (Json (json_sorted (VDict (envelope_dict cfg (new_envelope cfg i r v))))) i =
    Inr (new_envelope cfg i r v)"
proof -
  let ?kvs = "envelope_dict cfg (new_envelope cfg i r v)"
  let ?raw = "map (\<lambda>kv. (fst kv, json_sorted (snd kv))) (sort_key fst ?kvs)"
  have d: "distinct (map fst ?kvs)" by (simp add: envelope_dict_def)
  have j: "json_sorted (VDict ?kvs) = VDict ?raw" by (simp only: json_sorted.simps)
  have g: "dict_get_none ?raw k = json_sorted (dict_get_none ?kvs k)" for k by (rule dict_get_none_sorted [OF d])
  have keys: "same_keys ?raw ENVELOPE_FIELDS"
    unfolding same_keys_def keys_sorted by (simp add: envelope_dict_def ENVELOPE_FIELDS_def)
  obtain p where p: "json_sorted (VDict (sr_encode cfg v)) = VDict p" by simp
  have gets: "dict_get_none ?raw ''record_id'' = VStr i" "dict_get_none ?raw ''schema_version'' = VInt (sr_version cfg)"
    "dict_get_none ?raw ''revision'' = VInt r" "dict_get_none ?raw ''payload'' = VDict p"
    unfolding g using p by (simp_all add: envelope_dict_def new_envelope_def dict_get_none_def del: json_sorted.simps(2))
  have "sr_decode cfg p = Inr v" using assms(1) p by (simp add: codec_keeps_def)
  moreover have "file_size (Json (VDict ?raw)) \<le> sr_max_bytes cfg"
    using assms(3) by (simp add: file_size_def flip: j del: json_sorted.simps)
  ultimately show ?thesis
    unfolding decode_envelope_def j using keys gets assms(2)
    by (simp add: make_revision_def new_envelope_def)
qed

lemma read_written:
  assumes "codec_keeps cfg v" "0 < r" "repo_id cfg i = Inr ()"
    and "encode_envelope cfg (new_envelope cfg i r v) = Inr data" "write_file (sr_max_bytes cfg) fs i data = Inr fs'"
  shows "repo_read cfg fs' i = Inr (Some (new_envelope cfg i r v))"
    and "j \<noteq> i \<Longrightarrow> repo_read cfg fs' j = repo_read cfg fs j"
proof -
  have data: "data = VDict (envelope_dict cfg (new_envelope cfg i r v))"
    "encoded_size (VDict (envelope_dict cfg (new_envelope cfg i r v))) \<le> sr_max_bytes cfg"
    using assms(4) by (auto simp: encode_envelope_def split: if_splits)
  from decode_written [OF assms(1,2) data(2)] show "repo_read cfg fs' i = Inr (Some (new_envelope cfg i r v))"
    using assms(3) by (simp add: repo_read_def read_after_write [OF assms(5)] data(1) del: json_sorted.simps)
  show "j \<noteq> i \<Longrightarrow> repo_read cfg fs' j = repo_read cfg fs j"
    by (simp add: repo_read_def read_after_write [OF assms(5)])
qed

lemma repo_readE:
  assumes "repo_read cfg fs i = Inr (Some c)"
  obtains "repo_id cfg i = Inr ()" "env_record_id c = i" "0 < env_revision c" "env_schema_version c = sr_version cfg"
  using assms that
  by (auto simp: repo_read_def decode_envelope_def make_revision_def elim!: bind_result_InrE
      split: option.splits if_splits json_file.splits pyval.splits sum.splits)

lemma repo_saveE:
  assumes "repo_save cfg fs i v r = Inr (fs', e)"
  obtains c data where "repo_id cfg i = Inr ()" "repo_read cfg fs i = Inr (Some c)" "env_revision c = r"
    "e = new_envelope cfg i (r + 1) v" "encode_envelope cfg e = Inr data"
    "write_file (sr_max_bytes cfg) fs i data = Inr fs'"
  using assms that
  by (auto simp: repo_save_def revision_next_def make_revision_def elim!: bind_result_InrE
      split: option.splits if_splits)

lemma repo_createE:
  assumes "repo_create cfg fs i v = Inr (fs', e)"
  obtains data where "repo_id cfg i = Inr ()" "map_of fs i = None" "e = new_envelope cfg i 1 v"
    "encode_envelope cfg e = Inr data" "write_file (sr_max_bytes cfg) fs i data = Inr fs'"
  using assms that by (auto simp: repo_create_def elim!: bind_result_InrE split: if_splits)

lemma repo_save_reads:
  assumes "repo_save cfg fs i v r = Inr (fs', e)" "codec_keeps cfg v"
  shows "repo_read cfg fs' i = Inr (Some (new_envelope cfg i (r + 1) v))"
    and "j \<noteq> i \<Longrightarrow> repo_read cfg fs' j = repo_read cfg fs j"
    and "\<exists>c. repo_read cfg fs i = Inr (Some c) \<and> env_revision c = r"
    and "e = new_envelope cfg i (r + 1) v"
proof -
  obtain c data where *: "repo_id cfg i = Inr ()" "repo_read cfg fs i = Inr (Some c)" "env_revision c = r"
    "e = new_envelope cfg i (r + 1) v" "encode_envelope cfg (new_envelope cfg i (r + 1) v) = Inr data"
    "write_file (sr_max_bytes cfg) fs i data = Inr fs'"
    by (rule repo_saveE [OF assms(1)]) simp
  have "0 < r + 1" using *(2,3) by (auto elim!: repo_readE)
  note rw = read_written [OF assms(2) this *(1,5,6)]
  from rw show "repo_read cfg fs' i = Inr (Some (new_envelope cfg i (r + 1) v))"
    "j \<noteq> i \<Longrightarrow> repo_read cfg fs' j = repo_read cfg fs j" by blast+
  from * show "\<exists>c. repo_read cfg fs i = Inr (Some c) \<and> env_revision c = r" "e = new_envelope cfg i (r + 1) v" by blast+
qed

lemma repo_create_reads:
  assumes "repo_create cfg fs i v = Inr (fs', e)" "codec_keeps cfg v"
  shows "repo_read cfg fs' i = Inr (Some (new_envelope cfg i 1 v))"
    and "j \<noteq> i \<Longrightarrow> repo_read cfg fs' j = repo_read cfg fs j"
    and "repo_read cfg fs i = Inr None"
proof -
  obtain data where *: "repo_id cfg i = Inr ()" "map_of fs i = None"
    "encode_envelope cfg (new_envelope cfg i 1 v) = Inr data" "write_file (sr_max_bytes cfg) fs i data = Inr fs'"
    by (rule repo_createE [OF assms(1)]) simp
  note rw = read_written [OF assms(2) zero_less_one *(1,3,4)]
  from rw show "repo_read cfg fs' i = Inr (Some (new_envelope cfg i 1 v))"
    "j \<noteq> i \<Longrightarrow> repo_read cfg fs' j = repo_read cfg fs j" by blast+
  from *(1,2) show "repo_read cfg fs i = Inr None" by (simp add: repo_read_def read_file_def)
qed

text \<open>Deleting against a revision, and against a revision and a value.\<close>

lemma repo_delete_guarded:
  assumes "repo_compare_and_delete cfg fs i r v = Inr (fs', True)"
  shows "\<exists>c. repo_read cfg fs i = Inr (Some c) \<and> env_revision c = r \<and> env_value c = v"
    "repo_read cfg fs' i = Inr None" "j \<noteq> i \<Longrightarrow> repo_read cfg fs' j = repo_read cfg fs j"
proof -
  obtain c where c: "repo_id cfg i = Inr ()" "repo_read cfg fs i = Inr (Some c)" "env_revision c = r" "env_value c = v"
    "fs' = delete_file fs i"
    using assms by (auto simp: repo_compare_and_delete_def elim!: bind_result_InrE split: option.splits if_splits)
  then show "\<exists>c. repo_read cfg fs i = Inr (Some c) \<and> env_revision c = r \<and> env_value c = v"
    "repo_read cfg fs' i = Inr None" "j \<noteq> i \<Longrightarrow> repo_read cfg fs' j = repo_read cfg fs j"
    by (auto simp: repo_read_def read_file_def map_of_delete_file)
qed

lemma repo_save_frame:
  "repo_save cfg fs i v r = Inr (fs', e) \<Longrightarrow> j \<noteq> i \<Longrightarrow> repo_read cfg fs' j = repo_read cfg fs j"
  by (elim repo_saveE) (simp add: repo_read_def read_after_write)

lemma repo_create_frame:
  "repo_create cfg fs i v = Inr (fs', e) \<Longrightarrow> j \<noteq> i \<Longrightarrow> repo_read cfg fs' j = repo_read cfg fs j"
  by (elim repo_createE) (simp add: repo_read_def read_after_write)

lemma repo_list_reads:
  assumes "repo_list cfg fs n = Inr p" "e \<in> set (sp_records p)"
  shows "repo_read cfg fs (env_record_id e) = Inr (Some e)"
proof -
  from assms obtain i where "repo_read cfg fs i = Inr (Some e)"
    by (auto simp: repo_list_def Let_def split: if_splits prod.splits sum.splits option.splits)
  then show ?thesis by (auto elim: repo_readE)
qed

lemma decode_envelope_value:
  assumes "decode_envelope cfg (Json (VDict raw)) i = Inr e"
  obtains p where "dict_get_none raw ''payload'' = VDict p" "sr_decode cfg p = Inr (env_value e)"
  using assms that
  by (auto simp: decode_envelope_def elim!: bind_result_InrE split: if_splits pyval.splits sum.splits)

section \<open>Interference\<close>

text \<open>What other processes may do to the collection between two reads: records stay, their
  revisions do not go back, and a record with an unchanged revision is unchanged.\<close>

definition advances :: "'a state_repo \<Rightarrow> files \<Rightarrow> files \<Rightarrow> bool" where
  "advances cfg fs fs' \<longleftrightarrow> (\<forall>i e. repo_read cfg fs i = Inr (Some e) \<longrightarrow>
     (\<exists>e'. repo_read cfg fs' i = Inr (Some e') \<and> env_revision e \<le> env_revision e' \<and>
        (env_revision e' = env_revision e \<longrightarrow> e' = e)))"

lemma advances_refl: "advances cfg fs fs"
  by (simp add: advances_def)

lemma advances_trans:
  assumes "advances cfg a b" "advances cfg b c"
  shows "advances cfg a c"
  unfolding advances_def
proof (intro allI impI)
  fix i e assume "repo_read cfg a i = Inr (Some e)"
  then obtain e' where e': "repo_read cfg b i = Inr (Some e')" "env_revision e \<le> env_revision e'"
    "env_revision e' = env_revision e \<longrightarrow> e' = e"
    using assms(1) unfolding advances_def by blast
  from e'(1) obtain e'' where "repo_read cfg c i = Inr (Some e'')" "env_revision e' \<le> env_revision e''"
    "env_revision e'' = env_revision e' \<longrightarrow> e'' = e'"
    using assms(2) unfolding advances_def by blast
  with e' show "\<exists>e'. repo_read cfg c i = Inr (Some e') \<and> env_revision e \<le> env_revision e' \<and>
        (env_revision e' = env_revision e \<longrightarrow> e' = e)" by auto
qed

lemma repo_save_advances:
  assumes "repo_save cfg fs i w r = Inr (fs', e)" "codec_keeps cfg w"
  shows "advances cfg fs fs'"
  unfolding advances_def
proof (intro allI impI)
  fix j d assume d: "repo_read cfg fs j = Inr (Some d)"
  note sv = repo_save_reads [OF assms(1) assms(2)]
  show "\<exists>d'. repo_read cfg fs' j = Inr (Some d') \<and> env_revision d \<le> env_revision d' \<and>
        (env_revision d' = env_revision d \<longrightarrow> d' = d)"
  proof (cases "j = i")
    case True
    with sv(3) d have "env_revision d = r" by auto
    with True sv(1) show ?thesis by (simp add: new_envelope_def)
  next
    case False
    with sv(2) d show ?thesis by auto
  qed
qed

end
