(* ===== verification/Work_Queue.thy ===== *)
theory Work_Queue
  imports State_Repository Operation_Work
begin

text \<open>
  adapters/persistence/json\_operation\_work\_queue.py, the implementation of the port
  ports/operation\_work\_queue.py on the state repository: create, read, save against an expected
  \<open>updated_at\<close>, and \<open>claim_next\<close>.
\<close>

definition work_repo :: "OperationWorkItem state_repo" where
  "work_repo = \<lparr>sr_encode = work_item_payload, sr_decode = work_item_from_payload, sr_version = 1,
     sr_id_validator = validate_operation_id, sr_max_bytes = 32768\<rparr>"

definition wq_create :: "files \<Rightarrow> OperationWorkItem \<Rightarrow> files result" where
  "wq_create fs w = bind_result (repo_create work_repo fs (wk_operation_id w) w) (\<lambda>(fs', _). Inr fs')"

definition wq_read :: "files \<Rightarrow> string \<Rightarrow> OperationWorkItem option result" where
  "wq_read fs i = bind_result (repo_read work_repo fs i) (\<lambda>e. Inr (map_option env_value e))"

text \<open>
  The save reads the record, compares its \<open>updated_at\<close>, and then saves it against the revision it
  read. Only the second part holds the record's lock: \<open>fs\<close> is the collection the first part
  reads and \<open>fs'\<close> the one the second part finds.
\<close>

definition wq_save_between :: "files \<Rightarrow> files \<Rightarrow> OperationWorkItem \<Rightarrow> string \<Rightarrow> files result" where
  "wq_save_between fs fs' w expected_updated_at =
     bind_result (repo_read work_repo fs (wk_operation_id w)) (\<lambda>current.
     case current of
       None \<Rightarrow> Inl (RepoForgeError ''OPERATION_NOT_FOUND'' (''Operation work not found: '' @ wk_operation_id w))
     | Some c \<Rightarrow>
         if wk_updated_at (env_value c) \<noteq> expected_updated_at
         then Inl (op_stale ''Operation work changed since the reviewed updated_at'')
         else bind_result (repo_save work_repo fs' (wk_operation_id w) w (env_revision c)) (\<lambda>(fs'', _). Inr fs''))"

definition wq_save :: "files \<Rightarrow> OperationWorkItem \<Rightarrow> string \<Rightarrow> files result" where
  "wq_save fs w v = wq_save_between fs fs w v"

definition wq_delete :: "files \<Rightarrow> string \<Rightarrow> files result" where
  "wq_delete fs i = repo_delete work_repo fs i"

record OperationWorkPage =
  wp_records :: "OperationWorkItem list"
  wp_scan_truncated :: bool
  wp_unreadable :: "string list"

definition wq_list :: "files \<Rightarrow> int \<Rightarrow> OperationWorkPage result" where
  "wq_list fs n = bind_result (repo_list work_repo fs n) (\<lambda>p.
     Inr \<lparr>wp_records = map env_value (sp_records p), wp_scan_truncated = sp_scan_truncated p,
          wp_unreadable = sp_unreadable p\<rparr>)"

section \<open>claim\_next\<close>

definition claimable :: "string list \<Rightarrow> int option \<Rightarrow> OperationWorkItem \<Rightarrow> bool" where
  "claimable kinds gen w \<longleftrightarrow> wk_state w = QUEUED \<and> wr_kind (wk_request w) \<in> set kinds \<and>
     (case gen of None \<Rightarrow> True | Some g \<Rightarrow> wr_config_generation (wk_request w) = g)"

definition claim_order :: "OperationWorkItem StateEnvelope \<Rightarrow> string \<times> string" where
  "claim_order e = (wk_created_at (env_value e), wk_operation_id (env_value e))"

definition claim_candidates ::
  "string list \<Rightarrow> int option \<Rightarrow> OperationWorkItem StatePage \<Rightarrow> OperationWorkItem StateEnvelope list" where
  "claim_candidates kinds gen p =
     sort_key claim_order (filter (\<lambda>e. claimable kinds gen (env_value e)) (sp_records p))"

text \<open>
  The loop over the candidates. Other processes act on the collection between the scan and each
  attempt: \<open>env k\<close> is what they do before the \<open>k\<close>-th attempt.
\<close>

fun claim_loop ::
  "(nat \<Rightarrow> files \<Rightarrow> files) \<Rightarrow> nat \<Rightarrow> files \<Rightarrow> string \<Rightarrow> string \<Rightarrow> string \<Rightarrow>
   OperationWorkItem StateEnvelope list \<Rightarrow> (files \<times> OperationWorkItem option) result" where
  "claim_loop env k fs owner lease now [] = Inr (fs, None)"
| "claim_loop env k fs owner lease now (e # es) =
     (case claim_work_item (env_value e) owner lease now of
        Inl x \<Rightarrow> Inl x
      | Inr claimed \<Rightarrow>
          (case repo_save work_repo (env k fs) (wk_operation_id claimed) claimed (env_revision e) of
             Inr (fs', saved) \<Rightarrow> Inr (fs', Some (env_value saved))
           | Inl x \<Rightarrow> (case x of
               RepoForgeError code m \<Rightarrow>
                 if code = ''STATE_STALE'' then claim_loop env (Suc k) (env k fs) owner lease now es else Inl x
             | _ \<Rightarrow> Inl x)))"

definition wq_claim_next ::
  "(nat \<Rightarrow> files \<Rightarrow> files) \<Rightarrow> files \<Rightarrow> string \<Rightarrow> string \<Rightarrow> string \<Rightarrow> string list \<Rightarrow> int option \<Rightarrow>
   (files \<times> OperationWorkItem option) result" where
  "wq_claim_next env fs owner now lease kinds gen =
     bind_result (repo_list work_repo fs 2000) (\<lambda>p.
     claim_loop env 0 fs owner lease now (claim_candidates kinds gen p))"

section \<open>Lemmas: the codec\<close>

lemma from_cong:
  assumes "dict_get_none d = dict_get_none d'"
  shows "profile_from d = profile_from d'" "diagnostic_from d = diagnostic_from d'" "adhoc_from d = adhoc_from d'"
  unfolding profile_from_def diagnostic_from_def adhoc_from_def assms by (rule refl)+

lemma sorted_string_values [simp]:
  "json_sorted (of_opt_strings v) = of_opt_strings v"
  "json_sorted (case v' of None \<Rightarrow> VNone | Some es \<Rightarrow> VList (map of_strings es)) =
     (case v' of None \<Rightarrow> VNone | Some es \<Rightarrow> VList (map of_strings es))"
  by (simp_all add: of_opt_strings_def split: option.split)

lemma request_payload_distinct: "distinct (map fst (request_payload r))"
  by (simp add: request_payload_def)

lemma request_payload_sorted:
  "dict_get_none (map (\<lambda>kv. (fst kv, json_sorted (snd kv))) (sort_key fst (request_payload r))) =
     dict_get_none (request_payload r)"
proof
  fix k
  have "\<forall>kv \<in> set (request_payload r). json_sorted (snd kv) = snd kv" by (simp add: request_payload_def)
  then have "json_sorted (dict_get_none (request_payload r) k) = dict_get_none (request_payload r) k"
    by (auto simp: dict_get_none_def split: option.split dest!: map_of_SomeD)
  then show "dict_get_none (map (\<lambda>kv. (fst kv, json_sorted (snd kv))) (sort_key fst (request_payload r))) k =
     dict_get_none (request_payload r) k"
    by (simp only: dict_get_none_sorted [OF request_payload_distinct])
qed

lemma work_payload_distinct: "distinct (map fst (work_item_payload w))"
  by (simp add: work_item_payload_def)

lemma work_codec_keeps:
  assumes "canonical_request (wk_request w)" "work_ok w"
  shows "codec_keeps work_repo w"
proof -
  let ?r = "request_payload (wk_request w)"
  let ?r' = "map (\<lambda>kv. (fst kv, json_sorted (snd kv))) (sort_key fst ?r)"
  let ?d = "work_item_payload w"
  let ?d' = "map (\<lambda>kv. (fst kv, json_sorted (snd kv))) (sort_key fst ?d)"
  have g: "dict_get_none ?d' k = json_sorted (dict_get_none ?d k)" for k
    by (rule dict_get_none_sorted [OF work_payload_distinct])
  have same: "dict_get_none ?d' k = dict_get_none ?d k" if "k \<noteq> ''request''" for k
  proof -
    have "\<forall>kv \<in> set ?d. fst kv \<noteq> ''request'' \<longrightarrow> json_sorted (snd kv) = snd kv"
      by (simp add: work_item_payload_def)
    with that have "json_sorted (dict_get_none ?d k) = dict_get_none ?d k"
      by (auto simp: dict_get_none_def split: option.split dest!: map_of_SomeD)
    with g show ?thesis by simp
  qed
  have sames: "dict_get_none ?d' ''attempt'' = dict_get_none ?d ''attempt''"
    "dict_get_none ?d' ''child_started'' = dict_get_none ?d ''child_started''"
    "dict_get_none ?d' ''state'' = dict_get_none ?d ''state''"
    "dict_get_none ?d' ''operation_id'' = dict_get_none ?d ''operation_id''"
    "dict_get_none ?d' ''owner_id'' = dict_get_none ?d ''owner_id''"
    "dict_get_none ?d' ''lease_expires_at'' = dict_get_none ?d ''lease_expires_at''"
    "dict_get_none ?d' ''created_at'' = dict_get_none ?d ''created_at''"
    "dict_get_none ?d' ''updated_at'' = dict_get_none ?d ''updated_at''"
    by (rule same, simp)+
  have req: "dict_get_none ?d ''request'' = VDict ?r" by (simp add: work_item_payload_def dict_get_none_def)
  then have req': "dict_get_none ?d' ''request'' = VDict ?r'" by (simp only: g json_sorted.simps)
  have kind: "payload_request_kind ?d' = payload_request_kind ?d"
    unfolding payload_request_kind_def req req' by (simp add: request_payload_sorted)
  have keys: "same_keys ?d' ks \<longleftrightarrow> same_keys ?d ks" for ks unfolding same_keys_def keys_sorted ..
  have shape: "payload_shape_ok ?d' \<longleftrightarrow> payload_shape_ok ?d"
    unfolding payload_shape_ok_def Let_def kind keys req req' pyval.case keys_sorted by (simp add: same)
  have "work_item_from_payload ?d' = work_item_from_payload ?d"
    unfolding work_item_from_payload_def req req' kind shape prod.case pyval.case
      from_cong [OF request_payload_sorted] sames by (rule refl)
  also have "\<dots> = Inr w" using assms by (intro work_item_roundtrip) (simp_all add: work_ok_def)
  finally show ?thesis by (simp add: codec_keeps_def work_repo_def)
qed

section \<open>The queue meets its port\<close>

definition kept_item :: "OperationWorkItem \<Rightarrow> bool" where
  "kept_item w \<longleftrightarrow> canonical_request (wk_request w) \<and> work_ok w"

text \<open>Nothing in a read compares the id inside the payload with the id of the file; a collection
  written through the queue has them equal.\<close>

definition filed_under_id :: "files \<Rightarrow> bool" where
  "filed_under_id fs \<longleftrightarrow> (\<forall>i c. wq_read fs i = Inr (Some c) \<longrightarrow> wk_operation_id c = i)"

lemma wq_read_Some:
  "wq_read fs i = Inr (Some w) \<longleftrightarrow> (\<exists>e. repo_read work_repo fs i = Inr (Some e) \<and> env_value e = w)"
  by (auto simp: wq_read_def elim!: bind_result_InrE)

lemma wq_read_None: "wq_read fs i = Inr None \<longleftrightarrow> repo_read work_repo fs i = Inr None"
  by (auto simp: wq_read_def elim!: bind_result_InrE)

lemma wq_read_cong: "repo_read work_repo fs' i = repo_read work_repo fs i \<Longrightarrow> wq_read fs' i = wq_read fs i"
  by (simp add: wq_read_def)

lemma work_item_from_payload_id:
  "work_item_from_payload d = Inr w \<Longrightarrow> wk_operation_id w = py_str (dict_get_none d ''operation_id'')"
  by (auto simp: work_item_from_payload_def elim!: bind_result_InrE split: pyval.splits if_splits)

text \<open>Whatever is written under the id of a work item is read as an item with that id, if at all.\<close>

lemma written_id:
  assumes "encode_envelope work_repo (new_envelope work_repo i r w) = Inr data"
    and "write_file (sr_max_bytes work_repo) fs i data = Inr fs'" "wq_read fs' i = Inr (Some c)"
  shows "wk_operation_id c = wk_operation_id w"
proof -
  let ?kvs = "envelope_dict work_repo (new_envelope work_repo i r w)"
  let ?raw = "map (\<lambda>kv. (fst kv, json_sorted (snd kv))) (sort_key fst ?kvs)"
  have d: "distinct (map fst ?kvs)" by (simp add: envelope_dict_def)
  have data: "data = VDict ?kvs" using assms(1) by (auto simp: encode_envelope_def split: if_splits)
  have j: "json_sorted data = VDict ?raw" unfolding data by (simp only: json_sorted.simps)
  from assms(3) obtain e where e: "decode_envelope work_repo (Json (VDict ?raw)) i = Inr e" "env_value e = c"
    by (auto simp: wq_read_Some repo_read_def read_after_write [OF assms(2)] j elim!: bind_result_InrE)
  obtain p where p: "dict_get_none ?raw ''payload'' = VDict p" "work_item_from_payload p = Inr c"
    by (rule decode_envelope_value [OF e(1)]) (use e(2) in \<open>simp add: work_repo_def\<close>)
  have "dict_get_none ?kvs ''payload'' = VDict (work_item_payload w)"
    by (simp add: envelope_dict_def new_envelope_def dict_get_none_def work_repo_def)
  then have "VDict p = json_sorted (VDict (work_item_payload w))"
    unfolding p(1) [symmetric] dict_get_none_sorted [OF d] by (simp only:)
  then have "dict_get_none p ''operation_id'' = json_sorted (dict_get_none (work_item_payload w) ''operation_id'')"
    using dict_get_none_sorted [OF work_payload_distinct] by (simp only: json_sorted.simps pyval.inject)
  also have "\<dots> = VStr (wk_operation_id w)" by (simp add: work_item_payload_def dict_get_none_def)
  finally show ?thesis using work_item_from_payload_id [OF p(2)] by simp
qed

lemma filed_under_id_write:
  assumes "encode_envelope work_repo (new_envelope work_repo (wk_operation_id w) r w) = Inr data"
    and "write_file (sr_max_bytes work_repo) fs (wk_operation_id w) data = Inr fs'" "filed_under_id fs"
  shows "filed_under_id fs'"
  unfolding filed_under_id_def
proof (intro allI impI)
  fix i c assume c: "wq_read fs' i = Inr (Some c)"
  show "wk_operation_id c = i"
  proof (cases "i = wk_operation_id w")
    case True
    have "wk_operation_id c = wk_operation_id w" by (rule written_id [OF assms(1,2) c [unfolded True]])
    with True show ?thesis by simp
  next
    case False
    then have "wq_read fs' i = wq_read fs i"
      by (intro wq_read_cong) (simp add: repo_read_def read_after_write [OF assms(2)])
    with c assms(3) show ?thesis by (simp add: filed_under_id_def)
  qed
qed

lemma wq_saveE:
  assumes "wq_save fs w v = Inr fs'"
  obtains c e where "repo_read work_repo fs (wk_operation_id w) = Inr (Some c)" "wk_updated_at (env_value c) = v"
    "repo_save work_repo fs (wk_operation_id w) w (env_revision c) = Inr (fs', e)"
  using assms that
  by (auto simp: wq_save_def wq_save_between_def elim!: bind_result_InrE split: option.splits if_splits)

lemma wq_createE:
  assumes "wq_create fs w = Inr fs'"
  obtains e where "repo_create work_repo fs (wk_operation_id w) w = Inr (fs', e)"
  using assms that by (auto simp: wq_create_def elim!: bind_result_InrE)

lemma kept_codec: "kept_item w \<Longrightarrow> codec_keeps work_repo w"
  by (simp add: kept_item_def work_codec_keeps)

interpretation work_queue: evolving_store wq_read wq_save wq_create wk_operation_id wk_updated_at kept_item
  filed_under_id wk_step
proof unfold_locales
  fix fs fs' :: files and r c :: OperationWorkItem and v :: string and i :: string
  show "filed_under_id fs \<Longrightarrow> wq_read fs i = Inr (Some c) \<Longrightarrow> wk_operation_id c = i"
    by (simp add: filed_under_id_def)
  show "wq_save fs r v = Inr fs' \<Longrightarrow> filed_under_id fs \<Longrightarrow> filed_under_id fs'"
    by (elim wq_saveE repo_saveE) (simp add: filed_under_id_write)
  show "wq_create fs r = Inr fs' \<Longrightarrow> filed_under_id fs \<Longrightarrow> filed_under_id fs'"
    by (elim wq_createE repo_createE) (simp add: filed_under_id_write)
  show "wq_save fs r v = Inr fs' \<Longrightarrow> kept_item r \<Longrightarrow> wq_read fs' (wk_operation_id r) = Inr (Some r)"
    by (elim wq_saveE) (auto simp: wq_read_Some new_envelope_def dest!: repo_save_reads(1) [OF _ kept_codec])
  show "wq_save fs r v = Inr fs' \<Longrightarrow> i \<noteq> wk_operation_id r \<Longrightarrow> wq_read fs' i = wq_read fs i"
    by (elim wq_saveE) (auto intro!: wq_read_cong repo_save_frame)
  show "wq_save fs r v = Inr fs' \<Longrightarrow> \<exists>c. wq_read fs (wk_operation_id r) = Inr (Some c) \<and> wk_updated_at c = v"
    by (elim wq_saveE) (auto simp: wq_read_Some)
  show "wq_create fs r = Inr fs' \<Longrightarrow> wq_read fs (wk_operation_id r) = Inr None"
    by (elim wq_createE repo_createE) (simp add: wq_read_None repo_read_def read_file_def)
  show "wq_create fs r = Inr fs' \<Longrightarrow> kept_item r \<Longrightarrow> wq_read fs' (wk_operation_id r) = Inr (Some r)"
    by (elim wq_createE) (auto simp: wq_read_Some new_envelope_def dest!: repo_create_reads(1) [OF _ kept_codec])
  show "wq_create fs r = Inr fs' \<Longrightarrow> i \<noteq> wk_operation_id r \<Longrightarrow> wq_read fs' i = wq_read fs i"
    by (elim wq_createE) (auto intro!: wq_read_cong repo_create_frame)
  show "wk_step c r \<Longrightarrow> wk_operation_id r = wk_operation_id c" by (rule wk_step_frame)
  show "wk_step c r \<Longrightarrow> kept_item c \<Longrightarrow> kept_item r" using wk_step_frame(1,4) [of c r] by (simp add: kept_item_def)
  show "wk_step\<^sup>*\<^sup>* c r \<Longrightarrow> wk_updated_at r = wk_updated_at c \<Longrightarrow> r = c" by (rule wk.same_stamp_same_record)
qed

section \<open>Lemmas: claiming\<close>

abbreviation work_advances :: "files \<Rightarrow> files \<Rightarrow> bool" where
  "work_advances \<equiv> advances work_repo"

lemma claim_work_item_id: "claim_work_item w owner lease now = Inr w' \<Longrightarrow> wk_operation_id w' = wk_operation_id w"
  using wk_step_frame(2) wk_step.claim by blast

text \<open>A claim that returns an item wrote it over a record still equal to the one it scanned.\<close>

lemma claim_loop_winner:
  assumes "claim_loop env k fs owner lease now es = Inr (fs', Some w)"
    and "\<And>j s. work_advances s (env j s)" "work_advances fs0 fs"
    and "\<forall>e \<in> set es. repo_read work_repo fs0 (env_record_id e) = Inr (Some e) \<and>
           wk_operation_id (env_value e) = env_record_id e"
  shows "\<exists>e \<in> set es. \<exists>fs1 saved. work_advances fs0 fs1 \<and> repo_read work_repo fs1 (wk_operation_id w) = Inr (Some e) \<and>
    claim_work_item (env_value e) owner lease now = Inr w \<and>
    repo_save work_repo fs1 (wk_operation_id w) w (env_revision e) = Inr (fs', saved)"
  using assms(1,3,4)
proof (induction es arbitrary: k fs)
  case (Cons e es)
  have adv: "work_advances fs0 (env k fs)" using advances_trans [OF Cons.prems(2) assms(2)] .
  obtain claimed where c: "claim_work_item (env_value e) owner lease now = Inr claimed"
    using Cons.prems(1) by (auto split: sum.splits)
  have id: "wk_operation_id claimed = env_record_id e"
    using claim_work_item_id [OF c] Cons.prems(3) by simp
  show ?case
  proof (cases "repo_save work_repo (env k fs) (wk_operation_id claimed) claimed (env_revision e)")
    case (Inl x)
    with Cons.prems(1) c obtain m where "claim_loop env (Suc k) (env k fs) owner lease now es = Inr (fs', Some w)"
      by (auto split: exn.splits if_splits)
    from Cons.IH [OF this adv] Cons.prems(3) show ?thesis by (simp only: list.set) blast
  next
    case (Inr r)
    obtain fs'' saved where r: "r = (fs'', saved)" by (cases r)
    have sv: "repo_save work_repo (env k fs) (env_record_id e) claimed (env_revision e) = Inr (fs'', saved)"
      using Inr r id by simp
    then have "saved = new_envelope work_repo (env_record_id e) (env_revision e + 1) claimed"
      by (auto elim: repo_saveE)
    then have w: "w = claimed" "fs'' = fs'" using Cons.prems(1) c Inr r by (auto simp: new_envelope_def)
    obtain d where d: "repo_read work_repo (env k fs) (env_record_id e) = Inr (Some d)" "env_revision d = env_revision e"
      using sv by (auto elim: repo_saveE)
    have "d = e" using adv Cons.prems(3) d unfolding advances_def by fastforce
    with adv d c sv w id show ?thesis by (intro bexI [of _ e] exI conjI) auto
  qed
qed simp

lemma claim_candidates_reads:
  assumes "repo_list work_repo fs n = Inr p" "filed_under_id fs" "e \<in> set (claim_candidates kinds gen p)"
  shows "repo_read work_repo fs (env_record_id e) = Inr (Some e) \<and> wk_operation_id (env_value e) = env_record_id e \<and>
    claimable kinds gen (env_value e)"
proof -
  have "e \<in> set (sp_records p)" "claimable kinds gen (env_value e)"
    using assms(3) by (auto simp: claim_candidates_def)
  moreover from this(1) have "repo_read work_repo fs (env_record_id e) = Inr (Some e)"
    by (rule repo_list_reads [OF assms(1)])
  moreover from this have "wq_read fs (env_record_id e) = Inr (Some (env_value e))"
    by (auto simp: wq_read_Some)
  ultimately show ?thesis using assms(2) by (simp add: filed_under_id_def)
qed

lemma sort_key_hd_least:
  assumes "sort_key f xs = y # ys" "x \<in> set xs"
  shows "f y \<le> f x"
proof -
  have "sorted (map f (y # ys))" using sorted_sort_key [of f xs] unfolding assms(1) .
  moreover have "x \<in> set (y # ys)" using assms by (metis set_sort)
  ultimately show ?thesis by auto
qed

section \<open>Properties\<close>

text \<open>
  No update of queued work is lost: whatever other clients create, read, step and save
  in between, a save against the \<open>updated_at\<close> a client read earlier succeeds only if the stored
  item is still exactly the one it read.
\<close>

theorem work_queue_no_lost_update:
  assumes "filed_under_id fs" "wq_read fs i = Inr (Some c)" "kept_item c"
    and "(cas_step wq_read wq_save wq_create wk_updated_at kept_item wk_step)\<^sup>*\<^sup>* fs fs'"
    and "wk_operation_id r = i" "wq_save fs' r (wk_updated_at c) = Inr fs''"
  shows "wq_read fs' i = Inr (Some c)"
  using work_queue.no_lost_update [OF assms] .


text \<open>
  Without interference \<open>claim_next\<close> is first in, first out: when it returns, it returns
  nothing exactly if the scanned page holds no claimable item, and otherwise the claimed form of a
  claimable item that no other claimable item of the page precedes in creation time and id.
\<close>

theorem claim_next_oldest_first:
  assumes "wq_claim_next (\<lambda>_ s. s) fs owner now lease kinds gen = Inr (fs', r)" "filed_under_id fs"
    and "repo_list work_repo fs 2000 = Inr p"
  shows "(r = None \<longleftrightarrow> (\<forall>e \<in> set (sp_records p). \<not> claimable kinds gen (env_value e))) \<and>
    (\<forall>w. r = Some w \<longrightarrow> (\<exists>e \<in> set (sp_records p). claimable kinds gen (env_value e) \<and>
       claim_work_item (env_value e) owner lease now = Inr w \<and>
       (\<forall>d \<in> set (sp_records p). claimable kinds gen (env_value d) \<longrightarrow> claim_order e \<le> claim_order d)))"
proof -
  have l: "claim_loop (\<lambda>_ s. s) 0 fs owner lease now (claim_candidates kinds gen p) = Inr (fs', r)"
    using assms(1,3) by (simp add: wq_claim_next_def)
  show ?thesis
  proof (cases "claim_candidates kinds gen p")
    case Nil
    then have none: "\<forall>e \<in> set (sp_records p). \<not> claimable kinds gen (env_value e)"
      by (metis (no_types, lifting) claim_candidates_def filter_empty_conv length_0_conv length_sort)
    moreover have "r = None" using l Nil by simp
    ultimately show ?thesis by simp
  next
    case (Cons e es)
    have "e \<in> set (claim_candidates kinds gen p)" using Cons by simp
    then have in_p: "e \<in> set (sp_records p)" "claimable kinds gen (env_value e)"
      by (simp_all add: claim_candidates_def)
    have rd: "repo_read work_repo fs (env_record_id e) = Inr (Some e)" "wk_operation_id (env_value e) = env_record_id e"
      using claim_candidates_reads [OF assms(3,2), of e kinds gen] Cons by auto
    obtain w where w: "claim_work_item (env_value e) owner lease now = Inr w"
      using l Cons by (auto split: sum.splits)
    have id: "wk_operation_id w = env_record_id e" using claim_work_item_id [OF w] rd(2) by simp
    have fresh: "repo_save work_repo fs (env_record_id e) w (env_revision e) \<noteq> Inl (RepoForgeError ''STATE_STALE'' m)" for m
      using rd(1) by (auto simp: repo_save_def revision_next_def make_revision_def encode_envelope_def write_file_def
          too_large_def bind_result_Inl_iff repo_id_def record_id_check_def state_error_def split: if_splits option.splits)
    obtain saved where sv: "repo_save work_repo fs (env_record_id e) w (env_revision e) = Inr (fs', saved)"
      "r = Some (env_value saved)"
      using l Cons w id fresh by (auto split: sum.splits exn.splits if_splits)
    have "env_value saved = w" using sv(1) by (auto elim!: repo_saveE simp: new_envelope_def)
    moreover have "claim_order e \<le> claim_order d" if "d \<in> set (sp_records p)" "claimable kinds gen (env_value d)" for d
      using sort_key_hd_least [OF Cons [unfolded claim_candidates_def], of d] that by simp
    ultimately show ?thesis using in_p w sv(2) by auto
  qed
qed

subsection \<open>Witnesses\<close>

abbreviation queued_item :: OperationWorkItem where
  "queued_item \<equiv> example_item example_fp QUEUED 0 None False 0"

abbreviation claimed_item :: OperationWorkItem where
  "claimed_item \<equiv> example_item example_fp CLAIMED 1 (Some (''w1'', 5)) False 1"

definition work_file :: "int \<Rightarrow> OperationWorkItem \<Rightarrow> json_file" where
  "work_file r w = Json (json_sorted (VDict (envelope_dict work_repo (new_envelope work_repo example_oid r w))))"

abbreviation queue_with :: "int \<Rightarrow> OperationWorkItem \<Rightarrow> files" where
  "queue_with r w \<equiv> [(example_oid, work_file r w)]"

lemma example_envelope_weight:
  assumes "length (str_of_int r) \<le> 1" "length (str_of_int att) \<le> 1" "case own of None \<Rightarrow> True | Some (o', l) \<Rightarrow> length o' \<le> 2"
  shows "json_weight 0 (VDict (envelope_dict work_repo (new_envelope work_repo example_oid r
     (example_item example_fp s att own started upd)))) \<le> 5000"
proof -
  have "length (work_state_value s) \<le> 7" by (cases s) simp_all
  moreover have "length (str_of_int 1) = 1" by (simp add: str_of_int_def str_of_nat.simps)
  moreover have "json_weight 2 (VDict (request_payload (example_request_of example_fp))) \<le> 1500"
    by (simp add: request_payload_def example_request_of_def base_request_def of_opt_def
        \<open>length (str_of_int 1) = 1\<close>)
  ultimately show ?thesis
    using assms by (cases own)
      (auto simp: envelope_dict_def work_repo_def new_envelope_def work_item_payload_def example_item_def
        of_opt_def length_clock numeral_2_eq_2 split: prod.splits)
qed

lemma write_example_work:
  assumes "json_weight 0 (VDict (envelope_dict work_repo e)) \<le> 5000"
  shows "encode_envelope work_repo e = Inr (VDict (envelope_dict work_repo e))"
    and "write_file (sr_max_bytes work_repo) fs i (VDict (envelope_dict work_repo e)) =
      Inr (dict_set fs i (Json (json_sorted (VDict (envelope_dict work_repo e)))))"
proof -
  have "encoded_size (VDict (envelope_dict work_repo e)) \<le> Suc (2 * 5000)"
    unfolding encoded_size_def
    using length_utf8_encode(2) [of "json_indented False 0 (VDict (envelope_dict work_repo e))"]
      length_json_indented [of False 0 "VDict (envelope_dict work_repo e)"] assms by linarith
  then have "\<not> sr_max_bytes work_repo < encoded_size (VDict (envelope_dict work_repo e))"
    by (simp add: work_repo_def)
  then show "encode_envelope work_repo e = Inr (VDict (envelope_dict work_repo e))"
    "write_file (sr_max_bytes work_repo) fs i (VDict (envelope_dict work_repo e)) =
      Inr (dict_set fs i (Json (json_sorted (VDict (envelope_dict work_repo e)))))"
    by (simp_all only: encode_envelope_def write_file_def if_False)
qed

lemma str_of_digit: "length (str_of_int 0) \<le> 1" "length (str_of_int 1) \<le> 1" "length (str_of_int 2) \<le> 1"
  by (simp_all add: str_of_int_def str_of_nat.simps)

lemma queued_weight:
  "json_weight 0 (VDict (envelope_dict work_repo (new_envelope work_repo example_oid 1 queued_item))) \<le> 5000"
  by (rule example_envelope_weight [OF str_of_digit(2) str_of_digit(1)]) simp

lemma claimed_weight:
  "json_weight 0 (VDict (envelope_dict work_repo (new_envelope work_repo example_oid 2 claimed_item))) \<le> 5000"
  by (rule example_envelope_weight [OF str_of_digit(3) str_of_digit(2)]) simp

lemma example_repo_id: "repo_id work_repo example_oid = Inr ()"
  using operation_id_path [OF example_id(1)] by (simp add: repo_id_def operation_path_def work_repo_def)

lemma example_kept: "kept_item queued_item" "kept_item claimed_item"
proof -
  have "work_ok queued_item" "work_ok claimed_item" by (simp_all add: work_ok_def example_item_def)
  moreover have "wk_request queued_item = example_request_of example_fp" "wk_request claimed_item = example_request_of example_fp"
    by (simp_all add: example_item_def)
  ultimately show "kept_item queued_item" "kept_item claimed_item"
    using example_request_canonical by (simp_all only: kept_item_def)
qed

lemma example_work_id: "wk_operation_id (example_item fp s att own started upd) = example_oid"
  by (simp add: example_item_def)

lemma queued_created:
  "repo_create work_repo [] example_oid queued_item = Inr (queue_with 1 queued_item, new_envelope work_repo example_oid 1 queued_item)"
  unfolding repo_create_def example_repo_id write_example_work(1) [OF queued_weight]
  by (simp add: write_example_work(2) [OF queued_weight] work_file_def del: json_sorted.simps)

lemmas queued_read = repo_create_reads(1) [OF queued_created kept_codec [OF example_kept(1)]]

lemma queued_elsewhere: "i \<noteq> example_oid \<Longrightarrow> wq_read (queue_with r w) i \<noteq> Inr (Some c)"
  by (auto simp: wq_read_def repo_read_def read_file_def elim!: bind_result_InrE)

lemma queued_filed: "filed_under_id (queue_with 1 queued_item)"
  unfolding filed_under_id_def
proof (intro allI impI)
  fix i c assume c: "wq_read (queue_with 1 queued_item) i = Inr (Some c)"
  then have "i = example_oid" using queued_elsewhere by metis
  with c queued_read show "wk_operation_id c = i"
    by (auto simp: wq_read_Some new_envelope_def example_work_id)
qed

lemma queued_saved:
  "repo_save work_repo (queue_with 1 queued_item) example_oid claimed_item 1 =
     Inr (queue_with 2 claimed_item, new_envelope work_repo example_oid 2 claimed_item)"
proof -
  have rv: "env_revision (new_envelope work_repo example_oid 1 queued_item) = 1" by (simp add: new_envelope_def)
  have nx: "revision_next 1 = Inr 2" by (simp add: revision_next_def make_revision_def)
  show ?thesis
    unfolding repo_save_def example_repo_id queued_read bind_result_simps option.case rv nx
      write_example_work(1) [OF claimed_weight] write_example_work(2) [OF claimed_weight]
    by (simp add: work_file_def del: json_sorted.simps)
qed

lemma queued_list:
  "repo_list work_repo (queue_with 1 queued_item) 2000 =
     Inr \<lparr>sp_records = [new_envelope work_repo example_oid 1 queued_item], sp_scan_truncated = False, sp_unreadable = []\<rparr>"
proof -
  have "list_ids [] (queue_with 1 queued_item) 2000 0 = ([example_oid], False)"
    by (simp add: list_ids_def startswith_def)
  then show ?thesis using queued_read by (simp add: repo_list_def)
qed

lemma queued_claim:
  "wq_claim_next (\<lambda>_ s. s) (queue_with 1 queued_item) ''w1'' (clock 1) (clock 5) [''profile''] None =
     Inr (queue_with 2 claimed_item, Some claimed_item)"
proof -
  let ?e = "new_envelope work_repo example_oid 1 queued_item"
  have "claimable [''profile''] None (env_value ?e)"
    by (simp add: claimable_def new_envelope_def example_item_def example_request_of_def base_request_def)
  then have c: "claim_candidates [''profile''] None
      \<lparr>sp_records = [?e], sp_scan_truncated = False, sp_unreadable = []\<rparr> = [?e]"
    by (simp add: claim_candidates_def)
  have f: "env_value ?e = queued_item" "env_revision ?e = 1"
    "env_value (new_envelope work_repo example_oid 2 claimed_item) = claimed_item"
    by (simp_all only: new_envelope_def StateEnvelope.simps)
  show ?thesis
    unfolding wq_claim_next_def queued_list bind_result_simps c claim_loop.simps f example_item_claim sum.case
      example_work_id queued_saved prod.case ..
qed

theorem work_queue_no_lost_update_witness:
  "wq_read (queue_with 1 queued_item) example_oid = Inr (Some queued_item) \<and>
   (\<exists>fs. wq_save (queue_with 1 queued_item) claimed_item (wk_updated_at queued_item) = Inr fs)"
proof -
  have r: "wq_read (queue_with 1 queued_item) example_oid = Inr (Some queued_item)"
    using queued_read by (auto simp: wq_read_Some new_envelope_def)
  have f: "env_value (new_envelope work_repo example_oid 1 queued_item) = queued_item"
    "env_revision (new_envelope work_repo example_oid 1 queued_item) = 1"
    by (simp_all only: new_envelope_def StateEnvelope.simps)
  have s: "wq_save (queue_with 1 queued_item) claimed_item (wk_updated_at queued_item) = Inr (queue_with 2 claimed_item)"
    unfolding wq_save_def wq_save_between_def example_work_id queued_read bind_result_simps option.case f queued_saved
    by simp
  from work_queue_no_lost_update [OF queued_filed r example_kept(1) rtranclp.rtrancl_refl example_work_id s] s
  show ?thesis by blast
qed


theorem claim_next_oldest_first_witness:
  "\<exists>e :: OperationWorkItem StateEnvelope. claimable [''profile''] None (env_value e) \<and> claim_work_item (env_value e) ''w1'' (clock 5) (clock 1) = Inr claimed_item"
proof -
  from claim_next_oldest_first [OF queued_claim queued_filed queued_list, THEN conjunct2, THEN spec, THEN mp, OF refl]
  show ?thesis by (elim bexE conjE) (rule exI, rule conjI, assumption+)
qed

end
