(* ===== verification/Process_Lease.thy ===== *)
theory Process_Lease
  imports Py_Value
begin

text \<open>
  domain/process\_lease.py with its sibling modules process\_lease\_role.py,
  process\_lease\_transitions.py and process\_lease\_payload.py: the durable lease of a live
  operating-system process, its state machine and its payload codec. A dataclass is checked by
  \<open>__post_init__\<close> whenever it is built, by \<open>replace\<close> too.
\<close>

section \<open>Data\<close>

datatype ProcessLeaseStatus =
    REGISTERED | READY | UNPROVEN | LEASE_RUNNING | TERMINATING | TERMINATED | ARCHIVED | KILLED | QUARANTINED

datatype ProcessLeaseRole = EXECUTION_DAEMON | OPERATION_WORKER | TUNNEL_CHILD

fun lease_status_value :: "ProcessLeaseStatus \<Rightarrow> string" where
  "lease_status_value REGISTERED = ''registered''"
| "lease_status_value READY = ''ready''"
| "lease_status_value UNPROVEN = ''unproven''"
| "lease_status_value LEASE_RUNNING = ''running''"
| "lease_status_value TERMINATING = ''terminating''"
| "lease_status_value TERMINATED = ''terminated''"
| "lease_status_value ARCHIVED = ''archived''"
| "lease_status_value KILLED = ''killed''"
| "lease_status_value QUARANTINED = ''quarantined''"

fun role_value :: "ProcessLeaseRole \<Rightarrow> string" where
  "role_value EXECUTION_DAEMON = ''execution_daemon''"
| "role_value OPERATION_WORKER = ''operation_worker''"
| "role_value TUNNEL_CHILD = ''tunnel_child''"

fun lease_transitions :: "ProcessLeaseStatus \<Rightarrow> ProcessLeaseStatus list" where
  "lease_transitions REGISTERED = [READY, TERMINATED]"
| "lease_transitions READY = [UNPROVEN, LEASE_RUNNING]"
| "lease_transitions UNPROVEN = [LEASE_RUNNING, TERMINATED]"
| "lease_transitions LEASE_RUNNING = [TERMINATING, KILLED, QUARANTINED, UNPROVEN]"
| "lease_transitions TERMINATING = [TERMINATED, KILLED]"
| "lease_transitions TERMINATED = [ARCHIVED]"
| "lease_transitions KILLED = [TERMINATED]"
| "lease_transitions QUARANTINED = [TERMINATED]"
| "lease_transitions ARCHIVED = []"

definition ACTIVE_LEASE_STATUSES :: "ProcessLeaseStatus list" where
  "ACTIVE_LEASE_STATUSES = [REGISTERED, READY, UNPROVEN, LEASE_RUNNING, TERMINATING, KILLED, QUARANTINED]"

record ProcessLease =
  ls_lease_id :: string
  ls_status :: ProcessLeaseStatus
  ls_process_identity :: "string option"
  ls_pid :: "int option"
  ls_started_at :: "string option"
  ls_heartbeat_at :: "string option"
  ls_correlation_id :: string
  ls_created_at :: string
  ls_updated_at :: string
  ls_error_code :: "string option"
  ls_error_message :: "string option"
  ls_role :: ProcessLeaseRole
  ls_pgid :: "int option"
  ls_process_start_token :: "string option"
  ls_owner_pid :: "int option"
  ls_owner_process_identity :: "string option"
  ls_release_sha :: "string option"
  ls_generation :: "int option"
  ls_admission_epoch :: "int option"

section \<open>Validation\<close>

definition require_non_empty :: "string \<Rightarrow> string \<Rightarrow> exn option" where
  "require_non_empty v field =
     raise_if (py_strip v = []) (ValueError (''Process lease '' @ field @ '' must be a non-empty string''))"

definition validate_positive_int :: "int option \<Rightarrow> string \<Rightarrow> exn option" where
  "validate_positive_int v field =
     (case v of None \<Rightarrow> None
      | Some n \<Rightarrow> raise_if (n \<le> 0) (ValueError (''Process lease '' @ field @ '' must be a positive integer'')))"

definition optional_non_empty :: "string \<times> string option \<Rightarrow> exn option" where
  "optional_non_empty f = (case snd f of None \<Rightarrow> None | Some v \<Rightarrow> require_non_empty v (fst f))"

text \<open>\<open>__post_init__\<close>; the status and the role are members of their enumerations by typing.\<close>

definition lease_check :: "ProcessLease \<Rightarrow> exn option" where
  "lease_check l = first_error
     ([require_non_empty (ls_lease_id l) ''lease_id'',
       require_non_empty (ls_correlation_id l) ''correlation_id'',
       require_non_empty (ls_created_at l) ''created_at'',
       require_non_empty (ls_updated_at l) ''updated_at'',
       validate_positive_int (ls_pid l) ''pid'',
       validate_positive_int (ls_pgid l) ''pgid'',
       validate_positive_int (ls_owner_pid l) ''owner_pid'',
       validate_positive_int (ls_generation l) ''generation'',
       validate_positive_int (ls_admission_epoch l) ''admission_epoch''] @
      map optional_non_empty
       [(''started_at'', ls_started_at l), (''heartbeat_at'', ls_heartbeat_at l),
        (''process_identity'', ls_process_identity l), (''error_code'', ls_error_code l),
        (''error_message'', ls_error_message l), (''process_start_token'', ls_process_start_token l),
        (''owner_process_identity'', ls_owner_process_identity l), (''release_sha'', ls_release_sha l)])"

definition make_lease :: "ProcessLease \<Rightarrow> ProcessLease result" where
  "make_lease l = checked (lease_check l) l"

definition validate_lease_transition :: "ProcessLeaseStatus \<Rightarrow> ProcessLeaseStatus \<Rightarrow> exn option" where
  "validate_lease_transition current target =
     raise_if (target \<notin> set (lease_transitions current))
       (ValueError (''Invalid process lease transition: '' @ lease_status_value current @ '' -> '' @ lease_status_value target))"

section \<open>Transitions\<close>

text \<open>The optional keyword arguments of \<open>_transition\<close>: \<open>None\<close> keeps the field of the lease.\<close>

record lease_args =
  la_pid :: "int option"
  la_pgid :: "int option"
  la_process_identity :: "string option"
  la_process_start_token :: "string option"
  la_owner_pid :: "int option"
  la_owner_process_identity :: "string option"
  la_release_sha :: "string option"
  la_generation :: "int option"
  la_started_at :: "string option"
  la_heartbeat_at :: "string option"
  la_error_code :: "string option"
  la_error_message :: "string option"

definition no_lease_args :: lease_args where
  "no_lease_args = \<lparr>la_pid = None, la_pgid = None, la_process_identity = None, la_process_start_token = None,
     la_owner_pid = None, la_owner_process_identity = None, la_release_sha = None, la_generation = None,
     la_started_at = None, la_heartbeat_at = None, la_error_code = None, la_error_message = None\<rparr>"

definition or_keep :: "'a option \<Rightarrow> 'a option \<Rightarrow> 'a option" where
  "or_keep new old = (if new \<noteq> None then new else old)"

definition lease_transition :: "ProcessLease \<Rightarrow> ProcessLeaseStatus \<Rightarrow> string \<Rightarrow> lease_args \<Rightarrow> ProcessLease result" where
  "lease_transition l target updated_at a =
     bind_result (checked (validate_lease_transition (ls_status l) target) ()) (\<lambda>_.
     make_lease (l\<lparr>ls_status := target, ls_updated_at := updated_at,
       ls_pid := or_keep (la_pid a) (ls_pid l), ls_pgid := or_keep (la_pgid a) (ls_pgid l),
       ls_process_identity := or_keep (la_process_identity a) (ls_process_identity l),
       ls_process_start_token := or_keep (la_process_start_token a) (ls_process_start_token l),
       ls_owner_pid := or_keep (la_owner_pid a) (ls_owner_pid l),
       ls_owner_process_identity := or_keep (la_owner_process_identity a) (ls_owner_process_identity l),
       ls_release_sha := or_keep (la_release_sha a) (ls_release_sha l),
       ls_generation := or_keep (la_generation a) (ls_generation l),
       ls_started_at := or_keep (la_started_at a) (ls_started_at l),
       ls_heartbeat_at := or_keep (la_heartbeat_at a) (ls_heartbeat_at l),
       ls_error_code := or_keep (la_error_code a) (ls_error_code l),
       ls_error_message := or_keep (la_error_message a) (ls_error_message l)\<rparr>))"

definition register_ready ::
  "ProcessLease \<Rightarrow> string \<Rightarrow> string \<Rightarrow> int \<Rightarrow> int option \<Rightarrow> string option \<Rightarrow> ProcessLease result" where
  "register_ready l updated_at identity pid pgid token =
     lease_transition l READY updated_at
       (no_lease_args\<lparr>la_process_identity := Some identity, la_pid := Some pid, la_pgid := pgid,
          la_process_start_token := token\<rparr>)"

definition mark_running :: "ProcessLease \<Rightarrow> string \<Rightarrow> ProcessLease result" where
  "mark_running l updated_at = lease_transition l LEASE_RUNNING updated_at no_lease_args"

definition abort_intent :: "ProcessLease \<Rightarrow> string \<Rightarrow> string \<Rightarrow> string \<Rightarrow> ProcessLease result" where
  "abort_intent l updated_at code msg =
     lease_transition l TERMINATED updated_at (no_lease_args\<lparr>la_error_code := Some code, la_error_message := Some msg\<rparr>)"

definition mark_unproven :: "ProcessLease \<Rightarrow> string \<Rightarrow> string \<Rightarrow> string \<Rightarrow> ProcessLease result" where
  "mark_unproven l updated_at code msg =
     lease_transition l UNPROVEN updated_at (no_lease_args\<lparr>la_error_code := Some code, la_error_message := Some msg\<rparr>)"

definition begin_termination :: "ProcessLease \<Rightarrow> string \<Rightarrow> string option \<Rightarrow> ProcessLease result" where
  "begin_termination l updated_at heartbeat =
     lease_transition l TERMINATING updated_at (no_lease_args\<lparr>la_heartbeat_at := heartbeat\<rparr>)"

definition confirm_terminated :: "ProcessLease \<Rightarrow> string \<Rightarrow> ProcessLease result" where
  "confirm_terminated l updated_at = lease_transition l TERMINATED updated_at no_lease_args"

definition archive :: "ProcessLease \<Rightarrow> string \<Rightarrow> ProcessLease result" where
  "archive l updated_at = lease_transition l ARCHIVED updated_at no_lease_args"

definition survive_kill :: "ProcessLease \<Rightarrow> string \<Rightarrow> ProcessLease result" where
  "survive_kill l updated_at = lease_transition l KILLED updated_at no_lease_args"

definition quarantine :: "ProcessLease \<Rightarrow> string \<Rightarrow> string \<Rightarrow> string \<Rightarrow> ProcessLease result" where
  "quarantine l updated_at code msg =
     lease_transition l QUARANTINED updated_at (no_lease_args\<lparr>la_error_code := Some code, la_error_message := Some msg\<rparr>)"

section \<open>Payload\<close>

definition process_lease_payload :: "ProcessLease \<Rightarrow> pydict" where
  "process_lease_payload l =
     [(''lease_id'', VStr (ls_lease_id l)), (''status'', VStr (lease_status_value (ls_status l))),
      (''role'', VStr (role_value (ls_role l))), (''process_identity'', of_opt (ls_process_identity l)),
      (''pid'', of_opt_int (ls_pid l)), (''pgid'', of_opt_int (ls_pgid l)),
      (''process_start_token'', of_opt (ls_process_start_token l)), (''owner_pid'', of_opt_int (ls_owner_pid l)),
      (''owner_process_identity'', of_opt (ls_owner_process_identity l)), (''release_sha'', of_opt (ls_release_sha l)),
      (''generation'', of_opt_int (ls_generation l)), (''admission_epoch'', of_opt_int (ls_admission_epoch l)),
      (''started_at'', of_opt (ls_started_at l)), (''heartbeat_at'', of_opt (ls_heartbeat_at l)),
      (''correlation_id'', VStr (ls_correlation_id l)), (''created_at'', VStr (ls_created_at l)),
      (''updated_at'', VStr (ls_updated_at l)), (''error_code'', of_opt (ls_error_code l)),
      (''error_message'', of_opt (ls_error_message l))]"

definition lease_status_of :: "string \<Rightarrow> ProcessLeaseStatus result" where
  "lease_status_of s =
     (case filter (\<lambda>st. lease_status_value st = s)
         [REGISTERED, READY, UNPROVEN, LEASE_RUNNING, TERMINATING, TERMINATED, ARCHIVED, KILLED, QUARANTINED] of
        st # _ \<Rightarrow> Inr st
      | [] \<Rightarrow> Inl (ValueError (repr_str s @ '' is not a valid ProcessLeaseStatus'')))"

definition role_of :: "string \<Rightarrow> ProcessLeaseRole result" where
  "role_of s =
     (case filter (\<lambda>r. role_value r = s) [EXECUTION_DAEMON, OPERATION_WORKER, TUNNEL_CHILD] of
        r # _ \<Rightarrow> Inr r
      | [] \<Rightarrow> Inl (ValueError (repr_str s @ '' is not a valid ProcessLeaseRole'')))"

definition optional_int :: "pyval \<Rightarrow> int option result" where
  "optional_int v =
     (case v of VNone \<Rightarrow> Inr None | VInt i \<Rightarrow> Inr (Some i)
      | _ \<Rightarrow> Inl (ValueError ''process lease pid must be an integer''))"

definition LEASE_REQUIRED :: "string list" where
  "LEASE_REQUIRED = [''lease_id'', ''status'', ''role'', ''correlation_id'', ''created_at'', ''updated_at'']"

definition process_lease_from_payload :: "pydict \<Rightarrow> ProcessLease result" where
  "process_lease_from_payload d =
     (let g = dict_get_none d in
      if \<not> set LEASE_REQUIRED \<subseteq> keys_of d
      then Inl (ValueError ''process lease payload is missing required fields'')
      else bind_result (lease_status_of (py_str (g ''status''))) (\<lambda>st.
        bind_result (role_of (py_str (g ''role''))) (\<lambda>r.
        bind_result (optional_int (g ''pid'')) (\<lambda>pid.
        bind_result (optional_int (g ''pgid'')) (\<lambda>pgid.
        bind_result (optional_int (g ''owner_pid'')) (\<lambda>owner.
        bind_result (optional_int (g ''generation'')) (\<lambda>generation.
        bind_result (optional_int (g ''admission_epoch'')) (\<lambda>epoch.
        make_lease
          \<lparr>ls_lease_id = py_str (g ''lease_id''), ls_status = st, ls_process_identity = opt_str (g ''process_identity''),
           ls_pid = pid, ls_started_at = opt_str (g ''started_at''), ls_heartbeat_at = opt_str (g ''heartbeat_at''),
           ls_correlation_id = py_str (g ''correlation_id''), ls_created_at = py_str (g ''created_at''),
           ls_updated_at = py_str (g ''updated_at''), ls_error_code = opt_str (g ''error_code''),
           ls_error_message = opt_str (g ''error_message''), ls_role = r, ls_pgid = pgid,
           ls_process_start_token = opt_str (g ''process_start_token''), ls_owner_pid = owner,
           ls_owner_process_identity = opt_str (g ''owner_process_identity''),
           ls_release_sha = opt_str (g ''release_sha''), ls_generation = generation,
           ls_admission_epoch = epoch\<rparr>))))))))"

section \<open>The state machine\<close>

inductive lease_step :: "ProcessLease \<Rightarrow> ProcessLease \<Rightarrow> bool" where
  ready: "register_ready l now identity pid pgid token = Inr l' \<Longrightarrow> lease_step l l'"
| running: "mark_running l now = Inr l' \<Longrightarrow> lease_step l l'"
| abort: "abort_intent l now code msg = Inr l' \<Longrightarrow> lease_step l l'"
| unproven: "mark_unproven l now code msg = Inr l' \<Longrightarrow> lease_step l l'"
| terminating: "begin_termination l now heartbeat = Inr l' \<Longrightarrow> lease_step l l'"
| terminated: "confirm_terminated l now = Inr l' \<Longrightarrow> lease_step l l'"
| archived: "archive l now = Inr l' \<Longrightarrow> lease_step l l'"
| killed: "survive_kill l now = Inr l' \<Longrightarrow> lease_step l l'"
| quarantined: "quarantine l now code msg = Inr l' \<Longrightarrow> lease_step l l'"

lemmas lease_operations = register_ready_def mark_running_def abort_intent_def mark_unproven_def
  begin_termination_def confirm_terminated_def archive_def survive_kill_def quarantine_def

lemma make_lease_Inr [simp]: "make_lease l = Inr l' \<longleftrightarrow> lease_check l = None \<and> l' = l"
  by (auto simp: make_lease_def)

lemma or_keep_None [simp]: "or_keep None v = v"
  by (simp add: or_keep_def)

lemma no_lease_args_simps [simp]:
  "la_pid no_lease_args = None" "la_pgid no_lease_args = None" "la_process_identity no_lease_args = None"
  "la_process_start_token no_lease_args = None" "la_owner_pid no_lease_args = None"
  "la_owner_process_identity no_lease_args = None" "la_release_sha no_lease_args = None"
  "la_generation no_lease_args = None" "la_started_at no_lease_args = None" "la_heartbeat_at no_lease_args = None"
  "la_error_code no_lease_args = None" "la_error_message no_lease_args = None"
  by (simp_all add: no_lease_args_def)

text \<open>What identifies the process of a lease.\<close>

definition same_process :: "ProcessLease \<Rightarrow> ProcessLease \<Rightarrow> bool" where
  "same_process l l' \<longleftrightarrow> ls_pid l' = ls_pid l \<and> ls_pgid l' = ls_pgid l \<and>
     ls_process_identity l' = ls_process_identity l \<and> ls_process_start_token l' = ls_process_start_token l"

definition same_lease :: "ProcessLease \<Rightarrow> ProcessLease \<Rightarrow> bool" where
  "same_lease l l' \<longleftrightarrow> ls_lease_id l' = ls_lease_id l \<and> ls_role l' = ls_role l \<and>
     ls_correlation_id l' = ls_correlation_id l \<and> ls_created_at l' = ls_created_at l"

lemma lease_step_changes:
  assumes "lease_step l l'"
  shows "ls_status l' \<in> set (lease_transitions (ls_status l)) \<and> lease_check l' = None \<and> same_lease l l' \<and>
    (ls_status l' \<noteq> READY \<longrightarrow> same_process l l')"
  using assms
  by cases (auto simp: lease_operations lease_transition_def validate_lease_transition_def same_lease_def
      same_process_def elim!: bind_result_InrE)

lemma only_registered_becomes_ready: "READY \<in> set (lease_transitions s) \<longleftrightarrow> s = REGISTERED"
  by (cases s) simp_all

lemma transitions_never_register: "s' \<in> set (lease_transitions s) \<Longrightarrow> s' \<noteq> REGISTERED"
  by (cases s) auto

lemma inactive_closed:
  "s \<notin> set ACTIVE_LEASE_STATUSES \<Longrightarrow> s' \<in> set (lease_transitions s) \<Longrightarrow> s' \<notin> set ACTIVE_LEASE_STATUSES"
  by (cases s) (auto simp: ACTIVE_LEASE_STATUSES_def)

lemma lease_run_valid: "lease_step\<^sup>*\<^sup>* l l' \<Longrightarrow> lease_check l = None \<Longrightarrow> lease_check l' = None"
  by (induction rule: rtranclp_induct) (auto dest: lease_step_changes)

lemma lease_run_frame:
  assumes "lease_step\<^sup>*\<^sup>* l l'"
  shows "same_lease l l' \<and> (ls_status l \<noteq> REGISTERED \<longrightarrow> ls_status l' \<noteq> REGISTERED \<and> same_process l l')"
  using assms
proof (induction rule: rtranclp_induct)
  case (step y z)
  have y: "ls_status z \<in> set (lease_transitions (ls_status y))" "same_lease y z"
    "ls_status z \<noteq> READY \<longrightarrow> same_process y z" using lease_step_changes [OF step.hyps(2)] by auto
  moreover have "ls_status z \<noteq> REGISTERED" using transitions_never_register [OF y(1)] .
  moreover have "ls_status z = READY \<Longrightarrow> ls_status y = REGISTERED"
    using y(1) only_registered_becomes_ready by metis
  ultimately show ?case using step.IH by (auto simp: same_lease_def same_process_def)
qed (simp add: same_lease_def same_process_def)

section \<open>Properties\<close>

text \<open>
  Claim C31. A process is recorded once and a dead one stays dead: along any sequence of transitions
  the lease keeps its identity; once it has left the registered state the process it names (pid,
  group, identity and start token) never changes; and once it is terminated or archived it never
  counts as active again.
\<close>

theorem lease_run_keeps_process:
  assumes "lease_step\<^sup>*\<^sup>* l l'"
  shows "same_lease l l' \<and> (ls_status l \<noteq> REGISTERED \<longrightarrow> same_process l l') \<and>
    (ls_status l \<notin> set ACTIVE_LEASE_STATUSES \<longrightarrow> ls_status l' \<notin> set ACTIVE_LEASE_STATUSES)"
proof -
  have "ls_status l' \<notin> set ACTIVE_LEASE_STATUSES" if "ls_status l \<notin> set ACTIVE_LEASE_STATUSES"
    using assms that
    by (induction rule: rtranclp_induct) (auto dest: lease_step_changes inactive_closed)
  with lease_run_frame [OF assms] show ?thesis by blast
qed

lemma plain_transition:
  assumes "lease_check l = None" "t \<in> set (lease_transitions (ls_status l))" "py_strip now \<noteq> []"
  shows "lease_transition l t now no_lease_args = Inr (l\<lparr>ls_status := t, ls_updated_at := now\<rparr>)"
    and "lease_check (l\<lparr>ls_status := t, ls_updated_at := now\<rparr>) = None"
proof -
  show c: "lease_check (l\<lparr>ls_status := t, ls_updated_at := now\<rparr>) = None"
    using assms(1,3) by (simp add: lease_check_def require_non_empty_def)
  then show "lease_transition l t now no_lease_args = Inr (l\<lparr>ls_status := t, ls_updated_at := now\<rparr>)"
    using assms(2) by (simp add: lease_transition_def validate_lease_transition_def)
qed

lemma begin_termination_plain: "begin_termination l now None = lease_transition l TERMINATING now no_lease_args"
  by (simp add: begin_termination_def no_lease_args_def)

text \<open>One step on the way to termination: to running, to terminating or to terminated.\<close>

lemma plain_steps:
  assumes "lease_check l = None" "py_strip now \<noteq> []" "t \<in> {LEASE_RUNNING, TERMINATING, TERMINATED}"
    and "t \<in> set (lease_transitions (ls_status l))"
  shows "lease_step l (l\<lparr>ls_status := t, ls_updated_at := now\<rparr>)"
  using plain_transition(1) [OF assms(1,4,2)] assms(3)
    lease_step.running [of l now] lease_step.terminating [of l now None] lease_step.terminated [of l now]
  by (auto simp: mark_running_def confirm_terminated_def begin_termination_plain)

text \<open>
  Claim C32. No lease dangles: from every active status, a valid lease can be brought to terminated
  by the transition helpers, with any timestamp that is not blank.
\<close>

theorem active_lease_can_terminate:
  assumes "lease_check l = None" "ls_status l \<in> set ACTIVE_LEASE_STATUSES" "py_strip now \<noteq> []"
  shows "\<exists>l'. lease_step\<^sup>*\<^sup>* l l' \<and> ls_status l' = TERMINATED \<and> lease_check l' = None"
proof -
  have fin: "\<exists>l'. lease_step\<^sup>*\<^sup>* k l' \<and> ls_status l' = TERMINATED \<and> lease_check l' = None"
    if "lease_check k = None" "ls_status k \<in> {REGISTERED, UNPROVEN, TERMINATING, KILLED, QUARANTINED}" for k
  proof -
    have "TERMINATED \<in> set (lease_transitions (ls_status k))" using that(2) by auto
    with plain_steps [OF that(1) assms(3), of TERMINATED] plain_transition(2) [OF that(1) _ assms(3), of TERMINATED]
    show ?thesis by (intro exI [of _ "k\<lparr>ls_status := TERMINATED, ls_updated_at := now\<rparr>"]) auto
  qed
  have run: "\<exists>l'. lease_step\<^sup>*\<^sup>* k l' \<and> ls_status l' = TERMINATED \<and> lease_check l' = None"
    if "lease_check k = None" "ls_status k = LEASE_RUNNING" for k
  proof -
    let ?k = "k\<lparr>ls_status := TERMINATING, ls_updated_at := now\<rparr>"
    have "lease_step k ?k" "lease_check ?k = None"
      using plain_steps [OF that(1) assms(3), of TERMINATING] plain_transition(2) [OF that(1) _ assms(3), of TERMINATING] that(2)
      by auto
    with fin [of ?k] show ?thesis by (auto intro: converse_rtranclp_into_rtranclp)
  qed
  show ?thesis
  proof (cases "ls_status l = READY")
    case True
    let ?k = "l\<lparr>ls_status := LEASE_RUNNING, ls_updated_at := now\<rparr>"
    have "lease_step l ?k" "lease_check ?k = None"
      using plain_steps [OF assms(1,3), of LEASE_RUNNING] plain_transition(2) [OF assms(1) _ assms(3), of LEASE_RUNNING] True
      by auto
    with run [of ?k] show ?thesis by (auto intro: converse_rtranclp_into_rtranclp)
  next
    case False
    with assms(2) have "ls_status l = LEASE_RUNNING \<or> ls_status l \<in> {REGISTERED, UNPROVEN, TERMINATING, KILLED, QUARANTINED}"
      by (auto simp: ACTIVE_LEASE_STATUSES_def)
    with run [OF assms(1)] fin [OF assms(1)] show ?thesis by blast
  qed
qed

lemma lease_enums [simp]: "lease_status_of (lease_status_value s) = Inr s" "role_of (role_value r) = Inr r"
  by (cases s; simp add: lease_status_of_def) (cases r; simp add: role_of_def)

lemma optional_int_of [simp]: "optional_int (of_opt_int v) = Inr v"
  by (cases v) (simp_all add: optional_int_def of_opt_int_def)

lemma lease_decode:
  assumes "lease_check l = None"
  shows "process_lease_from_payload (process_lease_payload l) = Inr l"
proof -
  let ?d = "process_lease_payload l"
  have keys: "set LEASE_REQUIRED \<subseteq> keys_of ?d"
    by (simp add: LEASE_REQUIRED_def keys_of_def process_lease_payload_def)
  have g: "dict_get_none ?d ''lease_id'' = VStr (ls_lease_id l)"
    "dict_get_none ?d ''status'' = VStr (lease_status_value (ls_status l))"
    "dict_get_none ?d ''role'' = VStr (role_value (ls_role l))"
    "dict_get_none ?d ''process_identity'' = of_opt (ls_process_identity l)"
    "dict_get_none ?d ''pid'' = of_opt_int (ls_pid l)" "dict_get_none ?d ''pgid'' = of_opt_int (ls_pgid l)"
    "dict_get_none ?d ''process_start_token'' = of_opt (ls_process_start_token l)"
    "dict_get_none ?d ''owner_pid'' = of_opt_int (ls_owner_pid l)"
    "dict_get_none ?d ''owner_process_identity'' = of_opt (ls_owner_process_identity l)"
    "dict_get_none ?d ''release_sha'' = of_opt (ls_release_sha l)"
    "dict_get_none ?d ''generation'' = of_opt_int (ls_generation l)"
    "dict_get_none ?d ''admission_epoch'' = of_opt_int (ls_admission_epoch l)"
    "dict_get_none ?d ''started_at'' = of_opt (ls_started_at l)"
    "dict_get_none ?d ''heartbeat_at'' = of_opt (ls_heartbeat_at l)"
    "dict_get_none ?d ''correlation_id'' = VStr (ls_correlation_id l)"
    "dict_get_none ?d ''created_at'' = VStr (ls_created_at l)"
    "dict_get_none ?d ''updated_at'' = VStr (ls_updated_at l)"
    "dict_get_none ?d ''error_code'' = of_opt (ls_error_code l)"
    "dict_get_none ?d ''error_message'' = of_opt (ls_error_message l)"
    by (simp_all add: process_lease_payload_def dict_get_none_def)
  have eq: "\<lparr>ls_lease_id = ls_lease_id l, ls_status = ls_status l, ls_process_identity = ls_process_identity l,
      ls_pid = ls_pid l, ls_started_at = ls_started_at l, ls_heartbeat_at = ls_heartbeat_at l, ls_correlation_id =
      ls_correlation_id l, ls_created_at = ls_created_at l, ls_updated_at = ls_updated_at l, ls_error_code =
      ls_error_code l, ls_error_message = ls_error_message l, ls_role = ls_role l, ls_pgid = ls_pgid l,
      ls_process_start_token = ls_process_start_token l, ls_owner_pid = ls_owner_pid l, ls_owner_process_identity =
      ls_owner_process_identity l, ls_release_sha = ls_release_sha l, ls_generation = ls_generation l,
      ls_admission_epoch = ls_admission_epoch l\<rparr> = l" by simp
  show ?thesis using keys assms by (simp add: process_lease_from_payload_def g eq)
qed

text \<open>
  Persisting a lease loses nothing: every lease reached by transitions from a valid one is
  decoded exactly from its payload.
\<close>

theorem process_lease_roundtrip:
  assumes "lease_check l = None" "lease_step\<^sup>*\<^sup>* l l'"
  shows "process_lease_from_payload (process_lease_payload l') = Inr l'"
  using lease_decode [OF lease_run_valid [OF assms(2,1)]] .

subsection \<open>Witnesses\<close>

definition example_lease :: "ProcessLeaseStatus \<Rightarrow> ProcessLease" where
  "example_lease s =
     \<lparr>ls_lease_id = ''worker-0000aa'', ls_status = s, ls_process_identity = Some ''p1'', ls_pid = Some 42,
      ls_started_at = None, ls_heartbeat_at = None, ls_correlation_id = ''c1'', ls_created_at = ''t0'',
      ls_updated_at = ''t1'', ls_error_code = None, ls_error_message = None, ls_role = OPERATION_WORKER,
      ls_pgid = None, ls_process_start_token = None, ls_owner_pid = None, ls_owner_process_identity = None,
      ls_release_sha = None, ls_generation = Some 3, ls_admission_epoch = None\<rparr>"

lemma plain_words: "py_strip ''t2'' \<noteq> []"
  by code_simp

lemma example_lease_valid: "lease_check (example_lease s) = None"
  by code_simp

theorem lease_run_keeps_process_witness:
  "lease_step (example_lease TERMINATED) (example_lease TERMINATED\<lparr>ls_status := ARCHIVED, ls_updated_at := ''t2''\<rparr>) \<and>
   same_process (example_lease TERMINATED) (example_lease TERMINATED\<lparr>ls_status := ARCHIVED, ls_updated_at := ''t2''\<rparr>)"
proof -
  have "archive (example_lease TERMINATED) ''t2'' = Inr (example_lease TERMINATED\<lparr>ls_status := ARCHIVED, ls_updated_at := ''t2''\<rparr>)"
    unfolding archive_def
    by (rule plain_transition(1) [OF example_lease_valid _ plain_words]) (simp add: example_lease_def)
  then have s: "lease_step (example_lease TERMINATED) (example_lease TERMINATED\<lparr>ls_status := ARCHIVED, ls_updated_at := ''t2''\<rparr>)"
    by (rule lease_step.archived)
  have "ls_status (example_lease TERMINATED) \<noteq> REGISTERED" by (simp add: example_lease_def)
  with s lease_run_keeps_process [OF r_into_rtranclp, OF s] show ?thesis by blast
qed

theorem active_lease_can_terminate_witness:
  "\<exists>l'. lease_step\<^sup>*\<^sup>* (example_lease READY) l' \<and> ls_status l' = TERMINATED \<and> lease_check l' = None"
  by (rule active_lease_can_terminate [OF example_lease_valid _ plain_words])
     (simp add: example_lease_def ACTIVE_LEASE_STATUSES_def)

theorem process_lease_roundtrip_witness:
  "process_lease_from_payload (process_lease_payload (example_lease KILLED)) = Inr (example_lease KILLED)"
  by (rule process_lease_roundtrip [OF example_lease_valid rtranclp.rtrancl_refl])

end
