(* ===== verification/Lease_Store.thy ===== *)
theory Lease_Store
  imports State_Repository Process_Lease
begin

text \<open>
  adapters/persistence/json\_process\_lease\_adapter.py: the process leases in two collections of the
  state repository, the active one and the history of terminated leases. Scans read one snapshot of
  the active collection; \<open>collect_terminal\<close> runs while other processes save leases.
\<close>

section \<open>The adapter\<close>

definition LEASE_ID :: regex where
  "LEASE_ID = seqs [many (\<lambda>c. is_ascii_lower c \<or> is_digit c) 1, One (\<lambda>c. c = CHR ''-''), upto is_lower_hex 6 64]"

definition validate_lease_id :: "string \<Rightarrow> exn option" where
  "validate_lease_id i = raise_if (\<not> fullmatch LEASE_ID i)
     (ValueError ''process lease id must look like <kind>-<hex> (e.g. worker-0000... or lease-0000...)'')"

definition lease_repo :: "ProcessLease state_repo" where
  "lease_repo = \<lparr>sr_encode = process_lease_payload, sr_decode = process_lease_from_payload, sr_version = 1,
     sr_id_validator = validate_lease_id, sr_max_bytes = 8192\<rparr>"

record lease_files =
  lf_active :: files
  lf_history :: files

definition lease_create :: "lease_files \<Rightarrow> ProcessLease \<Rightarrow> (lease_files \<times> ProcessLease StateEnvelope) result" where
  "lease_create st l =
     bind_result (checked (validate_lease_id (ls_lease_id l)) ()) (\<lambda>_.
     bind_result (repo_create lease_repo (lf_active st) (ls_lease_id l) l) (\<lambda>(a, e). Inr (st\<lparr>lf_active := a\<rparr>, e)))"

definition lease_read :: "lease_files \<Rightarrow> string \<Rightarrow> ProcessLease StateEnvelope option result" where
  "lease_read st i =
     bind_result (checked (validate_lease_id i) ()) (\<lambda>_.
     bind_result (repo_read lease_repo (lf_active st) i) (\<lambda>e.
     if e \<noteq> None then Inr e else repo_read lease_repo (lf_history st) i))"

definition lease_save :: "lease_files \<Rightarrow> ProcessLease \<Rightarrow> int \<Rightarrow> (lease_files \<times> ProcessLease StateEnvelope) result" where
  "lease_save st l expected =
     bind_result (checked (validate_lease_id (ls_lease_id l)) ()) (\<lambda>_.
     bind_result (repo_save lease_repo (lf_active st) (ls_lease_id l) l expected) (\<lambda>(a, e). Inr (st\<lparr>lf_active := a\<rparr>, e)))"

definition lease_list_all :: "lease_files \<Rightarrow> int \<Rightarrow> ProcessLease StatePage result" where
  "lease_list_all st n = repo_list lease_repo (lf_active st) n"

definition lease_delete :: "lease_files \<Rightarrow> string \<Rightarrow> int \<Rightarrow> (lease_files \<times> bool) result" where
  "lease_delete st i expected =
     bind_result (checked (validate_lease_id i) ()) (\<lambda>_.
     bind_result (repo_delete_if_revision lease_repo (lf_active st) i expected) (\<lambda>(a, b). Inr (st\<lparr>lf_active := a\<rparr>, b)))"

section \<open>Archiving\<close>

definition TERMINAL_STATUSES :: "ProcessLeaseStatus list" where
  "TERMINAL_STATUSES = [TERMINATED, ARCHIVED]"

text \<open>
  The loop of \<open>collect_terminal\<close>; \<open>others k\<close> is what other processes do to the active collection
  before the \<open>k\<close>-th deletion. An error of the copy or of the deletion is swallowed, an error of the
  first read is not.
\<close>

fun collect_loop ::
  "(nat \<Rightarrow> files \<Rightarrow> files) \<Rightarrow> nat \<Rightarrow> string list \<Rightarrow> lease_files \<Rightarrow> nat \<Rightarrow> (lease_files \<times> nat) result" where
  "collect_loop others k [] st moved = Inr (st, moved)"
| "collect_loop others k (i # is) st moved =
     (case repo_read lease_repo (lf_active st) i of
        Inl x \<Rightarrow> Inl x
      | Inr None \<Rightarrow> collect_loop others k is st moved
      | Inr (Some e) \<Rightarrow>
          if ls_status (env_value e) \<notin> set TERMINAL_STATUSES then collect_loop others k is st moved
          else (case repo_create_or_read_equal lease_repo (lf_history st) i (env_value e) of
                  Inl _ \<Rightarrow> collect_loop others k is st moved
                | Inr (h, _) \<Rightarrow>
                    (let a = others k (lf_active st) in
                     case repo_delete_if_revision lease_repo a i (env_revision e) of
                       Inl _ \<Rightarrow> collect_loop others (Suc k) is \<lparr>lf_active = a, lf_history = h\<rparr> moved
                     | Inr (a', _) \<Rightarrow> collect_loop others (Suc k) is \<lparr>lf_active = a', lf_history = h\<rparr> (Suc moved))))"

definition collect_terminal :: "(nat \<Rightarrow> files \<Rightarrow> files) \<Rightarrow> lease_files \<Rightarrow> int \<Rightarrow> (lease_files \<times> nat) result" where
  "collect_terminal others st n =
     bind_result (repo_list_ids (lf_active st) n 0) (\<lambda>(ids, _). collect_loop others 0 ids st 0)"

definition archive_terminal :: "(files \<Rightarrow> files) \<Rightarrow> lease_files \<Rightarrow> string \<Rightarrow> int \<Rightarrow> (lease_files \<times> bool) result" where
  "archive_terminal others st i expected =
     bind_result (checked (validate_lease_id i) ()) (\<lambda>_.
     bind_result (repo_read lease_repo (lf_active st) i) (\<lambda>r.
     case r of None \<Rightarrow> Inr (st, False)
     | Some e \<Rightarrow>
         if env_revision e \<noteq> expected \<or> ls_status (env_value e) \<notin> set TERMINAL_STATUSES then Inr (st, False)
         else (case repo_create_or_read_equal lease_repo (lf_history st) i (env_value e) of
                 Inl _ \<Rightarrow> Inr (st, False)
               | Inr (h, _) \<Rightarrow>
                   bind_result (repo_delete_if_revision lease_repo (others (lf_active st)) i expected) (\<lambda>(a, b).
                   Inr (\<lparr>lf_active = a, lf_history = h\<rparr>, b)))))"

section \<open>Listing\<close>

record ProcessLeasePage =
  lp_records :: "ProcessLease list"
  lp_scan_complete :: bool
  lp_unreadable :: "string list"

definition ACTIVE_SCAN_CAP :: nat where
  "ACTIVE_SCAN_CAP = 100000"

definition SCAN_PAGE_SIZE :: nat where
  "SCAN_PAGE_SIZE = 2000"

definition role_matches :: "ProcessLeaseRole option \<Rightarrow> ProcessLease \<Rightarrow> bool" where
  "role_matches role l \<longleftrightarrow> (case role of None \<Rightarrow> True | Some r \<Rightarrow> ls_role l = r)"

fun read_records ::
  "files \<Rightarrow> string list \<Rightarrow> ProcessLeaseRole option \<Rightarrow> bool \<Rightarrow> ProcessLease list \<times> string list" where
  "read_records fs [] role active_only = ([], [])"
| "read_records fs (i # is) role active_only =
     (let (rs, us) = read_records fs is role active_only in
      case repo_read lease_repo fs i of
        Inl _ \<Rightarrow> (rs, i # us)
      | Inr None \<Rightarrow> (rs, us)
      | Inr (Some e) \<Rightarrow>
          if (active_only \<and> ls_status (env_value e) \<notin> set ACTIVE_LEASE_STATUSES) \<or> \<not> role_matches role (env_value e)
          then (rs, us) else (env_value e # rs, us))"

text \<open>
  One page of \<open>_scan_active_ids\<close>, with the records and unreadable ids so far: the last component
  says that the scan stopped because it holds more than \<open>n\<close> records.
\<close>

fun scan_page ::
  "files \<Rightarrow> ProcessLeaseRole option \<Rightarrow> nat \<Rightarrow> string list \<Rightarrow> ProcessLease list \<Rightarrow> string list \<Rightarrow>
   ProcessLease list \<times> string list \<times> bool" where
  "scan_page fs role n [] rs us = (rs, us, False)"
| "scan_page fs role n (i # is) rs us =
     (case repo_read lease_repo fs i of
        Inl _ \<Rightarrow> scan_page fs role n is rs (us @ [i])
      | Inr None \<Rightarrow> scan_page fs role n is rs us
      | Inr (Some e) \<Rightarrow>
          if ls_status (env_value e) \<notin> set ACTIVE_LEASE_STATUSES \<or> \<not> role_matches role (env_value e)
          then scan_page fs role n is rs us
          else if n < length (rs @ [env_value e]) then (rs @ [env_value e], us, True)
          else scan_page fs role n is (rs @ [env_value e]) us)"

function scan_active_ids ::
  "files \<Rightarrow> ProcessLeaseRole option \<Rightarrow> nat \<Rightarrow> nat \<Rightarrow> ProcessLease list \<Rightarrow> string list \<Rightarrow>
   ProcessLease list \<times> string list \<times> bool" where
  "scan_active_ids fs role n offset rs us =
     (let (ids, cut) = list_ids [] fs SCAN_PAGE_SIZE offset in
      if ids = [] then (rs, us, \<not> cut)
      else let (rs', us', stopped) = scan_page fs role n ids rs us in
        if stopped then (rs', us', False)
        else if \<not> cut then (rs', us', True)
        else scan_active_ids fs role n (offset + length ids) rs' us')"
  by auto
termination
  by (relation "measure (\<lambda>(fs, role, n, offset, rs, us). length fs - offset)")
     (auto simp: list_ids_def Let_def startswith_def SCAN_PAGE_SIZE_def)

declare scan_active_ids.simps [simp del]

definition lease_list :: "lease_files \<Rightarrow> ProcessLeaseRole option \<Rightarrow> int \<Rightarrow> bool \<Rightarrow> ProcessLeasePage result" where
  "lease_list st role n active_only =
     (if n \<le> 0 \<or> 2000 < n then Inl (ValueError ''max_records must be between 1 and 2000'')
      else if \<not> active_only then
        (let (ids, cut) = list_ids [] (lf_active st) ACTIVE_SCAN_CAP 0;
             (rs, us) = read_records (lf_active st) ids role False
         in Inr \<lparr>lp_records = take (nat n) (sort_key ls_lease_id rs),
                 lp_scan_complete = (\<not> cut \<and> length rs \<le> nat n), lp_unreadable = sort us\<rparr>)
      else
        (let (rs, us, exhausted) = scan_active_ids (lf_active st) role (nat n) 0 [] []
         in Inr \<lparr>lp_records = take (nat n) (sort_key ls_lease_id rs),
                 lp_scan_complete = (exhausted \<and> length rs \<le> nat n), lp_unreadable = sort us\<rparr>))"

definition list_page :: "lease_files \<Rightarrow> ProcessLeaseRole option \<Rightarrow> int \<Rightarrow> ProcessLeasePage result" where
  "list_page st role n = lease_list st role n False"

definition list_active_page :: "lease_files \<Rightarrow> ProcessLeaseRole option \<Rightarrow> int \<Rightarrow> ProcessLeasePage result" where
  "list_active_page st role n = lease_list st role n True"

section \<open>Lemmas: the codec\<close>

lemma lease_payload_distinct: "distinct (map fst (process_lease_payload l))"
  by (simp add: process_lease_payload_def)

lemma from_payload_cong:
  assumes "dict_get_none d = dict_get_none d'" "keys_of d = keys_of d'"
  shows "process_lease_from_payload d = process_lease_from_payload d'"
  unfolding process_lease_from_payload_def assms ..

lemma lease_codec_keeps:
  assumes "lease_check l = None"
  shows "codec_keeps lease_repo l"
proof -
  let ?d = "process_lease_payload l"
  let ?d' = "map (\<lambda>kv. (fst kv, json_sorted (snd kv))) (sort_key fst ?d)"
  have "\<forall>kv \<in> set ?d. json_sorted (snd kv) = snd kv"
    by (simp add: process_lease_payload_def)
  then have "json_sorted (dict_get_none ?d k) = dict_get_none ?d k" for k
    by (auto simp: dict_get_none_def split: option.split dest!: map_of_SomeD)
  then have g: "dict_get_none ?d' = dict_get_none ?d"
    by (intro ext) (simp only: dict_get_none_sorted [OF lease_payload_distinct])
  have "process_lease_from_payload ?d' = process_lease_from_payload ?d"
    by (rule from_payload_cong [OF g]) (simp add: keys_of_def image_image)
  also have "\<dots> = Inr l" by (rule lease_decode [OF assms])
  finally show ?thesis by (simp add: codec_keeps_def lease_repo_def)
qed

text \<open>What the decoder returns has passed the checks of the class.\<close>

lemma from_payload_valid: "process_lease_from_payload d = Inr l \<Longrightarrow> lease_check l = None"
  by (auto simp: process_lease_from_payload_def Let_def elim!: bind_result_InrE split: if_splits)

lemma decode_envelope_dict:
  assumes "decode_envelope cfg f i = Inr e"
  obtains raw where "f = Json (VDict raw)"
proof (cases f)
  case (Json v)
  with assms that show thesis by (cases v) (simp_all add: decode_envelope_def split: if_splits)
qed (use assms in \<open>simp add: decode_envelope_def split: if_splits\<close>)

lemma lease_read_valid:
  assumes "repo_read lease_repo fs i = Inr (Some e)"
  shows "lease_check (env_value e) = None"
proof -
  from assms obtain f where "decode_envelope lease_repo f i = Inr e"
    by (auto simp: repo_read_def elim!: bind_result_InrE split: option.splits)
  moreover from this obtain raw where "f = Json (VDict raw)" by (rule decode_envelope_dict)
  ultimately have "decode_envelope lease_repo (Json (VDict raw)) i = Inr e" by simp
  then obtain p where "sr_decode lease_repo p = Inr (env_value e)" by (rule decode_envelope_value)
  then show ?thesis by (simp add: lease_repo_def from_payload_valid)
qed

section \<open>Lemmas: archiving\<close>

lemma create_or_read_equal_reads:
  assumes "repo_create_or_read_equal cfg fs i v = Inr (fs', c)" "codec_keeps cfg v"
  shows "repo_read cfg fs' i = Inr (Some c) \<and> env_value c = v"
    and "j \<noteq> i \<Longrightarrow> repo_read cfg fs' j = repo_read cfg fs j"
    and "repo_read cfg fs i = Inr (Some x) \<Longrightarrow> repo_read cfg fs' i = Inr (Some x)"
proof -
  from assms(1) consider (old) d where "repo_read cfg fs i = Inr (Some d)" "env_value d = v" "fs' = fs" "c = d"
    | (fresh) data where "repo_id cfg i = Inr ()" "repo_read cfg fs i = Inr None" "c = new_envelope cfg i 1 v"
        "encode_envelope cfg (new_envelope cfg i 1 v) = Inr data" "write_file (sr_max_bytes cfg) fs i data = Inr fs'"
    by (auto simp: repo_create_or_read_equal_def elim!: bind_result_InrE split: option.splits if_splits)
  note cases = this
  show "repo_read cfg fs' i = Inr (Some c) \<and> env_value c = v"
  proof (cases rule: cases)
    case fresh
    with read_written(1) [OF assms(2) zero_less_one fresh(1,4,5)] show ?thesis by (simp add: new_envelope_def)
  qed simp
  show "repo_read cfg fs' j = repo_read cfg fs j" if "j \<noteq> i"
  proof (cases rule: cases)
    case fresh
    with read_written(2) [OF assms(2) zero_less_one fresh(1,4,5) that] show ?thesis by simp
  qed simp
  show "repo_read cfg fs' i = Inr (Some x)" if "repo_read cfg fs i = Inr (Some x)"
    by (cases rule: cases) (use that in simp_all)
qed

lemma delete_if_revision_cases:
  assumes "repo_delete_if_revision cfg fs i r = Inr (fs', b)"
  obtains "fs' = fs" "\<not> b"
  | c where "repo_read cfg fs i = Inr (Some c)" "env_revision c = r" "repo_read cfg fs' i = Inr None" "b"
      "\<And>j. j \<noteq> i \<Longrightarrow> repo_read cfg fs' j = repo_read cfg fs j"
proof (cases b)
  case True
  with assms obtain c where "repo_id cfg i = Inr ()" "repo_read cfg fs i = Inr (Some c)" "env_revision c = r" "fs' = delete_file fs i"
    by (auto simp: repo_delete_if_revision_def elim!: bind_result_InrE split: option.splits if_splits)
  with True that(2) [of c] show thesis by (auto simp: repo_read_def read_file_def map_of_delete_file)
next
  case False
  with assms that(1) show thesis
    by (auto simp: repo_delete_if_revision_def elim!: bind_result_InrE split: option.splits if_splits)
qed

text \<open>No lease is lost between two states of the adapter: what was active still is, no older, or has
  its terminal form in the history; and the history keeps what it had.\<close>

definition archives :: "lease_files \<Rightarrow> lease_files \<Rightarrow> bool" where
  "archives st st' \<longleftrightarrow>
     (\<forall>i e. repo_read lease_repo (lf_active st) i = Inr (Some e) \<longrightarrow>
        (\<exists>e'. repo_read lease_repo (lf_active st') i = Inr (Some e') \<and> env_revision e \<le> env_revision e' \<and>
           (env_revision e' = env_revision e \<longrightarrow> e' = e)) \<or>
        (\<exists>x. repo_read lease_repo (lf_history st') i = Inr (Some x) \<and> ls_status (env_value x) \<in> set TERMINAL_STATUSES)) \<and>
     (\<forall>i x. repo_read lease_repo (lf_history st) i = Inr (Some x) \<longrightarrow> repo_read lease_repo (lf_history st') i = Inr (Some x))"

lemma archives_refl: "archives st st"
  by (simp add: archives_def)

lemma archives_trans:
  assumes "archives a b" "archives b c"
  shows "archives a c"
  unfolding archives_def
proof (intro conjI allI impI)
  fix i e assume e: "repo_read lease_repo (lf_active a) i = Inr (Some e)"
  show "(\<exists>e'. repo_read lease_repo (lf_active c) i = Inr (Some e') \<and> env_revision e \<le> env_revision e' \<and>
           (env_revision e' = env_revision e \<longrightarrow> e' = e)) \<or>
        (\<exists>x. repo_read lease_repo (lf_history c) i = Inr (Some x) \<and> ls_status (env_value x) \<in> set TERMINAL_STATUSES)"
  proof (cases "\<exists>x. repo_read lease_repo (lf_history b) i = Inr (Some x) \<and> ls_status (env_value x) \<in> set TERMINAL_STATUSES")
    case True
    then show ?thesis using assms(2) unfolding archives_def by blast
  next
    case False
    then obtain e' where e': "repo_read lease_repo (lf_active b) i = Inr (Some e')" "env_revision e \<le> env_revision e'"
      "env_revision e' = env_revision e \<longrightarrow> e' = e"
      using assms(1) e unfolding archives_def by blast
    from assms(2) e'(1) consider
        (kept) e'' where "repo_read lease_repo (lf_active c) i = Inr (Some e'')" "env_revision e' \<le> env_revision e''"
          "env_revision e'' = env_revision e' \<longrightarrow> e'' = e'"
      | (moved) x where "repo_read lease_repo (lf_history c) i = Inr (Some x)" "ls_status (env_value x) \<in> set TERMINAL_STATUSES"
      unfolding archives_def by blast
    then show ?thesis
    proof cases
      case kept
      with e' have "env_revision e \<le> env_revision e''" "env_revision e'' = env_revision e \<longrightarrow> e'' = e" by auto
      with kept(1) show ?thesis by blast
    qed blast
  qed
next
  fix i x assume "repo_read lease_repo (lf_history a) i = Inr (Some x)"
  with assms show "repo_read lease_repo (lf_history c) i = Inr (Some x)" unfolding archives_def by blast
qed

lemma archives_advance:
  assumes "advances lease_repo (lf_active st) a"
    and "repo_create_or_read_equal lease_repo (lf_history st) i (env_value e) = Inr (h, c)"
    and "repo_read lease_repo (lf_active st) i = Inr (Some e)"
  shows "archives st \<lparr>lf_active = a, lf_history = h\<rparr>"
proof -
  note h = create_or_read_equal_reads [OF assms(2) lease_codec_keeps [OF lease_read_valid [OF assms(3)]]]
  have "repo_read lease_repo h j = Inr (Some x)" if "repo_read lease_repo (lf_history st) j = Inr (Some x)" for j x
    using that h(2,3) by (cases "j = i") auto
  with assms(1) show ?thesis by (auto simp: archives_def advances_def)
qed

text \<open>One lease moved: the copy is made, other processes act, and the deletion finds the revision copied.\<close>

lemma archives_move:
  assumes adv: "advances lease_repo (lf_active st) a"
    and copy: "repo_create_or_read_equal lease_repo (lf_history st) i (env_value e) = Inr (h, c)"
    and e: "repo_read lease_repo (lf_active st) i = Inr (Some e)" "ls_status (env_value e) \<in> set TERMINAL_STATUSES"
    and del: "repo_delete_if_revision lease_repo a i (env_revision e) = Inr (a', b)"
  shows "archives st \<lparr>lf_active = a', lf_history = h\<rparr>"
  using del
proof (cases rule: delete_if_revision_cases)
  case 1
  with archives_advance [OF adv copy e(1)] show ?thesis by simp
next
  case (2 d)
  have copied: "repo_read lease_repo h i = Inr (Some c)" "env_value c = env_value e"
    using create_or_read_equal_reads(1) [OF copy lease_codec_keeps [OF lease_read_valid [OF e(1)]]] by auto
  have "archives \<lparr>lf_active = a, lf_history = h\<rparr> \<lparr>lf_active = a', lf_history = h\<rparr>"
    unfolding archives_def
  proof (intro conjI allI impI)
    fix j x assume x: "repo_read lease_repo (lf_active \<lparr>lf_active = a, lf_history = h\<rparr>) j = Inr (Some x)"
    show "(\<exists>e'. repo_read lease_repo (lf_active \<lparr>lf_active = a', lf_history = h\<rparr>) j = Inr (Some e') \<and>
          env_revision x \<le> env_revision e' \<and> (env_revision e' = env_revision x \<longrightarrow> e' = x)) \<or>
        (\<exists>y. repo_read lease_repo (lf_history \<lparr>lf_active = a', lf_history = h\<rparr>) j = Inr (Some y) \<and>
          ls_status (env_value y) \<in> set TERMINAL_STATUSES)"
      using x 2(5) copied e(2) by (cases "j = i") auto
  qed simp
  with archives_advance [OF adv copy e(1)] show ?thesis by (rule archives_trans)
qed

lemma collect_loop_archives:
  assumes "collect_loop others k is st moved = Inr (st', m)" "\<And>k s. advances lease_repo s (others k s)"
  shows "archives st st'"
  using assms(1)
proof (induction "is" arbitrary: k st moved)
  case Nil
  then show ?case by (simp add: archives_refl)
next
  case (Cons i "is")
  show ?case
  proof (cases "\<exists>e h c. repo_read lease_repo (lf_active st) i = Inr (Some e) \<and> ls_status (env_value e) \<in> set TERMINAL_STATUSES \<and>
      repo_create_or_read_equal lease_repo (lf_history st) i (env_value e) = Inr (h, c)")
    case False
    then have "collect_loop others k is st moved = Inr (st', m)"
      using Cons.prems by (auto split: sum.splits option.splits if_splits prod.splits)
    then show ?thesis by (rule Cons.IH)
  next
    case True
    then obtain e h c where e: "repo_read lease_repo (lf_active st) i = Inr (Some e)"
      "ls_status (env_value e) \<in> set TERMINAL_STATUSES"
      and copy: "repo_create_or_read_equal lease_repo (lf_history st) i (env_value e) = Inr (h, c)" by blast
    let ?a = "others k (lf_active st)"
    show ?thesis
    proof (cases "repo_delete_if_revision lease_repo ?a i (env_revision e)")
      case (Inl x)
      then have "archives \<lparr>lf_active = ?a, lf_history = h\<rparr> st'"
        using Cons.prems e copy by (intro Cons.IH [of "Suc k" _ moved]) (simp add: Let_def)
      with archives_advance [OF assms(2) copy e(1)] show ?thesis by (rule archives_trans)
    next
      case (Inr r)
      then obtain a' b where del: "repo_delete_if_revision lease_repo ?a i (env_revision e) = Inr (a', b)" by (cases r) simp
      then have "archives \<lparr>lf_active = a', lf_history = h\<rparr> st'"
        using Cons.prems e copy by (intro Cons.IH [of "Suc k" _ "Suc moved"]) (simp add: Let_def)
      with archives_move [OF assms(2) copy e del] show ?thesis by (rule archives_trans)
    qed
  qed
qed

section \<open>Lemmas: scans\<close>

definition wanted :: "ProcessLeaseRole option \<Rightarrow> ProcessLease \<Rightarrow> bool" where
  "wanted role l \<longleftrightarrow> ls_status l \<in> set ACTIVE_LEASE_STATUSES \<and> role_matches role l"

text \<open>The active leases, and the unreadable ids, among some ids.\<close>

definition active_among :: "files \<Rightarrow> ProcessLeaseRole option \<Rightarrow> string list \<Rightarrow> ProcessLease list" where
  "active_among fs role is = concat (map (\<lambda>i. case repo_read lease_repo fs i of
     Inr (Some e) \<Rightarrow> if wanted role (env_value e) then [env_value e] else [] | _ \<Rightarrow> []) is)"

definition unreadable_among :: "files \<Rightarrow> string list \<Rightarrow> string list" where
  "unreadable_among fs is = filter (\<lambda>i. \<exists>x. repo_read lease_repo fs i = Inl x) is"

lemma among_Nil [simp]: "active_among fs role [] = []" "unreadable_among fs [] = []"
  by (simp_all add: active_among_def unreadable_among_def)

lemma among_append [simp]:
  "active_among fs role (is @ js) = active_among fs role is @ active_among fs role js"
  "unreadable_among fs (is @ js) = unreadable_among fs is @ unreadable_among fs js"
  by (simp_all add: active_among_def unreadable_among_def)

lemma among_Cons:
  "repo_read lease_repo fs i = Inl x \<Longrightarrow>
     active_among fs role (i # is) = active_among fs role is \<and> unreadable_among fs (i # is) = i # unreadable_among fs is"
  "repo_read lease_repo fs i = Inr None \<Longrightarrow>
     active_among fs role (i # is) = active_among fs role is \<and> unreadable_among fs (i # is) = unreadable_among fs is"
  "repo_read lease_repo fs i = Inr (Some e) \<Longrightarrow>
     active_among fs role (i # is) = (if wanted role (env_value e) then [env_value e] else []) @ active_among fs role is \<and>
     unreadable_among fs (i # is) = unreadable_among fs is"
  by (simp_all add: active_among_def unreadable_among_def)

lemma active_among_mem: "l \<in> set (active_among fs role [i]) \<Longrightarrow> i \<in> set is \<Longrightarrow> l \<in> set (active_among fs role is)"
  by (auto simp: active_among_def)

lemma scan_page_spec:
  "scan_page fs role n is rs us = (rs', us', stopped) \<Longrightarrow> length rs \<le> n \<Longrightarrow>
     (if stopped then n < length (rs @ active_among fs role is) \<and> n < length rs'
      else rs' = rs @ active_among fs role is \<and> us' = us @ unreadable_among fs is \<and> length rs' \<le> n)"
proof (induction "is" arbitrary: rs us)
  case Nil
  then show ?case by (auto simp: active_among_def unreadable_among_def)
next
  case (Cons i "is")
  show ?case
  proof (cases "repo_read lease_repo fs i")
    case (Inl x)
    with Cons.IH [of rs "us @ [i]"] Cons.prems among_Cons(1) [OF Inl, of role "is"] show ?thesis by (cases stopped) auto
  next
    case (Inr r)
    show ?thesis
    proof (cases r)
      case None
      with Cons.IH [of rs us] Cons.prems among_Cons(2) [of fs i role "is"] Inr show ?thesis by (cases stopped) auto
    next
      case (Some e)
      note c = among_Cons(3) [OF Inr [unfolded Some], of role "is"]
      show ?thesis
      proof (cases "wanted role (env_value e)")
        case False
        with Cons.IH [of rs us] Cons.prems c Inr Some show ?thesis by (cases stopped) (auto simp: wanted_def)
      next
        case True
        show ?thesis
        proof (cases "n < length (rs @ [env_value e])")
          case full: True
          with True Cons.prems c Inr Some have "stopped" "rs' = rs @ [env_value e]" by (simp_all add: wanted_def)
          with full True c show ?thesis by simp
        next
          case False
          with Cons.IH [of "rs @ [env_value e]" us] True Cons.prems c Inr Some show ?thesis
            by (cases stopped) (auto simp: wanted_def)
        qed
      qed
    qed
  qed
qed

abbreviation lease_ids :: "files \<Rightarrow> string list" where
  "lease_ids fs \<equiv> sort_key (\<lambda>i. i @ ''.json'') (map fst fs)"

lemma list_ids_all: "list_ids [] fs n k = (take n (drop k (lease_ids fs)), k + n < length fs)"
  by (simp add: list_ids_def startswith_def)

lemma scan_active_spec:
  assumes "scan_active_ids fs role n k rs us = (rs', us', exhausted)" "length rs \<le> n"
  shows "if exhausted
     then rs' = rs @ active_among fs role (drop k (lease_ids fs)) \<and> us' = us @ unreadable_among fs (drop k (lease_ids fs)) \<and>
       length rs' \<le> n
     else n < length (rs @ active_among fs role (drop k (lease_ids fs)))"
  using assms
proof (induction fs role n k rs us rule: scan_active_ids.induct)
  case (1 fs role n k rs us)
  let ?ids = "take SCAN_PAGE_SIZE (drop k (lease_ids fs))"
  let ?rest = "drop (k + SCAN_PAGE_SIZE) (lease_ids fs)"
  note one = scan_active_ids.simps [of fs role n k rs us, unfolded list_ids_all prod.case Let_def]
  have split: "drop k (lease_ids fs) = ?ids @ ?rest" 
    using append_take_drop_id [of SCAN_PAGE_SIZE "drop k (lease_ids fs)"] by (simp add: add.commute)
  have acts: "active_among fs role (drop k (lease_ids fs)) = active_among fs role ?ids @ active_among fs role ?rest"
    "unreadable_among fs (drop k (lease_ids fs)) = unreadable_among fs ?ids @ unreadable_among fs ?rest"
    by (subst split, rule among_append)+
  show ?case
  proof (cases "?ids = []")
    case True
    then have "drop k (lease_ids fs) = []" by (simp add: SCAN_PAGE_SIZE_def)
    with 1(2,3) show ?thesis
      by (auto simp: one active_among_def unreadable_among_def)
  next
    case False
    obtain rs1 us1 stopped where page: "scan_page fs role n ?ids rs us = (rs1, us1, stopped)"
      by (cases "scan_page fs role n ?ids rs us") auto
    note spec = scan_page_spec [OF page 1(3)]
    show ?thesis
    proof (cases "stopped \<or> \<not> k + SCAN_PAGE_SIZE < length fs")
      case True
      show ?thesis
      proof (cases stopped)
        case st: True
        with 1(2) page False have "\<not> exhausted" by (auto simp: one)
        with spec st show ?thesis unfolding acts by simp
      next
        case st: False
        with True have "?rest = []" by simp
        moreover from st True 1(2) page False have "rs' = rs1" "us' = us1" exhausted
          by (auto simp: one)
        ultimately show ?thesis using spec st unfolding acts by auto
      qed
    next
      case more: False
      then have len: "length ?ids = SCAN_PAGE_SIZE" by auto
      have rec: "scan_active_ids fs role n (k + SCAN_PAGE_SIZE) rs1 us1 = (rs', us', exhausted)"
        using 1(2) page False more len by (simp add: one)
      have l: "length rs1 \<le> n" using spec more by auto
      have "if exhausted
         then rs' = rs1 @ active_among fs role ?rest \<and> us' = us1 @ unreadable_among fs ?rest \<and> length rs' \<le> n
         else n < length (rs1 @ active_among fs role ?rest)"
        using 1(1) [OF refl list_ids_all [symmetric] False page [symmetric] refl refl, unfolded len] rec l more by blast
      with spec more show ?thesis unfolding acts by (cases exhausted) auto
    qed
  qed
qed

section \<open>Properties\<close>


text \<open>
  Claim C29. The active scan is exact about its own completeness, and terminal history cannot hide an
  active lease: a page of active leases says it is complete exactly when there are at most as many
  matching active leases as were asked for, however many terminal records lie among them, and a
  complete page holds all of them and reports every unreadable record.
\<close>

theorem list_active_page_complete:
  assumes "list_active_page st role n = Inr page"
  shows "(lp_scan_complete page \<longleftrightarrow> length (active_among (lf_active st) role (lease_ids (lf_active st))) \<le> nat n) \<and>
    (lp_scan_complete page \<longrightarrow>
       set (lp_records page) = {env_value e | i e. repo_read lease_repo (lf_active st) i = Inr (Some e) \<and> wanted role (env_value e)} \<and>
       set (lp_unreadable page) = {i \<in> fst ` set (lf_active st). \<exists>x. repo_read lease_repo (lf_active st) i = Inl x})"
proof -
  let ?fs = "lf_active st"
  let ?all = "active_among ?fs role (lease_ids ?fs)"
  obtain rs us exhausted where scan: "scan_active_ids ?fs role (nat n) 0 [] [] = (rs, us, exhausted)"
    by (cases "scan_active_ids ?fs role (nat n) 0 [] []") auto
  have page: "page = \<lparr>lp_records = take (nat n) (sort_key ls_lease_id rs),
      lp_scan_complete = (exhausted \<and> length rs \<le> nat n), lp_unreadable = sort us\<rparr>"
    using assms by (simp add: list_active_page_def lease_list_def scan split: if_splits)
  have spec: "if exhausted then rs = ?all \<and> us = unreadable_among ?fs (lease_ids ?fs) \<and> length rs \<le> nat n
      else nat n < length ?all"
    using scan_active_spec [OF scan] by (cases exhausted) auto
  have iff: "lp_scan_complete page \<longleftrightarrow> length ?all \<le> nat n"
    using spec by (cases exhausted) (simp_all add: page)
  have read: "i \<in> fst ` set ?fs" if "repo_read lease_repo ?fs i = Inr (Some e)" for i e
    using that by (auto simp: repo_read_def read_file_def bind_result_Inr_iff split: option.splits if_splits
        dest!: map_of_SomeD intro: rev_image_eqI)
  have act: "set ?all = {env_value e | i e. repo_read lease_repo ?fs i = Inr (Some e) \<and> wanted role (env_value e)}"
  proof (intro set_eqI iffI)
    fix l assume "l \<in> {env_value e | i e. repo_read lease_repo ?fs i = Inr (Some e) \<and> wanted role (env_value e)}"
    then obtain i e where e: "repo_read lease_repo ?fs i = Inr (Some e)" "wanted role (env_value e)" "l = env_value e" by blast
    then have "l \<in> set (active_among ?fs role [i])" by (simp add: active_among_def)
    moreover have "i \<in> set (lease_ids ?fs)" using read [OF e(1)] by simp
    ultimately show "l \<in> set ?all" by (rule active_among_mem)
  next
    fix l assume "l \<in> set ?all"
    then show "l \<in> {env_value e | i e. repo_read lease_repo ?fs i = Inr (Some e) \<and> wanted role (env_value e)}"
      by (fastforce simp: active_among_def split: sum.splits option.splits if_splits)
  qed
  have "set (lp_records page) = set ?all \<and> set (lp_unreadable page) = set (unreadable_among ?fs (lease_ids ?fs))"
    if "lp_scan_complete page"
    using that spec by (cases exhausted) (simp_all add: page)
  with iff act show ?thesis by (auto simp: unreadable_among_def)
qed

text \<open>An unreadable record among those scanned makes \<open>collect_terminal\<close> itself raise.\<close>

lemma collect_terminal_raises_on_corrupt:
  assumes "i \<in> set ids" "repo_read lease_repo (lf_active st) i = Inl x" "\<And>k s. others k s = s" "distinct ids"
  shows "\<exists>e. collect_loop others k ids st moved = Inl e"
  using assms(1,2,4)
proof (induction ids arbitrary: k st moved)
  case (Cons j js)
  show ?case
  proof (cases "j = i")
    case True
    with Cons.prems show ?thesis by simp
  next
    case False
    with Cons.prems have js: "i \<in> set js" "distinct js" by auto
    have keep: "repo_read lease_repo a' i = Inl x" if "repo_delete_if_revision lease_repo (lf_active st) j r = Inr (a', b)" for a' b r
      using that Cons.prems(2) False by (cases rule: delete_if_revision_cases) auto
    show ?thesis
      using Cons.IH [OF js(1) _ js(2)] Cons.prems(2) keep
      by (auto simp: Let_def assms(3) split: sum.split option.split prod.split)
  qed
qed simp

text \<open>Once the history holds another version of a lease, for instance the copy made before a
  concurrent save won the race, no pass moves that lease again.\<close>

lemma stale_history_copy_blocks_archiving:
  assumes "repo_read lease_repo (lf_history st) i = Inr (Some x)" "env_value x \<noteq> env_value e"
    and "repo_read lease_repo (lf_active st) i = Inr (Some e)"
  shows "collect_loop others k (i # is) st moved = collect_loop others k is st moved"
proof -
  have "\<exists>y. repo_create_or_read_equal lease_repo (lf_history st) i (env_value e) = Inl y"
    using assms(1,2) by (auto simp: repo_create_or_read_equal_def bind_result_def split: sum.splits)
  then show ?thesis using assms(3) by auto
qed

subsection \<open>Witnesses\<close>

text \<open>An active collection with one terminated lease.\<close>

abbreviation dead_lease :: ProcessLease where
  "dead_lease \<equiv> example_lease TERMINATED"

abbreviation dead_id :: string where
  "dead_id \<equiv> ''worker-0000aa''"

definition lease_file :: "ProcessLease \<Rightarrow> json_file" where
  "lease_file l = Json (json_sorted (VDict (envelope_dict lease_repo (new_envelope lease_repo (ls_lease_id l) 1 l))))"

definition dead_files :: files where
  "dead_files = [(dead_id, lease_file dead_lease)]"

lemma dead_id_ok: "validate_lease_id dead_id = None" "fullmatch SAFE_RECORD_ID dead_id"
  by code_simp+

lemma dead_repo_id: "repo_id lease_repo dead_id = Inr ()"
  using dead_id_ok by (simp add: repo_id_def record_id_check_def lease_repo_def)

lemma dead_size: "encoded_size (VDict (envelope_dict lease_repo (new_envelope lease_repo dead_id 1 dead_lease))) \<le> 8192"
proof -
  let ?v = "VDict (envelope_dict lease_repo (new_envelope lease_repo dead_id 1 dead_lease))"
  have "json_weight 0 ?v \<le> 3000"
    by (simp add: envelope_dict_def new_envelope_def lease_repo_def process_lease_payload_def example_lease_def
        of_opt_def of_opt_int_def str_of_int_def str_of_nat.simps)
  then have "length (utf8_encode (json_indented False 0 ?v)) \<le> 2 * 3000"
    using length_utf8_encode(2) [of "json_indented False 0 ?v"] length_json_indented [of False 0 ?v] by linarith
  then show ?thesis by (simp add: encoded_size_def)
qed

lemma dead_create: "repo_create lease_repo [] dead_id dead_lease = Inr (dead_files, new_envelope lease_repo dead_id 1 dead_lease)"
proof -
  have m: "sr_max_bytes lease_repo = 8192" by (simp add: lease_repo_def)
  have id: "ls_lease_id dead_lease = dead_id" by (simp add: example_lease_def)
  show ?thesis
    using dead_repo_id dead_size
    by (simp add: repo_create_def encode_envelope_def m write_file_def dead_files_def lease_file_def id del: json_sorted.simps)
qed

lemma dead_read: "repo_read lease_repo dead_files dead_id = Inr (Some (new_envelope lease_repo dead_id 1 dead_lease))"
  using repo_create_reads(1) [OF dead_create lease_codec_keeps [OF example_lease_valid]] .

lemma dead_copy:
  "repo_create_or_read_equal lease_repo [] dead_id dead_lease = Inr (dead_files, new_envelope lease_repo dead_id 1 dead_lease)"
proof -
  have "repo_read lease_repo [] dead_id = Inr None" using dead_repo_id by (simp add: repo_read_def read_file_def)
  with dead_create dead_repo_id show ?thesis
    by (auto simp: repo_create_or_read_equal_def repo_create_def bind_result_Inr_iff)
qed

lemma dead_collect:
  "collect_terminal (\<lambda>_ s. s) \<lparr>lf_active = dead_files, lf_history = []\<rparr> 5000 = Inr (\<lparr>lf_active = [], lf_history = dead_files\<rparr>, 1)"
proof -
  have ids: "repo_list_ids dead_files 5000 0 = Inr ([dead_id], False)"
    by (simp add: repo_list_ids_def list_ids_def startswith_def dead_files_def)
  have del: "repo_delete_if_revision lease_repo dead_files dead_id 1 = Inr ([], True)"
    using dead_read dead_repo_id by (simp add: repo_delete_if_revision_def new_envelope_def delete_file_def dead_files_def)
  have "ls_status dead_lease \<in> set TERMINAL_STATUSES" by (simp add: example_lease_def TERMINAL_STATUSES_def)
  then show ?thesis
    using dead_read dead_copy del by (simp add: collect_terminal_def ids new_envelope_def)
qed


theorem list_active_page_complete_witness:
  "\<exists>page. list_active_page \<lparr>lf_active = dead_files, lf_history = []\<rparr> None 10 = Inr page \<and> lp_scan_complete page"
proof -
  let ?st = "\<lparr>lf_active = dead_files, lf_history = []\<rparr>"
  obtain page where page: "list_active_page ?st None 10 = Inr page"
    by (cases "scan_active_ids dead_files None 10 0 [] []") (auto simp: list_active_page_def lease_list_def)
  have "active_among dead_files None [dead_id] = []"
    using dead_read by (simp add: active_among_def wanted_def new_envelope_def example_lease_def ACTIVE_LEASE_STATUSES_def)
  moreover have "lease_ids dead_files = [dead_id]" by (simp add: dead_files_def)
  ultimately show ?thesis using list_active_page_complete [OF page] page by simp
qed

end
