(* ===== verification/Content_Digest.thy ===== *)
theory Content_Digest
  imports Operation_Lifecycle Py_Json Sha256
begin

text \<open>
  What domain/execution\_plan.py, domain/verification\_dag.py and domain/execution\_receipt.py
  share: the \<open>_digest\<close> of a payload, comparison of parsed timestamps, the defaulting lookups and
  iterations their decoders use, and dictionaries indexed by a key.
\<close>

abbreviation state_invalid :: "string \<Rightarrow> exn" where
  "state_invalid m \<equiv> RepoForgeError ''STATE_INVALID'' m"

text \<open>\<open>sha256(json.dumps(payload, sort_keys=True, separators=(",", ":"), ensure_ascii=False))\<close>.\<close>

definition content_digest :: "pyval \<Rightarrow> string" where
  "content_digest v = sha256_hex (utf8_encode (json_compact False v))"

lemma length_content_digest [simp]: "length (content_digest v) = 64"
  by (simp add: content_digest_def)

lemma content_digest_SHA64 [simp]: "fullmatch SHA64 (content_digest v)"
  by (auto simp: SHA64_def fullmatch_Rep content_digest_def sha256_hex_lower_hex)

text \<open>An identifier that is a literal prefix and the first 24 digits of a digest.\<close>

definition short_id :: "string \<Rightarrow> regex" where
  "short_id p = Seq (lit p) (upto is_lower_hex 24 24)"

lemma short_id_digest [simp]: "fullmatch (short_id p) (p @ take 24 (content_digest v))"
  by (auto simp: short_id_def fullmatch_lit_Rep content_digest_def
      dest!: in_set_takeD sha256_hex_lower_hex)

text \<open>\<open>any(ord(c) < 32 for c in s)\<close>.\<close>

definition has_control :: "string \<Rightarrow> bool" where
  "has_control s \<longleftrightarrow> (\<exists>c \<in> set s. ord_c c < 32)"

section \<open>Timestamps\<close>

text \<open>Comparing a naive with an aware value raises \<open>TypeError\<close>.\<close>

definition datetime_less :: "pydatetime \<Rightarrow> pydatetime \<Rightarrow> bool result" where
  "datetime_less a b =
     (if is_aware a \<noteq> is_aware b
      then Inl (TypeError ''can't compare offset-naive and offset-aware datetimes'')
      else Inr (instant a < instant b))"

section \<open>Lookups and iteration\<close>

text \<open>\<open>str(d.get(k, ""))\<close> and \<open>d.get(k, default)\<close>.\<close>

definition get_or :: "pydict \<Rightarrow> string \<Rightarrow> pyval \<Rightarrow> pyval" where
  "get_or d k v = (case map_of d k of None \<Rightarrow> v | Some w \<Rightarrow> w)"

definition get_str :: "pydict \<Rightarrow> string \<Rightarrow> string" where
  "get_str d k = py_str (get_or d k (VStr ''''))"

text \<open>The items a \<open>for\<close> loop or a comprehension takes from a value.\<close>

definition py_iter :: "pyval \<Rightarrow> pyval list result" where
  "py_iter v =
     (case v of VList vs \<Rightarrow> Inr vs | VStr s \<Rightarrow> Inr (map (\<lambda>c. VStr [c]) s) | VDict d \<Rightarrow> Inr (map (VStr \<circ> fst) d)
      | _ \<Rightarrow> Inl (TypeError (repr_str (type_name v) @ '' object is not iterable'')))"

text \<open>\<open>tuple(str(item) for item in v)\<close>.\<close>

definition str_items :: "pyval \<Rightarrow> string list result" where
  "str_items v = bind_result (py_iter v) (\<lambda>vs. Inr (map py_str vs))"

definition as_dict :: "pyval \<Rightarrow> pydict option" where
  "as_dict v = (case v of VDict d \<Rightarrow> Some d | _ \<Rightarrow> None)"

definition as_list :: "pyval \<Rightarrow> pyval list option" where
  "as_list v = (case v of VList vs \<Rightarrow> Some vs | _ \<Rightarrow> None)"

text \<open>\<open>isinstance(v, int) and not isinstance(v, bool)\<close>, with the integer.\<close>

definition as_int :: "pyval \<Rightarrow> int option" where
  "as_int v = (case v of VInt i \<Rightarrow> Some i | _ \<Rightarrow> None)"

text \<open>\<open>E(s)\<close> for a string enumeration \<open>E\<close> with the members \<open>ms\<close>.\<close>

definition enum_of :: "string \<Rightarrow> ('a \<Rightarrow> string) \<Rightarrow> 'a list \<Rightarrow> string \<Rightarrow> 'a result" where
  "enum_of name val ms s =
     (case filter (\<lambda>m. val m = s) ms of
        m # _ \<Rightarrow> Inr m
      | [] \<Rightarrow> Inl (ValueError (repr_str s @ '' is not a valid '' @ name)))"

lemma enum_of_value:
  assumes "inj val" "m \<in> set ms" "distinct ms"
  shows "enum_of name val ms (val m) = Inr m"
proof -
  have "filter (\<lambda>x. val x = val m) ms = filter (\<lambda>x. x = m) ms"
    using assms(1) by (auto simp: inj_eq)
  moreover have "set (filter (\<lambda>x. x = m) ms) = {m}"
    using assms(2) by auto
  ultimately show ?thesis
    by (cases "filter (\<lambda>x. x = m) ms") (auto simp: enum_of_def)
qed

lemma payload_lookups [simp]:
  "str_items (VList (map VStr ss)) = Inr ss" "as_dict (VDict d) = Some d" "as_list (VList vs) = Some vs"
  "as_int (VInt i) = Some i"
  by (simp_all add: str_items_def py_iter_def as_dict_def as_list_def as_int_def comp_def)

section \<open>Payloads read back from a file\<close>

text \<open>The entries of a dictionary after a round through its JSON file: in key order, at every depth.\<close>

definition file_dict :: "pydict \<Rightarrow> pydict" where
  "file_dict d = map (\<lambda>kv. (fst kv, json_sorted (snd kv))) (sort_key fst d)"

lemma json_sorted_VDict: "json_sorted (VDict d) = VDict (file_dict d)"
  by (simp add: file_dict_def)

lemma map_of_stored: "distinct (map fst d) \<Longrightarrow> map_of (file_dict d) k = map_option json_sorted (map_of d k)"
  by (simp add: file_dict_def map_of_map_snd map_of_sort_key)

lemma stored_lookups:
  assumes "distinct (map fst d)"
  shows "get_or (file_dict d) k v = (case map_of d k of None \<Rightarrow> v | Some w \<Rightarrow> json_sorted w)"
    "get_str (file_dict d) k = (case map_of d k of None \<Rightarrow> [] | Some w \<Rightarrow> py_str (json_sorted w))"
    "dict_get_none (file_dict d) k = (case map_of d k of None \<Rightarrow> VNone | Some w \<Rightarrow> json_sorted w)"
  using assms by (simp_all add: get_str_def get_or_def dict_get_none_def map_of_stored split: option.split)

lemma stored_scalars [simp]:
  "json_sorted (of_opt v) = of_opt v" "json_sorted (of_strings ss) = of_strings ss"
  by (simp_all add: of_opt_def of_strings_def comp_def split: option.split)

section \<open>Dictionaries read with \<open>d[k]\<close>\<close>

definition dict_at :: "(string \<times> 'a) list \<Rightarrow> string \<Rightarrow> 'a result" where
  "dict_at d k = (case map_of d k of None \<Rightarrow> Inl (KeyError k) | Some v \<Rightarrow> Inr v)"

definition dict_from :: "(string \<times> 'a) list \<Rightarrow> (string \<times> 'a) list" where
  "dict_from kvs = fold (\<lambda>kv d. dict_set d (fst kv) (snd kv)) kvs []"

lemma dict_at_Inr [simp]: "dict_at d k = Inr v \<longleftrightarrow> map_of d k = Some v"
  by (auto simp: dict_at_def split: option.splits)

lemma dict_at_Inl: "dict_at d k = Inl e \<longleftrightarrow> map_of d k = None \<and> e = KeyError k"
  by (auto simp: dict_at_def split: option.splits)

lemma dict_set_new: "k \<notin> fst ` set d \<Longrightarrow> dict_set d k v = d @ [(k, v)]"
  by (induction d k v rule: dict_set.induct) auto

lemma fold_dict_set_distinct:
  "distinct (map fst (d @ kvs)) \<Longrightarrow> fold (\<lambda>kv d. dict_set d (fst kv) (snd kv)) kvs d = d @ kvs"
proof (induction kvs arbitrary: d)
  case (Cons kv kvs)
  then have "fst kv \<notin> fst ` set d" by auto
  with Cons.IH [of "d @ [kv]"] Cons.prems show ?case by (simp add: dict_set_new)
qed simp

text \<open>A dictionary built from entries with different keys is the list of the entries.\<close>

lemma dict_from_distinct [simp]: "distinct (map fst kvs) \<Longrightarrow> dict_from kvs = kvs"
  using fold_dict_set_distinct [of "[]" kvs] by (simp add: dict_from_def)

lemma fold_dict_set_keys:
  "fst ` set (fold (\<lambda>kv d. dict_set d (fst kv) (snd kv)) kvs d) = fst ` set d \<union> fst ` set kvs"
proof (induction kvs arbitrary: d)
  case (Cons kv kvs)
  then show ?case using keys_of_dict_set [of d "fst kv" "snd kv"] by (auto simp: keys_of_def)
qed simp

lemma distinct_dict_from: "distinct (map fst (dict_from kvs))"
proof -
  have "distinct (map fst d) \<Longrightarrow> distinct (map fst (fold (\<lambda>kv d. dict_set d (fst kv) (snd kv)) kvs d))" for d
    by (induction kvs arbitrary: d) (simp_all add: distinct_dict_set)
  then show ?thesis by (simp add: dict_from_def)
qed

text \<open>\<open>len(d) == len(entries)\<close> says that the keys are different.\<close>

lemma length_dict_from: "length (dict_from kvs) = length kvs \<longleftrightarrow> distinct (map fst kvs)"
proof
  assume len: "length (dict_from kvs) = length kvs"
  have "card (set (map fst kvs)) = card (set (map fst (dict_from kvs)))"
    using fold_dict_set_keys [of kvs "[]"] by (simp add: dict_from_def)
  also have "\<dots> = length kvs"
    using distinct_card [OF distinct_dict_from [of kvs]] len by simp
  finally show "distinct (map fst kvs)" by (metis card_distinct length_map)
qed simp

end
