(* ===== verification/Execution_Plan.thy ===== *)
theory Execution_Plan
  imports Content_Digest
begin

text \<open>
  domain/execution\_plan.py: content-addressed plans of verification stages. A \<open>PlanStage\<close> and an
  \<open>ExecutionPlanBinding\<close> are checked by \<open>__post_init__\<close> when they are built; a plan is checked by
  \<open>create_execution_plan\<close> and again, against its own hashes, by \<open>validate_execution_plan\<close>.
\<close>

section \<open>Data\<close>

datatype PlanStageKind = DIAGNOSTIC | PROFILE

datatype PlanStageBoundary = ITERATION | FINAL

datatype PlanStageMutability = READ_ONLY | WORKSPACE_WRITE

datatype StageFailurePolicy = REQUIRED | OPTIONAL

definition kind_value :: "PlanStageKind \<Rightarrow> string" where
  "kind_value k = (case k of DIAGNOSTIC \<Rightarrow> ''diagnostic'' | PROFILE \<Rightarrow> ''profile'')"

definition boundary_value :: "PlanStageBoundary \<Rightarrow> string" where
  "boundary_value b = (case b of ITERATION \<Rightarrow> ''iteration'' | FINAL \<Rightarrow> ''final'')"

definition mutability_value :: "PlanStageMutability \<Rightarrow> string" where
  "mutability_value m = (case m of READ_ONLY \<Rightarrow> ''read_only'' | WORKSPACE_WRITE \<Rightarrow> ''workspace_write'')"

definition policy_value :: "StageFailurePolicy \<Rightarrow> string" where
  "policy_value p = (case p of REQUIRED \<Rightarrow> ''required'' | OPTIONAL \<Rightarrow> ''optional'')"

definition EXECUTION_PLAN_SCHEMA_VERSION :: int where
  "EXECUTION_PLAN_SCHEMA_VERSION = 1"

definition PLAN_ID :: regex where
  "PLAN_ID = short_id ''plan-''"

definition STAGE_ID :: regex where
  "STAGE_ID = Seq (One is_ascii_lower) (upto (\<lambda>c. is_ascii_lower c \<or> is_digit c \<or> c \<in> set ''._-'') 0 63)"

definition SAFE_TARGET :: regex where
  "SAFE_TARGET = Seq (One is_ascii_alnum) (upto (\<lambda>c. is_ascii_alnum c \<or> c \<in> set ''._:-'') 0 127)"

record PlanStage =
  ps_stage_id :: string
  ps_kind :: PlanStageKind
  ps_target :: string
  ps_selector :: "string option"
  ps_dependencies :: "string list"
  ps_boundary :: PlanStageBoundary
  ps_working_directory :: "string option"
  ps_timeout_seconds :: int
  ps_mutability :: PlanStageMutability
  ps_network_policy :: string
  ps_failure_policy :: StageFailurePolicy
  ps_artifact_paths :: "string list"

definition plan_stage_check :: "PlanStage \<Rightarrow> exn option" where
  "plan_stage_check s = first_error
     ([raise_if (\<not> fullmatch STAGE_ID (ps_stage_id s)) (state_invalid ''Plan stage id is invalid''),
       raise_if (\<not> fullmatch SAFE_TARGET (ps_target s)) (state_invalid ''Plan stage target is invalid''),
       raise_if (case ps_selector s of None \<Rightarrow> False
           | Some sel \<Rightarrow> sel = [] \<or> 256 < length sel \<or> has_control sel)
         (state_invalid ''Plan stage selector is invalid''),
       raise_if (32 < length (ps_dependencies s) \<or> \<not> distinct (ps_dependencies s))
         (state_invalid ''Plan stage dependencies must be unique and bounded''),
       raise_if (\<not> (1 \<le> ps_timeout_seconds s \<and> ps_timeout_seconds s \<le> 86400))
         (state_invalid ''Plan stage timeout must be between 1 and 86400 seconds''),
       raise_if (ps_network_policy s \<notin> set [''none'', ''local_only'', ''restricted'', ''external''])
         (state_invalid ''Plan stage network policy is unsupported''),
       raise_if (32 < length (ps_artifact_paths s))
         (state_invalid ''Plan stage artifact paths exceed the reviewed bound'')] @
      map (\<lambda>path. raise_if (path = [] \<or> 256 < length path \<or> startswith path ''/'' \<or>
             ''..'' \<in> set (split_on CHR ''/'' path))
           (state_invalid ''Plan stage artifact path is unsafe'')) (ps_artifact_paths s) @
      [raise_if (ps_boundary s = FINAL \<and> ps_kind s \<noteq> PROFILE)
         (state_invalid ''The final plan stage must be a profile''),
       raise_if (ps_boundary s = FINAL \<and> ps_failure_policy s \<noteq> REQUIRED)
         (state_invalid ''The final plan stage must be required'')])"

definition make_plan_stage :: "PlanStage \<Rightarrow> PlanStage result" where
  "make_plan_stage s = checked (plan_stage_check s) s"

definition plan_stage_payload :: "PlanStage \<Rightarrow> pydict" where
  "plan_stage_payload s =
     [(''artifact_paths'', of_strings (ps_artifact_paths s)),
      (''boundary'', VStr (boundary_value (ps_boundary s))),
      (''dependencies'', of_strings (ps_dependencies s)),
      (''failure_policy'', VStr (policy_value (ps_failure_policy s))),
      (''kind'', VStr (kind_value (ps_kind s))),
      (''mutability'', VStr (mutability_value (ps_mutability s))),
      (''network_policy'', VStr (ps_network_policy s)),
      (''selector'', of_opt (ps_selector s)),
      (''stage_id'', VStr (ps_stage_id s)),
      (''target'', VStr (ps_target s)),
      (''timeout_seconds'', VInt (ps_timeout_seconds s)),
      (''working_directory'', of_opt (ps_working_directory s))]"

record ExecutionPlanBinding =
  bd_head_sha :: string
  bd_workspace_fingerprint :: string
  bd_config_generation :: string
  bd_policy_hash :: string
  bd_assessment_snapshot_id :: string
  bd_evidence_snapshot_ids :: "string list"
  bd_risk_assessment_hash :: string
  bd_recommendation_hash :: string

definition binding_check :: "ExecutionPlanBinding \<Rightarrow> exn option" where
  "binding_check b = first_error
     ([raise_if (\<not> fullmatch SHA40 (bd_head_sha b)) (state_invalid ''Execution plan HEAD SHA is invalid'')] @
      map (\<lambda>(name, v). raise_if (\<not> fullmatch SHA64 v) (state_invalid (''Execution plan '' @ name @ '' is invalid'')))
        [(''workspace fingerprint'', bd_workspace_fingerprint b),
         (''configuration generation'', bd_config_generation b),
         (''policy hash'', bd_policy_hash b),
         (''assessment snapshot id'', bd_assessment_snapshot_id b),
         (''risk assessment hash'', bd_risk_assessment_hash b),
         (''recommendation hash'', bd_recommendation_hash b)] @
      [raise_if (64 < length (bd_evidence_snapshot_ids b))
         (state_invalid ''Execution plan evidence snapshot list is too large''),
       raise_if (\<not> distinct (bd_evidence_snapshot_ids b))
         (state_invalid ''Execution plan evidence snapshot ids must be unique''),
       raise_if (\<exists>v \<in> set (bd_evidence_snapshot_ids b). \<not> fullmatch SHA64 v)
         (state_invalid ''Execution plan evidence snapshot id is invalid'')])"

definition make_binding :: "ExecutionPlanBinding \<Rightarrow> ExecutionPlanBinding result" where
  "make_binding b = checked (binding_check b) b"

definition plan_binding_payload :: "ExecutionPlanBinding \<Rightarrow> pydict" where
  "plan_binding_payload b =
     [(''assessment_snapshot_id'', VStr (bd_assessment_snapshot_id b)),
      (''config_generation'', VStr (bd_config_generation b)),
      (''evidence_snapshot_ids'', of_strings (bd_evidence_snapshot_ids b)),
      (''head_sha'', VStr (bd_head_sha b)),
      (''policy_hash'', VStr (bd_policy_hash b)),
      (''recommendation_hash'', VStr (bd_recommendation_hash b)),
      (''risk_assessment_hash'', VStr (bd_risk_assessment_hash b)),
      (''workspace_fingerprint'', VStr (bd_workspace_fingerprint b))]"

record ExecutionPlan =
  pl_plan_id :: string
  pl_plan_hash :: string
  pl_task_id :: "string option"
  pl_workspace_id :: string
  pl_binding :: ExecutionPlanBinding
  pl_ordered_stages :: "PlanStage list"
  pl_final_profile :: string
  pl_stage_definition_hash :: string
  pl_created_at :: string
  pl_expires_at :: "string option"
  pl_schema_version :: int

record ExecutionPlanState =
  st_head_sha :: string
  st_workspace_fingerprint :: string
  st_config_generation :: string
  st_policy_hash :: string
  st_risk_assessment_hash :: string
  st_recommendation_hash :: string
  st_stage_definition_hash :: string
  st_now :: string

record ExecutionPlanAcceptance =
  ac_acceptance_id :: string
  ac_plan_id :: string
  ac_plan_hash :: string
  ac_workspace_id :: string
  ac_task_id :: "string option"
  ac_accepted_at :: string
  ac_schema_version :: int

definition plan_iso :: "string \<Rightarrow> string \<Rightarrow> pydatetime result" where
  "plan_iso v field =
     (case fromisoformat v of
        None \<Rightarrow> Inl (state_invalid (''Execution plan '' @ field @ '' is not an ISO timestamp''))
      | Some d \<Rightarrow> Inr d)"

definition stage_definitions_hash :: "PlanStage list \<Rightarrow> string" where
  "stage_definitions_hash stages = content_digest (VList (map (\<lambda>s. VDict (plan_stage_payload s)) stages))"

section \<open>The dependency graph\<close>

text \<open>
  \<open>visit\<close> of \<open>_validate_graph\<close>. The set \<open>visiting\<close> is restored when a call returns, so it is an
  argument; \<open>visited\<close> is threaded through the calls. \<open>visit_all\<close> is the loop over the dependencies.
\<close>

function visit :: "(string \<times> PlanStage) list \<Rightarrow> string list \<Rightarrow> string \<Rightarrow> string list \<Rightarrow> string list result"
  and visit_all :: "(string \<times> PlanStage) list \<Rightarrow> string list \<Rightarrow> string list \<Rightarrow> string list \<Rightarrow> string list result"
where
  "visit by_id visiting i visited =
     (if i \<in> set visiting then Inl (state_invalid ''Execution plan dependency graph contains a cycle'')
      else if i \<in> set visited then Inr visited
      else case map_of by_id i of
          None \<Rightarrow> Inl (KeyError i)
        | Some s \<Rightarrow> (case visit_all by_id (i # visiting) (ps_dependencies s) visited of
              Inl e \<Rightarrow> Inl e | Inr visited' \<Rightarrow> Inr (i # visited')))"
| "visit_all by_id visiting [] visited = Inr visited"
| "visit_all by_id visiting (d # ds) visited =
     (case visit by_id visiting d visited of
        Inl e \<Rightarrow> Inl e | Inr visited' \<Rightarrow> visit_all by_id visiting ds visited')"
  by pat_completeness auto
termination
proof (relation "inv_image (less_than <*lex*> less_than)
    (\<lambda>x. case x of
        Inl (by_id, visiting, i, visited) \<Rightarrow> (2 * card (fst ` set by_id - set visiting), 0)
      | Inr (by_id, visiting, ds, visited) \<Rightarrow> (Suc (2 * card (fst ` set by_id - set visiting)), length ds))", goal_cases)
  case 1
  then show ?case by auto
next
  case (2 by_id visiting i visited s)
  have "i \<in> fst ` set by_id" using 2(3) by (metis map_of_SomeD fst_conv imageI)
  then have "card (fst ` set by_id - set (i # visiting)) < card (fst ` set by_id - set visiting)"
    using 2(1) by (intro psubset_card_mono) auto
  then show ?case by simp
qed simp_all

text \<open>\<open>order[x]\<close>, the index of a stage id.\<close>

definition stage_index :: "string list \<Rightarrow> string \<Rightarrow> nat" where
  "stage_index ids i = length (takeWhile (\<lambda>j. j \<noteq> i) ids)"

definition stage_edges_check :: "string list \<Rightarrow> PlanStage \<Rightarrow> exn option" where
  "stage_edges_check ids s =
     (let unknown = sorted_set (filter (\<lambda>d. d \<notin> set ids) (ps_dependencies s)) in
      first_error
        [raise_if (unknown \<noteq> [])
           (state_invalid (''Execution plan stage '' @ repr_str (ps_stage_id s) @ '' has unknown dependencies: '' @
              py_repr (of_strings unknown))),
         raise_if (ps_stage_id s \<in> set (ps_dependencies s))
           (state_invalid ''Execution plan stage cannot depend on itself''),
         raise_if (\<exists>d \<in> set (ps_dependencies s). stage_index ids (ps_stage_id s) \<le> stage_index ids d)
           (state_invalid ''Execution plan stages must be supplied in dependency order'')])"

definition validate_graph :: "PlanStage list \<Rightarrow> string \<Rightarrow> exn option" where
  "validate_graph stages final_profile =
     (let ids = map ps_stage_id stages;
          by_id = dict_from (map (\<lambda>s. (ps_stage_id s, s)) stages);
          finals = filter (\<lambda>s. ps_boundary s = FINAL) stages
      in first_error
        ([raise_if (stages = [] \<or> 128 < length stages)
            (state_invalid ''Execution plan must contain between 1 and 128 stages''),
          raise_if (\<not> distinct ids) (state_invalid ''Execution plan stage ids must be unique'')] @
         map (stage_edges_check ids) stages @
         [raised (visit_all by_id [] ids []),
          raise_if (length finals \<noteq> 1) (state_invalid ''Execution plan requires exactly one final stage''),
          raise_if (hd finals \<noteq> last stages \<or> ps_target (hd finals) \<noteq> final_profile)
            (state_invalid ''Execution plan final stage must be last and target final_profile'')]))"

section \<open>Plans\<close>

text \<open>The content of a plan: the arguments of \<open>_semantic_payload\<close>, read off the plan.\<close>

definition plan_semantic :: "ExecutionPlan \<Rightarrow> pydict" where
  "plan_semantic p =
     [(''binding'', VDict (plan_binding_payload (pl_binding p))),
      (''created_at'', VStr (pl_created_at p)),
      (''expires_at'', of_opt (pl_expires_at p)),
      (''final_profile'', VStr (pl_final_profile p)),
      (''ordered_stages'', VList (map (\<lambda>s. VDict (plan_stage_payload s)) (pl_ordered_stages p))),
      (''schema_version'', VInt (pl_schema_version p)),
      (''stage_definition_hash'', VStr (pl_stage_definition_hash p)),
      (''task_id'', of_opt (pl_task_id p)),
      (''workspace_id'', VStr (pl_workspace_id p))]"

definition expiry_check :: "string \<Rightarrow> string option \<Rightarrow> exn option" where
  "expiry_check created_at expires_at =
     raised (bind_result (plan_iso created_at ''created_at'') (\<lambda>created.
       case expires_at of None \<Rightarrow> Inr ()
       | Some e \<Rightarrow> bind_result (plan_iso e ''expires_at'') (\<lambda>expires.
           bind_result (datetime_less created expires) (\<lambda>later.
             if later then Inr () else Inl (state_invalid ''Execution plan expiry must be after creation'')))))"

definition create_execution_plan ::
  "string option \<Rightarrow> string \<Rightarrow> ExecutionPlanBinding \<Rightarrow> PlanStage list \<Rightarrow> string \<Rightarrow> string \<Rightarrow> string option \<Rightarrow>
   ExecutionPlan result" where
  "create_execution_plan task_id workspace_id b stages final_profile created_at expires_at =
     bind_result (checked (first_error
       [raise_if (workspace_id = [] \<or> 128 < length workspace_id) (state_invalid ''Execution plan workspace id is invalid''),
        raise_if (case task_id of None \<Rightarrow> False | Some t \<Rightarrow> t = [] \<or> 128 < length t)
          (state_invalid ''Execution plan task id is invalid''),
        raise_if (\<not> fullmatch SAFE_TARGET final_profile) (state_invalid ''Execution plan final profile is invalid''),
        expiry_check created_at expires_at,
        validate_graph stages final_profile]) ()) (\<lambda>_.
     let draft = \<lparr>pl_plan_id = '''', pl_plan_hash = '''', pl_task_id = task_id, pl_workspace_id = workspace_id,
            pl_binding = b, pl_ordered_stages = stages, pl_final_profile = final_profile,
            pl_stage_definition_hash = stage_definitions_hash stages, pl_created_at = created_at,
            pl_expires_at = expires_at, pl_schema_version = EXECUTION_PLAN_SCHEMA_VERSION\<rparr>;
          plan_hash = content_digest (VDict (plan_semantic draft))
     in Inr (draft\<lparr>pl_plan_id := ''plan-'' @ take 24 plan_hash, pl_plan_hash := plan_hash\<rparr>))"

definition plan_payload :: "ExecutionPlan \<Rightarrow> pydict" where
  "plan_payload p = plan_semantic p @ [(''plan_hash'', VStr (pl_plan_hash p)), (''plan_id'', VStr (pl_plan_id p))]"

definition recreate_plan :: "ExecutionPlan \<Rightarrow> ExecutionPlan result" where
  "recreate_plan p = create_execution_plan (pl_task_id p) (pl_workspace_id p) (pl_binding p) (pl_ordered_stages p)
     (pl_final_profile p) (pl_created_at p) (pl_expires_at p)"

definition validate_execution_plan :: "ExecutionPlan \<Rightarrow> ExecutionPlan result" where
  "validate_execution_plan p =
     (if pl_schema_version p \<noteq> EXECUTION_PLAN_SCHEMA_VERSION
      then Inl (state_invalid ''Execution plan schema version is unsupported'')
      else bind_result (recreate_plan p) (\<lambda>expected.
        if pl_plan_id p \<noteq> pl_plan_id expected \<or> \<not> fullmatch PLAN_ID (pl_plan_id p)
        then Inl (state_invalid ''Execution plan id does not match its content'')
        else if pl_plan_hash p \<noteq> pl_plan_hash expected \<or> pl_stage_definition_hash p \<noteq> pl_stage_definition_hash expected
        then Inl (state_invalid ''Execution plan hashes do not match its content'')
        else Inr p))"

definition validate_plan_current :: "ExecutionPlan \<Rightarrow> ExecutionPlanState \<Rightarrow> string list result" where
  "validate_plan_current p current =
     bind_result (validate_execution_plan p) (\<lambda>_.
     let b = pl_binding p;
         reasons = map fst (filter (\<lambda>(name, expected, actual). expected \<noteq> actual)
           [(''head_sha'', bd_head_sha b, st_head_sha current),
            (''workspace_fingerprint'', bd_workspace_fingerprint b, st_workspace_fingerprint current),
            (''config_generation'', bd_config_generation b, st_config_generation current),
            (''policy_hash'', bd_policy_hash b, st_policy_hash current),
            (''risk_assessment'', bd_risk_assessment_hash b, st_risk_assessment_hash current),
            (''recommendation'', bd_recommendation_hash b, st_recommendation_hash current),
            (''stage_definition'', pl_stage_definition_hash p, st_stage_definition_hash current)])
     in case pl_expires_at p of
          None \<Rightarrow> Inr reasons
        | Some e \<Rightarrow> bind_result (plan_iso (st_now current) ''current time'') (\<lambda>now.
            bind_result (plan_iso e ''expires_at'') (\<lambda>expires.
            bind_result (datetime_less expires now) (\<lambda>expired.
              Inr (if expired then reasons @ [''expired''] else reasons)))))"

definition new_plan_acceptance ::
  "ExecutionPlan \<Rightarrow> string \<Rightarrow> string option \<Rightarrow> string \<Rightarrow> ExecutionPlanAcceptance result" where
  "new_plan_acceptance p acceptance_id task_id accepted_at =
     bind_result (validate_execution_plan p) (\<lambda>_.
     bind_result (checked (raise_if (acceptance_id = [] \<or> 128 < length acceptance_id)
       (state_invalid ''Execution plan acceptance id is invalid'')) ()) (\<lambda>_.
     bind_result (plan_iso accepted_at ''accepted_at'') (\<lambda>_.
       if task_id \<noteq> None \<and> pl_task_id p \<noteq> None \<and> task_id \<noteq> pl_task_id p
       then Inl (RepoForgeError ''ALREADY_EXISTS'' ''Execution plan acceptance task does not match the plan'')
       else Inr \<lparr>ac_acceptance_id = acceptance_id, ac_plan_id = pl_plan_id p, ac_plan_hash = pl_plan_hash p,
         ac_workspace_id = pl_workspace_id p, ac_task_id = task_id, ac_accepted_at = accepted_at,
         ac_schema_version = EXECUTION_PLAN_SCHEMA_VERSION\<rparr>)))"

section \<open>Decoding\<close>

definition binding_from :: "pydict \<Rightarrow> ExecutionPlanBinding result" where
  "binding_from d =
     bind_result (str_items (get_or d ''evidence_snapshot_ids'' (VList []))) (\<lambda>evidence.
       make_binding
         \<lparr>bd_head_sha = get_str d ''head_sha'', bd_workspace_fingerprint = get_str d ''workspace_fingerprint'',
          bd_config_generation = get_str d ''config_generation'', bd_policy_hash = get_str d ''policy_hash'',
          bd_assessment_snapshot_id = get_str d ''assessment_snapshot_id'', bd_evidence_snapshot_ids = evidence,
          bd_risk_assessment_hash = get_str d ''risk_assessment_hash'',
          bd_recommendation_hash = get_str d ''recommendation_hash''\<rparr>)"

definition plan_stage_from :: "pyval \<Rightarrow> PlanStage result" where
  "plan_stage_from v =
     (case as_dict v of None \<Rightarrow> Inl (state_invalid ''Execution plan stage payload must be an object'')
      | Some d \<Rightarrow>
        bind_result (enum_of ''PlanStageKind'' kind_value [DIAGNOSTIC, PROFILE] (get_str d ''kind'')) (\<lambda>kind.
        bind_result (str_items (get_or d ''dependencies'' (VList []))) (\<lambda>dependencies.
        bind_result (enum_of ''PlanStageBoundary'' boundary_value [ITERATION, FINAL] (get_str d ''boundary'')) (\<lambda>boundary.
        bind_result (py_int (get_or d ''timeout_seconds'' (VInt 0))) (\<lambda>timeout.
        bind_result (enum_of ''PlanStageMutability'' mutability_value [READ_ONLY, WORKSPACE_WRITE]
          (get_str d ''mutability'')) (\<lambda>mutability.
        bind_result (enum_of ''StageFailurePolicy'' policy_value [REQUIRED, OPTIONAL] (get_str d ''failure_policy'')) (\<lambda>policy.
        bind_result (str_items (get_or d ''artifact_paths'' (VList []))) (\<lambda>paths.
          make_plan_stage
            \<lparr>ps_stage_id = get_str d ''stage_id'', ps_kind = kind, ps_target = get_str d ''target'',
             ps_selector = opt_str (dict_get_none d ''selector''), ps_dependencies = dependencies,
             ps_boundary = boundary, ps_working_directory = opt_str (dict_get_none d ''working_directory''),
             ps_timeout_seconds = timeout, ps_mutability = mutability,
             ps_network_policy = get_str d ''network_policy'', ps_failure_policy = policy,
             ps_artifact_paths = paths\<rparr>))))))))"

definition execution_plan_from_payload :: "pydict \<Rightarrow> ExecutionPlan result" where
  "execution_plan_from_payload d =
     (case (as_dict (dict_get_none d ''binding''), as_list (dict_get_none d ''ordered_stages'')) of
        (Some binding_raw, Some stages_raw) \<Rightarrow>
          bind_result (binding_from binding_raw) (\<lambda>b.
          bind_result (map_result plan_stage_from stages_raw) (\<lambda>stages.
          bind_result (py_int (get_or d ''schema_version'' (VInt 0))) (\<lambda>version.
          validate_execution_plan
            \<lparr>pl_plan_id = get_str d ''plan_id'', pl_plan_hash = get_str d ''plan_hash'',
             pl_task_id = opt_str (dict_get_none d ''task_id''), pl_workspace_id = get_str d ''workspace_id'',
             pl_binding = b, pl_ordered_stages = stages, pl_final_profile = get_str d ''final_profile'',
             pl_stage_definition_hash = get_str d ''stage_definition_hash'', pl_created_at = get_str d ''created_at'',
             pl_expires_at = opt_str (dict_get_none d ''expires_at''), pl_schema_version = version\<rparr>)))
      | _ \<Rightarrow> Inl (state_invalid ''Execution plan payload is incomplete''))"

section \<open>The graph check\<close>

text \<open>
  The reference reading of the graph check: each stage depends only on stages before it.
\<close>

fun deps_before :: "('s \<Rightarrow> string) \<Rightarrow> ('s \<Rightarrow> string list) \<Rightarrow> string set \<Rightarrow> 's list \<Rightarrow> bool" where
  "deps_before key deps seen [] = True"
| "deps_before key deps seen (s # ss) = (set (deps s) \<subseteq> seen \<and> deps_before key deps (insert (key s) seen) ss)"

definition well_ordered_plan :: "PlanStage list \<Rightarrow> string \<Rightarrow> bool" where
  "well_ordered_plan stages final_profile \<longleftrightarrow>
     stages \<noteq> [] \<and> length stages \<le> 128 \<and> distinct (map ps_stage_id stages) \<and>
     deps_before ps_stage_id ps_dependencies {} stages \<and>
     list_all (\<lambda>s. ps_boundary s = ITERATION) (butlast stages) \<and>
     ps_boundary (last stages) = FINAL \<and> ps_target (last stages) = final_profile"

lemma deps_before_nth:
  "deps_before key deps seen ss \<longleftrightarrow> (\<forall>i < length ss. set (deps (ss ! i)) \<subseteq> seen \<union> key ` set (take i ss))"
  by (induction ss arbitrary: seen) (simp_all add: All_less_Suc2)

lemma stage_index_nth: "distinct ids \<Longrightarrow> i < length ids \<Longrightarrow> stage_index ids (ids ! i) = i"
proof (induction ids arbitrary: i)
  case (Cons a ids)
  then show ?case by (cases i) (auto simp: stage_index_def)
qed simp

lemma stage_index_less:
  assumes "distinct ids" "d \<in> set ids" "i \<le> length ids"
  shows "stage_index ids d < i \<longleftrightarrow> d \<in> set (take i ids)"
proof -
  obtain k where k: "k < length ids" "d = ids ! k" using assms(2) by (auto simp: in_set_conv_nth)
  have "d \<in> set (take i ids) \<longleftrightarrow> k < i"
    using assms(1,3) k by (auto simp: in_set_conv_nth nth_eq_iff_index_eq)
  with k show ?thesis using stage_index_nth [OF assms(1)] by simp
qed

lemma stage_edges_check_None:
  "stage_edges_check ids s = None \<longleftrightarrow>
     set (ps_dependencies s) \<subseteq> set ids \<and> ps_stage_id s \<notin> set (ps_dependencies s) \<and>
     (\<forall>d \<in> set (ps_dependencies s). stage_index ids d < stage_index ids (ps_stage_id s))"
  by (auto simp: stage_edges_check_def Let_def filter_empty_conv not_le)

lemma stage_edges_ordered:
  assumes "distinct (map ps_stage_id stages)"
  shows "(\<forall>s \<in> set stages. stage_edges_check (map ps_stage_id stages) s = None) \<longleftrightarrow>
     deps_before ps_stage_id ps_dependencies {} stages"
proof -
  let ?ids = "map ps_stage_id stages"
  have "stage_edges_check ?ids (stages ! i) = None \<longleftrightarrow>
      set (ps_dependencies (stages ! i)) \<subseteq> ps_stage_id ` set (take i stages)" if i: "i < length stages" for i
  proof -
    have idx: "stage_index ?ids (ps_stage_id (stages ! i)) = i"
      using stage_index_nth [OF assms, of i] i by simp
    have taken: "ps_stage_id ` set (take i stages) = set (take i ?ids)" by (simp add: take_map)
    have self: "ps_stage_id (stages ! i) \<notin> set (take i ?ids)"
      using stage_index_less [OF assms, of "ps_stage_id (stages ! i)" i] idx i by (auto simp del: take_map)
    have sub: "set (take i ?ids) \<subseteq> set ?ids" by (rule set_take_subset)
    show ?thesis
      unfolding stage_edges_check_None idx taken
      using stage_index_less [OF assms, of _ i] self sub i by (auto simp del: take_map) blast+
  qed
  then show ?thesis
    unfolding deps_before_nth all_set_conv_all_nth by simp
qed

text \<open>
  On stages in dependency order the depth-first search never meets a stage it is visiting: each
  call goes to a smaller index.
\<close>

lemma visit_succeeds:
  assumes "\<And>i s d. map_of by_id i = Some s \<Longrightarrow> d \<in> set (ps_dependencies s) \<Longrightarrow> d \<in> dom (map_of by_id) \<and> idx d < (idx i :: nat)"
  shows "i \<in> dom (map_of by_id) \<Longrightarrow> \<forall>v \<in> set visiting. idx i < idx v \<Longrightarrow> \<exists>r. visit by_id visiting i visited = Inr r"
    and "set ds \<subseteq> dom (map_of by_id) \<Longrightarrow> \<forall>d \<in> set ds. \<forall>v \<in> set visiting. idx d < idx v \<Longrightarrow>
      \<exists>r. visit_all by_id visiting ds visited = Inr r"
  using assms
proof (induction by_id visiting i visited and by_id visiting ds visited rule: visit_visit_all.induct)
  case (1 by_id visiting i visited)
  obtain s where s: "map_of by_id i = Some s" using 1(2) by blast
  have "i \<notin> set visiting" using 1(3) by blast
  moreover have "\<exists>r. visit_all by_id (i # visiting) (ps_dependencies s) visited = Inr r" if "i \<notin> set visited"
    using 1(1) [OF \<open>i \<notin> set visiting\<close> that s _ _ 1(4)] 1(3) 1(4) [OF s] by fastforce
  ultimately show ?case using s by (auto simp: visit.simps)
next
  case (3 by_id visiting d ds visited)
  obtain r where r: "visit by_id visiting d visited = Inr r" using 3 by auto
  have "\<exists>r'. visit_all by_id visiting ds r = Inr r'"
    using 3(2) [OF r _ _ 3(5)] 3(3,4) by simp
  with r show ?case by simp
qed simp_all

lemma ordered_stages_visit:
  assumes "distinct (map ps_stage_id stages)" "deps_before ps_stage_id ps_dependencies {} stages"
  shows "\<exists>r. visit_all (dict_from (map (\<lambda>s. (ps_stage_id s, s)) stages)) [] (map ps_stage_id stages) [] = Inr r"
proof -
  let ?ids = "map ps_stage_id stages" and ?by_id = "map (\<lambda>s. (ps_stage_id s, s)) stages"
  have keys: "map fst ?by_id = ?ids" by (simp add: comp_def)
  have dom: "dom (map_of ?by_id) = set ?ids" by (simp add: dom_map_of_conv_image_fst image_image)
  have edge: "d \<in> dom (map_of ?by_id) \<and> stage_index ?ids d < stage_index ?ids i"
    if "map_of ?by_id i = Some s" "d \<in> set (ps_dependencies s)" for i s d
  proof -
    have "(i, s) \<in> set ?by_id" using that(1) by (rule map_of_SomeD)
    then have "s \<in> set stages" "i = ps_stage_id s" by auto
    moreover have "stage_edges_check ?ids s = None"
      using stage_edges_ordered [OF assms(1)] assms(2) \<open>s \<in> set stages\<close> by blast
    ultimately show ?thesis using that(2) dom by (auto simp: stage_edges_check_None)
  qed
  have "dict_from ?by_id = ?by_id" using assms(1) by (intro dict_from_distinct) (simp only: keys)
  then show ?thesis
    using visit_succeeds(2) [of ?by_id "stage_index ?ids", OF edge] dom by simp
qed

lemma single_final_last:
  assumes "stages \<noteq> []"
  shows "(length (filter (\<lambda>s. ps_boundary s = FINAL) stages) = 1 \<and>
      hd (filter (\<lambda>s. ps_boundary s = FINAL) stages) = last stages) \<and> distinct (map ps_stage_id stages) \<longleftrightarrow>
    list_all (\<lambda>s. ps_boundary s = ITERATION) (butlast stages) \<and> ps_boundary (last stages) = FINAL \<and>
    distinct (map ps_stage_id stages)"
proof -
  obtain ini fin where st: "stages = ini @ [fin]" using assms by (metis rev_exhaust)
  have iter: "ps_boundary s = ITERATION \<longleftrightarrow> ps_boundary s \<noteq> FINAL" for s
    by (cases "ps_boundary s") auto
  have early: "hd (filter (\<lambda>s. ps_boundary s = FINAL) ini) \<noteq> fin" if "distinct (map ps_stage_id stages)"
      "filter (\<lambda>s. ps_boundary s = FINAL) ini \<noteq> []"
  proof -
    have "hd (filter (\<lambda>s. ps_boundary s = FINAL) ini) \<in> set ini" using hd_in_set [OF that(2)] by simp
    moreover have "fin \<notin> set ini" using that(1) st by auto
    ultimately show ?thesis by metis
  qed
  show ?thesis
  proof (cases "filter (\<lambda>s. ps_boundary s = FINAL) ini")
    case Nil
    then show ?thesis using st by (auto simp: list_all_iff iter filter_empty_conv)
  next
    case (Cons f fs)
    then have "f \<in> set (filter (\<lambda>s. ps_boundary s = FINAL) ini)" by simp
    then have "\<not> list_all (\<lambda>s. ps_boundary s = ITERATION) ini"
      by (auto simp: list_all_iff intro!: bexI [of _ f])
    with Cons early st show ?thesis by auto
  qed
qed

lemma graph_check_iff:
  "validate_graph stages final_profile = None \<longleftrightarrow> well_ordered_plan stages final_profile"
proof (cases "stages \<noteq> [] \<and> length stages \<le> 128 \<and> distinct (map ps_stage_id stages) \<and>
    deps_before ps_stage_id ps_dependencies {} stages")
  case True
  then have edges: "\<forall>s \<in> set stages. stage_edges_check (map ps_stage_id stages) s = None"
    using stage_edges_ordered by blast
  obtain r where "visit_all (dict_from (map (\<lambda>s. (ps_stage_id s, s)) stages)) [] (map ps_stage_id stages) [] = Inr r"
    using True ordered_stages_visit by blast
  then have "validate_graph stages final_profile = None \<longleftrightarrow>
      (length (filter (\<lambda>s. ps_boundary s = FINAL) stages) = 1 \<and>
       hd (filter (\<lambda>s. ps_boundary s = FINAL) stages) = last stages) \<and>
      ps_target (hd (filter (\<lambda>s. ps_boundary s = FINAL) stages)) = final_profile"
    using True edges by (simp add: validate_graph_def Let_def del: first_error_append) metis
  then show ?thesis
    using True single_final_last [of stages] unfolding well_ordered_plan_def by metis
next
  case False
  then show ?thesis
    using stage_edges_ordered [of stages]
    by (auto simp: validate_graph_def well_ordered_plan_def Let_def not_less simp del: first_error_append)
qed

text \<open>
  Claim C20. The graph check of a plan accepts exactly the lists of 1 to 128 stages with different
  ids in which every stage depends only on earlier stages and only the last one is final, with the
  final profile as its target. The depth-first cycle search always ends and never adds an error.
\<close>

theorem validate_graph_iff:
  "validate_graph stages final_profile = None \<longleftrightarrow> well_ordered_plan stages final_profile"
  by (rule graph_check_iff)

section \<open>The codec\<close>

lemma plan_enums [simp]:
  "enum_of n kind_value [DIAGNOSTIC, PROFILE] (kind_value k) = Inr k"
  "enum_of n boundary_value [ITERATION, FINAL] (boundary_value b) = Inr b"
  "enum_of n mutability_value [READ_ONLY, WORKSPACE_WRITE] (mutability_value m) = Inr m"
  "enum_of n policy_value [REQUIRED, OPTIONAL] (policy_value p) = Inr p"
  by (cases k; cases b; cases m; cases p;
      simp add: enum_of_def kind_value_def boundary_value_def mutability_value_def policy_value_def)+

lemma plan_stage_decode: "plan_stage_from (VDict (plan_stage_payload s)) = make_plan_stage s"
  by (cases s) (simp add: plan_stage_from_def plan_stage_payload_def get_str_def get_or_def dict_get_none_def of_strings_def)

lemma plan_binding_decode: "binding_from (plan_binding_payload b) = make_binding b"
  by (cases b) (simp add: binding_from_def plan_binding_payload_def get_str_def get_or_def of_strings_def)

lemma plan_stages_decode:
  "(\<And>s. s \<in> set stages \<Longrightarrow> plan_stage_check s = None) \<Longrightarrow>
     map_result plan_stage_from (map (\<lambda>s. VDict (plan_stage_payload s)) stages) = Inr stages"
  by (induction stages) (simp_all add: plan_stage_decode make_plan_stage_def)

lemma PLAN_ID_digest [simp]: "fullmatch PLAN_ID (''plan-'' @ take 24 (content_digest v))"
  unfolding PLAN_ID_def by (rule short_id_digest)

lemma created_plan_valid:
  assumes "create_execution_plan task_id workspace_id b stages final_profile created_at expires_at = Inr p"
  shows "validate_execution_plan p = Inr p" "pl_binding p = b" "pl_ordered_stages p = stages"
    "pl_schema_version p = EXECUTION_PLAN_SCHEMA_VERSION"
proof -
  have fields: "pl_task_id p = task_id" "pl_workspace_id p = workspace_id" "pl_final_profile p = final_profile"
      "pl_created_at p = created_at" "pl_expires_at p = expires_at"
    and goals: "pl_binding p = b" "pl_ordered_stages p = stages" "pl_schema_version p = EXECUTION_PLAN_SCHEMA_VERSION"
    and "fullmatch PLAN_ID (pl_plan_id p)"
    using assms PLAN_ID_digest by (auto simp: create_execution_plan_def bind_result_Inr_iff Let_def)
  then show "validate_execution_plan p = Inr p" "pl_binding p = b" "pl_ordered_stages p = stages"
    "pl_schema_version p = EXECUTION_PLAN_SCHEMA_VERSION"
    using assms by (simp_all add: validate_execution_plan_def recreate_plan_def)
qed

lemma plan_decode:
  assumes "binding_check (pl_binding p) = None" "\<And>s. s \<in> set (pl_ordered_stages p) \<Longrightarrow> plan_stage_check s = None"
  shows "execution_plan_from_payload (plan_payload p) = validate_execution_plan p"
proof -
  have stages: "map_result plan_stage_from (map (\<lambda>s. VDict (plan_stage_payload s)) (pl_ordered_stages p)) =
      Inr (pl_ordered_stages p)"
    using assms(2) by (rule plan_stages_decode)
  have "execution_plan_from_payload (plan_payload p) = validate_execution_plan
      \<lparr>pl_plan_id = pl_plan_id p, pl_plan_hash = pl_plan_hash p, pl_task_id = pl_task_id p,
       pl_workspace_id = pl_workspace_id p, pl_binding = pl_binding p, pl_ordered_stages = pl_ordered_stages p,
       pl_final_profile = pl_final_profile p, pl_stage_definition_hash = pl_stage_definition_hash p,
       pl_created_at = pl_created_at p, pl_expires_at = pl_expires_at p, pl_schema_version = pl_schema_version p\<rparr>"
    using assms(1) stages
    by (simp add: execution_plan_from_payload_def plan_payload_def plan_semantic_def get_str_def get_or_def
        dict_get_none_def plan_binding_decode make_binding_def)
  then show ?thesis by (cases p) simp
qed

text \<open>
  A created plan is decoded from its payload to exactly the same plan, hashes included.
\<close>

theorem execution_plan_roundtrip:
  assumes "create_execution_plan task_id workspace_id b stages final_profile created_at expires_at = Inr p"
    and "binding_check b = None" and "\<And>s. s \<in> set stages \<Longrightarrow> plan_stage_check s = None"
  shows "execution_plan_from_payload (plan_payload p) = Inr p"
  using plan_decode [of p] created_plan_valid [OF assms(1)] assms(2,3) by simp

text \<open>
  A valid plan is reported current exactly when every bound identity equals the one
  observed now, and its expiry, if it has one, is comparable with the present time and not before it.
\<close>

theorem plan_current_iff:
  assumes "validate_execution_plan p = Inr p"
  shows "validate_plan_current p cur = Inr [] \<longleftrightarrow>
     bd_head_sha (pl_binding p) = st_head_sha cur \<and>
     bd_workspace_fingerprint (pl_binding p) = st_workspace_fingerprint cur \<and>
     bd_config_generation (pl_binding p) = st_config_generation cur \<and>
     bd_policy_hash (pl_binding p) = st_policy_hash cur \<and>
     bd_risk_assessment_hash (pl_binding p) = st_risk_assessment_hash cur \<and>
     bd_recommendation_hash (pl_binding p) = st_recommendation_hash cur \<and>
     pl_stage_definition_hash p = st_stage_definition_hash cur \<and>
     (case pl_expires_at p of None \<Rightarrow> True
      | Some e \<Rightarrow> (case (fromisoformat (st_now cur), fromisoformat e) of
            (Some now, Some expiry) \<Rightarrow> is_aware now = is_aware expiry \<and> instant now \<le> instant expiry
          | _ \<Rightarrow> False))"
proof (cases "pl_expires_at p")
  case None
  with assms show ?thesis
    by (simp add: validate_plan_current_def Let_def conj_assoc)
next
  case (Some e)
  show ?thesis
  proof (cases "fromisoformat (st_now cur)")
    case None
    with assms Some show ?thesis by (simp add: validate_plan_current_def Let_def plan_iso_def)
  next
    case now: (Some now)
    show ?thesis
    proof (cases "fromisoformat e")
      case None
      with assms Some now show ?thesis by (simp add: validate_plan_current_def Let_def plan_iso_def)
    next
      case expiry: (Some expiry)
      with assms Some now show ?thesis
        by (simp add: validate_plan_current_def Let_def plan_iso_def datetime_less_def not_less)
    qed
  qed
qed

subsection \<open>Witnesses\<close>

definition example_stage :: "string \<Rightarrow> string list \<Rightarrow> PlanStageBoundary \<Rightarrow> PlanStage" where
  "example_stage i ds b =
     \<lparr>ps_stage_id = i, ps_kind = PROFILE, ps_target = ''full'', ps_selector = None, ps_dependencies = ds,
      ps_boundary = b, ps_working_directory = None, ps_timeout_seconds = 60, ps_mutability = READ_ONLY,
      ps_network_policy = ''none'', ps_failure_policy = REQUIRED, ps_artifact_paths = [''out/log'']\<rparr>"

definition example_plan_stages :: "PlanStage list" where
  "example_plan_stages = [example_stage ''lint'' [] ITERATION, example_stage ''test'' [''lint''] FINAL]"

definition example_binding :: ExecutionPlanBinding where
  "example_binding = (let h = replicate 64 CHR ''a'' in
     \<lparr>bd_head_sha = replicate 40 CHR ''a'', bd_workspace_fingerprint = h, bd_config_generation = h, bd_policy_hash = h,
      bd_assessment_snapshot_id = h, bd_evidence_snapshot_ids = [h], bd_risk_assessment_hash = h,
      bd_recommendation_hash = h\<rparr>)"

definition example_plan :: "ExecutionPlan result" where
  "example_plan = create_execution_plan (Some ''task-1'') ''ws-1'' example_binding example_plan_stages ''full''
     (clock 0) (Some (clock 9))"

lemma example_stages_valid: "s \<in> set example_plan_stages \<Longrightarrow> plan_stage_check s = None"
proof -
  have "list_all (\<lambda>s. plan_stage_check s = None) example_plan_stages" by code_simp
  then show "s \<in> set example_plan_stages \<Longrightarrow> plan_stage_check s = None" by (simp add: list_all_iff)
qed

lemma example_binding_valid: "binding_check example_binding = None"
  by (simp add: binding_check_def example_binding_def Let_def SHA40_def SHA64_def fullmatch_Rep is_lower_hex_def in_range_def)

lemma example_graph_valid: "validate_graph example_plan_stages ''full'' = None"
  unfolding graph_check_iff by code_simp

lemma example_expiry_valid: "expiry_check (clock 0) (Some (clock 9)) = None"
  by (simp add: expiry_check_def plan_iso_def datetime_less_def clock_instant [of 9])

lemma example_profile_valid: "fullmatch SAFE_TARGET ''full''"
  by code_simp

lemma example_plan_created: "\<exists>p. example_plan = Inr p"
  using example_graph_valid example_expiry_valid example_profile_valid
  by (simp add: example_plan_def create_execution_plan_def Let_def)

theorem execution_plan_roundtrip_witness:
  "\<exists>p. example_plan = Inr p \<and> execution_plan_from_payload (plan_payload p) = Inr p"
proof -
  obtain p where "example_plan = Inr p" using example_plan_created by blast
  then show ?thesis
    using execution_plan_roundtrip example_binding_valid example_stages_valid unfolding example_plan_def by blast
qed

definition example_state :: "ExecutionPlan \<Rightarrow> string \<Rightarrow> ExecutionPlanState" where
  "example_state p now =
     \<lparr>st_head_sha = bd_head_sha (pl_binding p), st_workspace_fingerprint = bd_workspace_fingerprint (pl_binding p),
      st_config_generation = bd_config_generation (pl_binding p), st_policy_hash = bd_policy_hash (pl_binding p),
      st_risk_assessment_hash = bd_risk_assessment_hash (pl_binding p),
      st_recommendation_hash = bd_recommendation_hash (pl_binding p),
      st_stage_definition_hash = pl_stage_definition_hash p, st_now = now\<rparr>"

theorem plan_current_iff_witness:
  "\<exists>p. example_plan = Inr p \<and> validate_plan_current p (example_state p (clock 5)) = Inr []"
proof -
  obtain p where p: "example_plan = Inr p" using example_plan_created by blast
  then have "validate_execution_plan p = Inr p" "pl_expires_at p = Some (clock 9)"
    using created_plan_valid(1) unfolding example_plan_def
    by (blast, auto simp: create_execution_plan_def bind_result_Inr_iff Let_def)
  then have "validate_plan_current p (example_state p (clock 5)) = Inr []"
    using plan_current_iff [of p "example_state p (clock 5)"]
    by (simp add: example_state_def clock_instant [of 5] clock_instant [of 9])
  with p show ?thesis by blast
qed

end
