(* ===== verification/Execution_Receipt.thy ===== *)
theory Execution_Receipt
  imports Content_Digest
begin

text \<open>
  domain/execution\_receipt.py: the content-addressed receipt of one executed stage. The receipt of an
  external effect is in Effect\_Receipt. A \<open>WorkspaceIdentity\<close> and an
  \<open>ArtifactDigest\<close> are checked by \<open>__post_init__\<close> when they are built.
\<close>

section \<open>Stage receipts\<close>

datatype StageReceiptStatus = STAGE_SUCCEEDED | STAGE_FAILED | STAGE_CANCELLED | STAGE_SKIPPED

datatype StageCacheStatus = NOT_CACHEABLE | MISS | HIT

definition receipt_status_value :: "StageReceiptStatus \<Rightarrow> string" where
  "receipt_status_value s = (case s of STAGE_SUCCEEDED \<Rightarrow> ''succeeded'' | STAGE_FAILED \<Rightarrow> ''failed''
     | STAGE_CANCELLED \<Rightarrow> ''cancelled'' | STAGE_SKIPPED \<Rightarrow> ''skipped'')"

definition cache_status_value :: "StageCacheStatus \<Rightarrow> string" where
  "cache_status_value s = (case s of NOT_CACHEABLE \<Rightarrow> ''not_cacheable'' | MISS \<Rightarrow> ''miss'' | HIT \<Rightarrow> ''hit'')"

definition EXECUTION_RECEIPT_SCHEMA_VERSION :: int where
  "EXECUTION_RECEIPT_SCHEMA_VERSION = 2"

definition RECEIPT_PLAN_ID :: regex where
  "RECEIPT_PLAN_ID = short_id ''plan-''"

record WorkspaceIdentity =
  wi_head_sha :: string
  wi_workspace_fingerprint :: string
  wi_config_generation :: string
  wi_policy_hash :: string

definition identity_check :: "WorkspaceIdentity \<Rightarrow> exn option" where
  "identity_check w = first_error
     (raise_if (\<not> fullmatch SHA40 (wi_head_sha w)) (state_invalid ''Stage receipt HEAD SHA is invalid'') #
      map (\<lambda>(name, v). raise_if (\<not> fullmatch SHA64 v) (state_invalid (''Stage receipt '' @ name @ '' is invalid'')))
        [(''workspace fingerprint'', wi_workspace_fingerprint w),
         (''configuration generation'', wi_config_generation w),
         (''policy hash'', wi_policy_hash w)])"

definition make_identity :: "WorkspaceIdentity \<Rightarrow> WorkspaceIdentity result" where
  "make_identity w = checked (identity_check w) w"

definition identity_payload :: "WorkspaceIdentity \<Rightarrow> pydict" where
  "identity_payload w =
     [(''config_generation'', VStr (wi_config_generation w)), (''head_sha'', VStr (wi_head_sha w)),
      (''policy_hash'', VStr (wi_policy_hash w)), (''workspace_fingerprint'', VStr (wi_workspace_fingerprint w))]"

record ArtifactDigest =
  ad_path :: string
  ad_sha256 :: string

definition unsafe_path :: "string \<Rightarrow> bool" where
  "unsafe_path p \<longleftrightarrow>
     p = [] \<or> 512 < length p \<or> startswith p ''/'' \<or> ''..'' \<in> set (split_on CHR ''/'' p) \<or> has_control p"

definition artifact_check :: "ArtifactDigest \<Rightarrow> exn option" where
  "artifact_check a = first_error
     [raise_if (unsafe_path (ad_path a)) (state_invalid ''Stage receipt artifact path is unsafe''),
      raise_if (\<not> fullmatch SHA64 (ad_sha256 a)) (state_invalid ''Stage receipt artifact digest is invalid'')]"

definition make_artifact :: "ArtifactDigest \<Rightarrow> ArtifactDigest result" where
  "make_artifact a = checked (artifact_check a) a"

definition artifact_payload :: "ArtifactDigest \<Rightarrow> pydict" where
  "artifact_payload a = [(''path'', VStr (ad_path a)), (''sha256'', VStr (ad_sha256 a))]"

record StageReceipt =
  sr_receipt_id :: string
  sr_operation_id :: string
  sr_ordinal :: int
  sr_plan_id :: string
  sr_plan_hash :: string
  sr_workspace_id :: string
  sr_stage_id :: string
  sr_kind :: string
  sr_target :: string
  sr_boundary :: string
  sr_started_at :: string
  sr_finished_at :: string
  sr_pre_identity :: WorkspaceIdentity
  sr_post_identity :: WorkspaceIdentity
  sr_target_identity :: string
  sr_environment_identity_schema_version :: int
  sr_environment_identity :: string
  sr_requested_policy_hash :: string
  sr_effective_policy_hash :: string
  sr_status :: StageReceiptStatus
  sr_failure_class :: "string option"
  sr_result_reference :: "string option"
  sr_artifact_digests :: "ArtifactDigest list"
  sr_cache_status :: StageCacheStatus
  sr_source_changed :: bool
  sr_schema_version :: int

definition receipt_timestamp :: "string \<Rightarrow> string \<Rightarrow> string \<Rightarrow> pydatetime result" where
  "receipt_timestamp what v field =
     (case fromisoformat v of
        None \<Rightarrow> Inl (state_invalid (what @ '' '' @ field @ '' is not an ISO timestamp''))
      | Some d \<Rightarrow> if is_aware d then Inr d
                  else Inl (state_invalid (what @ '' '' @ field @ '' must include a timezone offset'')))"

definition safe_optional :: "string option \<Rightarrow> string \<Rightarrow> nat \<Rightarrow> exn option" where
  "safe_optional v field limit =
     (case v of None \<Rightarrow> None
      | Some s \<Rightarrow> raise_if (s = [] \<or> limit < length s \<or> has_control s)
          (state_invalid (''Stage receipt '' @ field @ '' is invalid'')))"

definition receipt_semantic :: "StageReceipt \<Rightarrow> pydict" where
  "receipt_semantic r =
     [(''artifact_digests'', VList (map (\<lambda>a. VDict (artifact_payload a)) (sr_artifact_digests r))),
      (''boundary'', VStr (sr_boundary r)),
      (''cache_status'', VStr (cache_status_value (sr_cache_status r))),
      (''effective_policy_hash'', VStr (sr_effective_policy_hash r)),
      (''environment_identity'', VStr (sr_environment_identity r)),
      (''environment_identity_schema_version'', VInt (sr_environment_identity_schema_version r)),
      (''failure_class'', of_opt (sr_failure_class r)),
      (''finished_at'', VStr (sr_finished_at r)),
      (''kind'', VStr (sr_kind r)),
      (''operation_id'', VStr (sr_operation_id r)),
      (''ordinal'', VInt (sr_ordinal r)),
      (''plan_hash'', VStr (sr_plan_hash r)),
      (''plan_id'', VStr (sr_plan_id r)),
      (''post_identity'', VDict (identity_payload (sr_post_identity r))),
      (''pre_identity'', VDict (identity_payload (sr_pre_identity r))),
      (''requested_policy_hash'', VStr (sr_requested_policy_hash r)),
      (''result_reference'', of_opt (sr_result_reference r)),
      (''source_changed'', VBool (sr_source_changed r)),
      (''stage_id'', VStr (sr_stage_id r)),
      (''started_at'', VStr (sr_started_at r)),
      (''status'', VStr (receipt_status_value (sr_status r))),
      (''target'', VStr (sr_target r)),
      (''target_identity'', VStr (sr_target_identity r)),
      (''workspace_id'', VStr (sr_workspace_id r))]"

text \<open>\<open>finished < started\<close> after both are parsed.\<close>

definition receipt_order_check :: "StageReceipt \<Rightarrow> exn option" where
  "receipt_order_check r =
     raised (bind_result (receipt_timestamp ''Stage receipt'' (sr_started_at r) ''started_at'') (\<lambda>started.
       bind_result (receipt_timestamp ''Stage receipt'' (sr_finished_at r) ''finished_at'') (\<lambda>finished.
         if instant finished < instant started
         then Inl (state_invalid ''Stage receipt finished_at cannot precede started_at'') else Inr ())))"

definition receipt_checks :: "StageReceipt \<Rightarrow> exn option" where
  "receipt_checks r = first_error
     ([raise_if (\<not> fullmatch OPERATION_ID (sr_operation_id r)) (state_invalid ''Stage receipt operation id is invalid''),
       raise_if (\<not> fullmatch RECEIPT_PLAN_ID (sr_plan_id r) \<or> \<not> fullmatch SHA64 (sr_plan_hash r))
         (state_invalid ''Stage receipt plan identity is invalid''),
       raise_if (\<not> (0 \<le> sr_ordinal r \<and> sr_ordinal r \<le> 127)) (state_invalid ''Stage receipt ordinal is invalid'')] @
      map (\<lambda>(field, v). raise_if (\<not> fullmatch SAFE_ID v) (state_invalid (''Stage receipt '' @ field @ '' is invalid'')))
        [(''workspace_id'', sr_workspace_id r), (''stage_id'', sr_stage_id r), (''kind'', sr_kind r),
         (''target'', sr_target r), (''boundary'', sr_boundary r)] @
      [raise_if (\<not> fullmatch SHA64 (sr_target_identity r)) (state_invalid ''Stage receipt target identity is invalid''),
       raise_if (sr_environment_identity_schema_version r < 1)
         (state_invalid ''Stage receipt environment identity schema version is invalid'')] @
      map (\<lambda>(field, v). raise_if (\<not> fullmatch SHA64 v) (state_invalid (''Stage receipt '' @ field @ '' is invalid'')))
        [(''environment identity'', sr_environment_identity r),
         (''requested policy hash'', sr_requested_policy_hash r),
         (''effective policy hash'', sr_effective_policy_hash r)] @
      [safe_optional (sr_failure_class r) ''failure_class'' 128,
       safe_optional (sr_result_reference r) ''result_reference'' 256,
       raise_if (64 < length (sr_artifact_digests r) \<or> \<not> distinct (map ad_path (sr_artifact_digests r)))
         (state_invalid ''Stage receipt artifacts must be unique and bounded''),
       receipt_order_check r,
       raise_if (sr_status r = STAGE_SUCCEEDED \<and> sr_failure_class r \<noteq> None)
         (state_invalid ''Successful stage receipt cannot carry a failure class''),
       raise_if (sr_status r = STAGE_FAILED \<and> sr_failure_class r = None)
         (state_invalid ''Failed stage receipt requires a failure class'')])"

text \<open>
  The keyword arguments are the fields of the argument record; its \<open>receipt_id\<close> and
  \<open>schema_version\<close> are not read.
\<close>

definition create_stage_receipt :: "StageReceipt \<Rightarrow> StageReceipt result" where
  "create_stage_receipt a =
     checked (receipt_checks a)
       (a\<lparr>sr_receipt_id := ''receipt-'' @ take 24 (content_digest (VDict (receipt_semantic a))),
          sr_schema_version := EXECUTION_RECEIPT_SCHEMA_VERSION\<rparr>)"

definition receipt_payload :: "StageReceipt \<Rightarrow> pydict" where
  "receipt_payload r =
     (''receipt_id'', VStr (sr_receipt_id r)) # (''schema_version'', VInt (sr_schema_version r)) # receipt_semantic r"

definition validate_stage_receipt :: "StageReceipt \<Rightarrow> StageReceipt result" where
  "validate_stage_receipt r =
     (if sr_schema_version r \<noteq> EXECUTION_RECEIPT_SCHEMA_VERSION
      then Inl (state_invalid ''Stage receipt schema version is unsupported'')
      else bind_result (create_stage_receipt r) (\<lambda>expected.
        if sr_receipt_id r \<noteq> sr_receipt_id expected \<or> \<not> fullmatch RECEIPT_ID (sr_receipt_id r)
        then Inl (state_invalid ''Stage receipt id does not match its content'')
        else Inr r))"

definition identity_from :: "pydict \<Rightarrow> string \<Rightarrow> WorkspaceIdentity result" where
  "identity_from payload name =
     (case as_dict (dict_get_none payload name) of
        None \<Rightarrow> Inl (state_invalid (''Stage receipt '' @ name @ '' is missing''))
      | Some d \<Rightarrow> make_identity
          \<lparr>wi_head_sha = get_str d ''head_sha'', wi_workspace_fingerprint = get_str d ''workspace_fingerprint'',
           wi_config_generation = get_str d ''config_generation'', wi_policy_hash = get_str d ''policy_hash''\<rparr>)"

text \<open>The loop over the artifact payloads, in the receipt decoder and in the cache entry decoder.\<close>

definition artifact_from :: "string \<Rightarrow> pyval \<Rightarrow> ArtifactDigest result" where
  "artifact_from msg v =
     (case as_dict v of None \<Rightarrow> Inl (state_invalid msg)
      | Some d \<Rightarrow> make_artifact \<lparr>ad_path = get_str d ''path'', ad_sha256 = get_str d ''sha256''\<rparr>)"

definition stage_receipt_from_payload :: "pydict \<Rightarrow> StageReceipt result" where
  "stage_receipt_from_payload d =
     (case as_list (get_or d ''artifact_digests'' (VList [])) of
        None \<Rightarrow> Inl (state_invalid ''Stage receipt artifacts payload is invalid'')
      | Some raws \<Rightarrow>
        bind_result (map_result (artifact_from ''Stage receipt artifact payload is invalid'') raws) (\<lambda>artifacts.
        case as_int (dict_get_none d ''ordinal'') of
          None \<Rightarrow> Inl (state_invalid ''Stage receipt ordinal payload is invalid'')
        | Some ordinal \<Rightarrow>
        (case as_int (dict_get_none d ''schema_version'') of
          None \<Rightarrow> Inl (state_invalid ''Stage receipt schema payload is invalid'')
        | Some schema \<Rightarrow>
        (case as_int (dict_get_none d ''environment_identity_schema_version'') of
          None \<Rightarrow> Inl (state_invalid ''Stage receipt environment identity schema payload is invalid'')
        | Some identity_schema \<Rightarrow>
          bind_result (identity_from d ''pre_identity'') (\<lambda>pre.
          bind_result (identity_from d ''post_identity'') (\<lambda>post.
          bind_result (enum_of ''StageReceiptStatus'' receipt_status_value
            [STAGE_SUCCEEDED, STAGE_FAILED, STAGE_CANCELLED, STAGE_SKIPPED] (get_str d ''status'')) (\<lambda>status.
          bind_result (enum_of ''StageCacheStatus'' cache_status_value [NOT_CACHEABLE, MISS, HIT]
            (get_str d ''cache_status'')) (\<lambda>cache.
          validate_stage_receipt
            \<lparr>sr_receipt_id = get_str d ''receipt_id'', sr_operation_id = get_str d ''operation_id'', sr_ordinal = ordinal,
             sr_plan_id = get_str d ''plan_id'', sr_plan_hash = get_str d ''plan_hash'',
             sr_workspace_id = get_str d ''workspace_id'', sr_stage_id = get_str d ''stage_id'',
             sr_kind = get_str d ''kind'', sr_target = get_str d ''target'', sr_boundary = get_str d ''boundary'',
             sr_started_at = get_str d ''started_at'', sr_finished_at = get_str d ''finished_at'',
             sr_pre_identity = pre, sr_post_identity = post, sr_target_identity = get_str d ''target_identity'',
             sr_environment_identity_schema_version = identity_schema,
             sr_environment_identity = get_str d ''environment_identity'',
             sr_requested_policy_hash = get_str d ''requested_policy_hash'',
             sr_effective_policy_hash = get_str d ''effective_policy_hash'', sr_status = status,
             sr_failure_class = opt_str (dict_get_none d ''failure_class''),
             sr_result_reference = opt_str (dict_get_none d ''result_reference''),
             sr_artifact_digests = artifacts, sr_cache_status = cache,
             sr_source_changed = py_bool (get_or d ''source_changed'' (VBool False)),
             sr_schema_version = schema\<rparr>))))))))"

subsection \<open>The codec\<close>

lemma receipt_enums [simp]:
  "enum_of n receipt_status_value [STAGE_SUCCEEDED, STAGE_FAILED, STAGE_CANCELLED, STAGE_SKIPPED] (receipt_status_value s) = Inr s"
  "enum_of n cache_status_value [NOT_CACHEABLE, MISS, HIT] (cache_status_value c) = Inr c"
  by (cases s; cases c; simp add: enum_of_def receipt_status_value_def cache_status_value_def)+

lemma artifact_decode: "artifact_from msg (VDict (artifact_payload a)) = make_artifact a"
  by (cases a) (simp add: artifact_from_def artifact_payload_def get_str_def get_or_def)

lemma artifacts_decode:
  "(\<And>a. a \<in> set as \<Longrightarrow> artifact_check a = None) \<Longrightarrow>
     map_result (artifact_from msg) (map (\<lambda>a. VDict (artifact_payload a)) as) = Inr as"
  by (induction as) (simp_all add: artifact_decode make_artifact_def)

lemma identity_decode:
  "map_of d name = Some (VDict (identity_payload w)) \<Longrightarrow> identity_from d name = make_identity w"
  by (cases w) (simp add: identity_from_def identity_payload_def get_str_def get_or_def dict_get_none_def)

lemma RECEIPT_ID_digest: "fullmatch RECEIPT_ID (''receipt-'' @ take 24 (content_digest v))"
  using short_id_digest [of "''receipt-''"] by (simp only: RECEIPT_ID_def short_id_def)

lemma receipt_semantic_update [simp]:
  "receipt_semantic (r\<lparr>sr_receipt_id := i, sr_schema_version := v\<rparr>) = receipt_semantic r"
  "receipt_checks (r\<lparr>sr_receipt_id := i, sr_schema_version := v\<rparr>) = receipt_checks r"
  by (simp_all add: receipt_semantic_def receipt_checks_def receipt_order_check_def)

lemma created_receipt_valid:
  assumes "create_stage_receipt a = Inr r"
  shows "validate_stage_receipt r = Inr r"
  using assms RECEIPT_ID_digest by (auto simp: create_stage_receipt_def validate_stage_receipt_def)

lemma receipt_decode:
  assumes "identity_check (sr_pre_identity r) = None" "identity_check (sr_post_identity r) = None"
    and "\<And>a. a \<in> set (sr_artifact_digests r) \<Longrightarrow> artifact_check a = None"
  shows "stage_receipt_from_payload (receipt_payload r) = validate_stage_receipt r"
proof -
  have pre: "identity_from (receipt_payload r) ''pre_identity'' = Inr (sr_pre_identity r)"
    and post: "identity_from (receipt_payload r) ''post_identity'' = Inr (sr_post_identity r)"
    using assms(1,2) identity_decode [of "receipt_payload r"]
    by (simp_all add: receipt_payload_def receipt_semantic_def make_identity_def)
  have artifacts: "map_result (artifact_from m) (map (\<lambda>a. VDict (artifact_payload a)) (sr_artifact_digests r)) =
      Inr (sr_artifact_digests r)" for m
    using assms(3) by (rule artifacts_decode)
  have lookup: "get_str (receipt_payload r) k = (case map_of (receipt_payload r) k of None \<Rightarrow> '''' | Some v \<Rightarrow> py_str v)"
      "dict_get_none (receipt_payload r) k = (case map_of (receipt_payload r) k of None \<Rightarrow> VNone | Some v \<Rightarrow> v)"
      "get_or (receipt_payload r) k v = (case map_of (receipt_payload r) k of None \<Rightarrow> v | Some w \<Rightarrow> w)" for k v
    by (simp_all add: get_str_def get_or_def dict_get_none_def split: option.split)
  have entries: "map_of (receipt_payload r) = map_of ((''receipt_id'', VStr (sr_receipt_id r)) #
      (''schema_version'', VInt (sr_schema_version r)) # receipt_semantic r)"
    by (simp add: receipt_payload_def)
  show ?thesis
    unfolding stage_receipt_from_payload_def pre post lookup entries receipt_semantic_def
    by (simp add: artifacts, rule arg_cong [where f = validate_stage_receipt], simp)
qed

text \<open>
  A created stage receipt is decoded from its payload to exactly the same receipt.
\<close>

theorem stage_receipt_roundtrip:
  assumes "create_stage_receipt a = Inr r"
    and "identity_check (sr_pre_identity a) = None" "identity_check (sr_post_identity a) = None"
    and "\<And>x. x \<in> set (sr_artifact_digests a) \<Longrightarrow> artifact_check x = None"
  shows "stage_receipt_from_payload (receipt_payload r) = Inr r"
proof -
  have "sr_pre_identity r = sr_pre_identity a" "sr_post_identity r = sr_post_identity a"
    "sr_artifact_digests r = sr_artifact_digests a"
    using assms(1) by (auto simp: create_stage_receipt_def)
  then show ?thesis using receipt_decode [of r] created_receipt_valid [OF assms(1)] assms(2-4) by simp
qed

subsection \<open>Witness\<close>

definition example_identity :: WorkspaceIdentity where
  "example_identity = \<lparr>wi_head_sha = replicate 40 CHR ''a'', wi_workspace_fingerprint = replicate 64 CHR ''a'',
     wi_config_generation = replicate 64 CHR ''a'', wi_policy_hash = replicate 64 CHR ''a''\<rparr>"

definition example_artifact :: ArtifactDigest where
  "example_artifact = \<lparr>ad_path = ''out/log'', ad_sha256 = replicate 64 CHR ''a''\<rparr>"

definition example_receipt_arguments :: StageReceipt where
  "example_receipt_arguments = (let h = replicate 64 CHR ''a'' in
     \<lparr>sr_receipt_id = '''', sr_operation_id = ''op-000000000000000000000000'', sr_ordinal = 0,
      sr_plan_id = ''plan-000000000000000000000000'', sr_plan_hash = h, sr_workspace_id = ''ws'', sr_stage_id = ''test'',
      sr_kind = ''profile'', sr_target = ''full'', sr_boundary = ''final'', sr_started_at = clock 2,
      sr_finished_at = clock 3, sr_pre_identity = example_identity, sr_post_identity = example_identity,
      sr_target_identity = h, sr_environment_identity_schema_version = 1, sr_environment_identity = h,
      sr_requested_policy_hash = h, sr_effective_policy_hash = h, sr_status = STAGE_FAILED,
      sr_failure_class = Some ''timeout'', sr_result_reference = None, sr_artifact_digests = [example_artifact],
      sr_cache_status = MISS, sr_source_changed = False, sr_schema_version = 2\<rparr>)"

lemma example_digests: "fullmatch SHA64 (replicate 64 CHR ''a'')" "fullmatch SHA40 (replicate 40 CHR ''a'')"
  by (simp_all add: SHA64_def SHA40_def fullmatch_Rep is_lower_hex_def in_range_def)

lemma example_parts_valid: "identity_check example_identity = None" "artifact_check example_artifact = None"
  using example_digests
  by (simp_all add: identity_check_def example_identity_def artifact_check_def example_artifact_def
      unsafe_path_def has_control_def startswith_def)

lemma example_receipt_ids:
  "fullmatch OPERATION_ID ''op-000000000000000000000000''" "fullmatch RECEIPT_PLAN_ID ''plan-000000000000000000000000''"
  "list_all (fullmatch SAFE_ID) [''ws'', ''test'', ''profile'', ''full'', ''final'']"
  by code_simp+

lemma example_receipt_created: "\<exists>r. create_stage_receipt example_receipt_arguments = Inr r"
  using example_receipt_ids example_digests
  by (simp add: create_stage_receipt_def receipt_checks_def example_receipt_arguments_def Let_def
      receipt_order_check_def receipt_timestamp_def safe_optional_def has_control_def
      clock_instant [of 2] clock_instant [of 3])

theorem stage_receipt_roundtrip_witness:
  "\<exists>r. create_stage_receipt example_receipt_arguments = Inr r \<and> stage_receipt_from_payload (receipt_payload r) = Inr r"
proof -
  obtain r where r: "create_stage_receipt example_receipt_arguments = Inr r" using example_receipt_created by blast
  have "stage_receipt_from_payload (receipt_payload r) = Inr r"
    using stage_receipt_roundtrip [OF r] example_parts_valid by (simp add: example_receipt_arguments_def Let_def)
  with r show ?thesis by blast
qed

end
