(* ===== verification/Verification_Dag.thy ===== *)
theory Verification_Dag
  imports Execution_Plan Execution_Receipt "HOL-Library.Multiset"
begin

text \<open>
  domain/verification\_dag.py: the graph of verification stages compiled from a plan, its
  deterministic topological order, and the content-addressed entries of the iteration cache.
\<close>

section \<open>Data\<close>

datatype CachePolicy = CACHE_DISABLED | CACHE_READ_ONLY

datatype DagFailureSeverity = SEVERITY_REQUIRED | SEVERITY_OPTIONAL

definition cache_policy_value :: "CachePolicy \<Rightarrow> string" where
  "cache_policy_value c = (case c of CACHE_DISABLED \<Rightarrow> ''disabled'' | CACHE_READ_ONLY \<Rightarrow> ''read_only'')"

definition severity_value :: "DagFailureSeverity \<Rightarrow> string" where
  "severity_value s = (case s of SEVERITY_REQUIRED \<Rightarrow> ''required'' | SEVERITY_OPTIONAL \<Rightarrow> ''optional'')"

definition VERIFICATION_DAG_SCHEMA_VERSION :: int where
  "VERIFICATION_DAG_SCHEMA_VERSION = 1"

definition ITERATION_CACHE_SCHEMA_VERSION :: int where
  "ITERATION_CACHE_SCHEMA_VERSION = 2"

definition DAG_SAFE_ID :: regex where
  "DAG_SAFE_ID = Seq (One is_ascii_alnum) (upto (\<lambda>c. is_ascii_alnum c \<or> c \<in> set ''._:-'') 0 159)"

definition CACHE_ID :: regex where
  "CACHE_ID = short_id ''cache-''"

record VerificationDagStage =
  vs_stage_id :: string
  vs_version :: int
  vs_dependencies :: "string list"
  vs_kind :: string
  vs_target :: string
  vs_selector :: "string option"
  vs_environment_adapter :: string
  vs_working_directory :: string
  vs_timeout_seconds :: int
  vs_network_policy :: string
  vs_filesystem_policy :: string
  vs_process_policy :: string
  vs_credential_policy :: string
  vs_mutability :: string
  vs_required_risk_level :: string
  vs_artifact_paths :: "string list"
  vs_cache_policy :: CachePolicy
  vs_failure_severity :: DagFailureSeverity
  vs_final :: bool

definition dag_stage_check :: "VerificationDagStage \<Rightarrow> exn option" where
  "dag_stage_check s = first_error
     (map (\<lambda>(field, v). raise_if (\<not> fullmatch DAG_SAFE_ID v)
          (state_invalid (''Verification DAG '' @ field @ '' is invalid'')))
        [(''stage_id'', vs_stage_id s), (''kind'', vs_kind s), (''target'', vs_target s),
         (''environment_adapter'', vs_environment_adapter s), (''network_policy'', vs_network_policy s),
         (''filesystem_policy'', vs_filesystem_policy s), (''process_policy'', vs_process_policy s),
         (''credential_policy'', vs_credential_policy s), (''mutability'', vs_mutability s),
         (''required_risk_level'', vs_required_risk_level s)] @
      [raise_if (vs_version s < 1) (state_invalid ''Verification DAG stage version must be a positive integer''),
       raise_if (64 < length (vs_dependencies s) \<or> \<not> distinct (vs_dependencies s))
         (state_invalid ''Verification DAG dependencies must be unique and bounded''),
       raise_if (vs_stage_id s \<in> set (vs_dependencies s))
         (state_invalid ''Verification DAG stage cannot depend on itself''),
       raise_if (vs_working_directory s = [] \<or> 512 < length (vs_working_directory s))
         (state_invalid ''Verification DAG working directory is invalid''),
       raise_if (\<not> (1 \<le> vs_timeout_seconds s \<and> vs_timeout_seconds s \<le> 86400))
         (state_invalid ''Verification DAG stage timeout is invalid''),
       raise_if (vs_mutability s \<notin> set [''read_only'', ''workspace_write''])
         (state_invalid ''Verification DAG mutability is unsupported''),
       raise_if (vs_cache_policy s = CACHE_READ_ONLY \<and> (vs_mutability s \<noteq> ''read_only'' \<or> vs_final s))
         (state_invalid ''Only read-only non-final DAG stages may be cacheable''),
       raise_if (vs_final s \<and> vs_cache_policy s \<noteq> CACHE_DISABLED)
         (state_invalid ''Final verification stage must be non-cacheable''),
       raise_if (64 < length (vs_artifact_paths s))
         (state_invalid ''Verification DAG artifact list exceeds the reviewed bound'')] @
      map (\<lambda>p. raise_if (unsafe_path p) (state_invalid ''Verification DAG artifact path is unsafe'')) (vs_artifact_paths s))"

definition make_dag_stage :: "VerificationDagStage \<Rightarrow> VerificationDagStage result" where
  "make_dag_stage s = checked (dag_stage_check s) s"

definition dag_stage_payload :: "VerificationDagStage \<Rightarrow> pydict" where
  "dag_stage_payload s =
     [(''artifact_paths'', of_strings (vs_artifact_paths s)),
      (''cache_policy'', VStr (cache_policy_value (vs_cache_policy s))),
      (''credential_policy'', VStr (vs_credential_policy s)),
      (''dependencies'', of_strings (vs_dependencies s)),
      (''environment_adapter'', VStr (vs_environment_adapter s)),
      (''failure_severity'', VStr (severity_value (vs_failure_severity s))),
      (''filesystem_policy'', VStr (vs_filesystem_policy s)),
      (''final'', VBool (vs_final s)),
      (''kind'', VStr (vs_kind s)),
      (''mutability'', VStr (vs_mutability s)),
      (''network_policy'', VStr (vs_network_policy s)),
      (''process_policy'', VStr (vs_process_policy s)),
      (''required_risk_level'', VStr (vs_required_risk_level s)),
      (''selector'', of_opt (vs_selector s)),
      (''stage_id'', VStr (vs_stage_id s)),
      (''target'', VStr (vs_target s)),
      (''timeout_seconds'', VInt (vs_timeout_seconds s)),
      (''version'', VInt (vs_version s)),
      (''working_directory'', VStr (vs_working_directory s))]"

record VerificationDag =
  dg_dag_id :: string
  dg_dag_hash :: string
  dg_plan_id :: string
  dg_plan_hash :: string
  dg_stages :: "VerificationDagStage list"
  dg_final_stage_id :: string
  dg_schema_version :: int

section \<open>Topological order\<close>

text \<open>
  The loop over the children of the stage just ordered: their counts go down, and a child whose
  count reaches zero joins the sorted list of ready stages.
\<close>

fun release :: "string list \<Rightarrow> (string \<times> int) list \<Rightarrow> string list \<Rightarrow> ((string \<times> int) list \<times> string list) result" where
  "release [] indegree ready = Inr (indegree, ready)"
| "release (c # cs) indegree ready =
     (case dict_at indegree c of
        Inl e \<Rightarrow> Inl e
      | Inr n \<Rightarrow> release cs (dict_set indegree c (n - 1)) (if n - 1 = 0 then sort (ready @ [c]) else ready))"

definition positive_counts :: "(string \<times> int) list \<Rightarrow> nat" where
  "positive_counts d = length (filter (\<lambda>kv. 0 < snd kv) d)"

lemma positive_counts_set:
  "map_of d k = Some n \<Longrightarrow>
     positive_counts (dict_set d k (n - 1)) + (if n - 1 = 0 then 1 else 0) \<le> positive_counts d"
proof (induction d k "n - 1" rule: dict_set.induct)
  case (2 k' v' d k)
  then show ?case by (cases "k' = k") (auto simp: positive_counts_def split: if_splits)
qed simp

lemma release_measure:
  "release cs indegree ready = Inr (indegree', ready') \<Longrightarrow>
     length ready' + positive_counts indegree' \<le> length ready + positive_counts indegree"
proof (induction cs indegree ready rule: release.induct)
  case (2 c cs indegree ready)
  then obtain n where n: "map_of indegree c = Some n" by (auto split: sum.splits)
  have "length ready' + positive_counts indegree' \<le>
      length (if n - 1 = 0 then sort (ready @ [c]) else ready) + positive_counts (dict_set indegree c (n - 1))"
    using 2 n by (auto simp: dict_at_def)
  also have "\<dots> \<le> length ready + positive_counts indegree"
    using positive_counts_set [OF n] by (auto split: if_splits)
  finally show ?case .
qed simp

function order_loop ::
  "(string \<times> VerificationDagStage) list \<Rightarrow> (string \<times> string list) list \<Rightarrow> (string \<times> int) list \<Rightarrow> string list \<Rightarrow>
   VerificationDagStage list \<Rightarrow> VerificationDagStage list result" where
  "order_loop by_id children indegree [] ordered = Inr ordered"
| "order_loop by_id children indegree (i # ready) ordered =
     (case dict_at by_id i of
        Inl e \<Rightarrow> Inl e
      | Inr stage \<Rightarrow>
     (case dict_at children i of
        Inl e \<Rightarrow> Inl e
      | Inr cs \<Rightarrow>
     (case release (sort cs) indegree ready of
        Inl e \<Rightarrow> Inl e
      | Inr (indegree', ready') \<Rightarrow> order_loop by_id children indegree' ready' (ordered @ [stage]))))"
  by pat_completeness auto
termination
  by (relation "measure (\<lambda>(by_id, children, indegree, ready, ordered). length ready + positive_counts indegree)")
    (auto dest!: release_measure)

text \<open>\<open>children[dependency].append(stage.stage_id)\<close> for the dependencies of one stage.\<close>

fun add_children :: "string \<Rightarrow> string list \<Rightarrow> (string \<times> string list) list \<Rightarrow> (string \<times> string list) list result" where
  "add_children i [] children = Inr children"
| "add_children i (d # ds) children =
     bind_result (dict_at children d) (\<lambda>cs. add_children i ds (dict_set children d (cs @ [i])))"

fun build_graph ::
  "VerificationDagStage list \<Rightarrow> (string \<times> int) list \<Rightarrow> (string \<times> string list) list \<Rightarrow>
   ((string \<times> int) list \<times> (string \<times> string list) list) result" where
  "build_graph [] indegree children = Inr (indegree, children)"
| "build_graph (s # ss) indegree children =
     bind_result (add_children (vs_stage_id s) (vs_dependencies s) children) (\<lambda>children'.
       build_graph ss (dict_set indegree (vs_stage_id s) (int (length (vs_dependencies s)))) children')"

definition dag_checks :: "VerificationDagStage list \<Rightarrow> exn option" where
  "dag_checks stages =
     (let by_id = dict_from (map (\<lambda>s. (vs_stage_id s, s)) stages) in first_error
       ([raise_if (stages = [] \<or> 128 < length stages)
           (state_invalid ''Verification DAG must contain between 1 and 128 stages''),
         raise_if (length by_id \<noteq> length stages) (state_invalid ''Verification DAG stage ids must be unique'')] @
        map (\<lambda>s. let unknown = sorted_set (filter (\<lambda>d. d \<notin> fst ` set by_id) (vs_dependencies s)) in
          raise_if (unknown \<noteq> [])
            (state_invalid (''Verification DAG stage '' @ repr_str (vs_stage_id s) @ '' has unknown dependencies: '' @
               py_repr (of_strings unknown)))) stages))"

definition topological :: "VerificationDagStage list \<Rightarrow> VerificationDagStage list result" where
  "topological stages =
     bind_result (checked (dag_checks stages) ()) (\<lambda>_.
     let by_id = dict_from (map (\<lambda>s. (vs_stage_id s, s)) stages) in
     bind_result (build_graph stages (map (\<lambda>kv. (fst kv, 0)) by_id) (map (\<lambda>kv. (fst kv, [])) by_id))
       (\<lambda>(indegree, children).
     bind_result (order_loop by_id children indegree
         (sort (map fst (filter (\<lambda>kv. snd kv = 0) indegree))) []) (\<lambda>ordered.
     if length ordered \<noteq> length stages then Inl (state_invalid ''Verification DAG contains a dependency cycle'')
     else Inr ordered)))"

section \<open>Graphs\<close>

text \<open>
  \<open>collect\<close> of \<open>create_verification_dag\<close>. The pending calls are a stack: a call pushes the
  dependencies of its stage in front of what its callers still have to look at.
\<close>

function collect :: "(string \<times> VerificationDagStage) list \<Rightarrow> string list \<Rightarrow> string list \<Rightarrow> string list result" where
  "collect by_id [] ancestors = Inr ancestors"
| "collect by_id (d # todo) ancestors =
     (if d \<in> set ancestors then collect by_id todo ancestors
      else case map_of by_id d of
          None \<Rightarrow> Inl (KeyError d)
        | Some s \<Rightarrow> collect by_id (vs_dependencies s @ todo) (d # ancestors))"
  by pat_completeness auto
termination
proof (relation "inv_image (less_than <*lex*> less_than)
    (\<lambda>(by_id, todo, ancestors). (card (fst ` set by_id - set ancestors), length todo))", goal_cases)
  case 1
  then show ?case by auto
next
  case (3 by_id d todo ancestors s)
  have "d \<in> fst ` set by_id" using 3(2) by (metis map_of_SomeD fst_conv imageI)
  then have "card (fst ` set by_id - set (d # ancestors)) < card (fst ` set by_id - set ancestors)"
    using 3(1) by (intro psubset_card_mono) auto
  then show ?case by simp
qed simp_all

definition dag_semantic :: "string \<Rightarrow> string \<Rightarrow> string \<Rightarrow> VerificationDagStage list \<Rightarrow> pydict" where
  "dag_semantic plan_id plan_hash final_stage_id ordered =
     [(''final_stage_id'', VStr final_stage_id), (''plan_hash'', VStr plan_hash), (''plan_id'', VStr plan_id),
      (''schema_version'', VInt VERIFICATION_DAG_SCHEMA_VERSION),
      (''stages'', VList (map (\<lambda>s. VDict (dag_stage_payload s)) ordered))]"

definition branch_message :: string where
  "branch_message = ''Verification DAG final stage must depend on every required execution branch''"

definition branches_check :: "VerificationDagStage list \<Rightarrow> VerificationDagStage \<Rightarrow> exn option" where
  "branches_check ordered final =
     (if \<exists>s \<in> set (butlast ordered). vs_stage_id s \<notin> set (vs_dependencies final) \<and> s \<noteq> final
      then raised (bind_result (collect (map (\<lambda>s. (vs_stage_id s, s)) ordered) (vs_dependencies final) []) (\<lambda>ancestors.
        if \<exists>s \<in> set ordered. s \<noteq> final \<and> vs_stage_id s \<notin> set ancestors
        then Inl (state_invalid branch_message) else Inr ()))
      else None)"

definition create_verification_dag ::
  "string \<Rightarrow> string \<Rightarrow> VerificationDagStage list \<Rightarrow> string \<Rightarrow> VerificationDag result" where
  "create_verification_dag plan_id plan_hash stages final_stage_id =
     (if \<not> fullmatch PLAN_ID plan_id \<or> \<not> fullmatch SHA64 plan_hash
      then Inl (state_invalid ''Verification DAG plan identity is invalid'')
      else bind_result (topological stages) (\<lambda>ordered.
        case map_of (map (\<lambda>s. (vs_stage_id s, s)) ordered) final_stage_id of
          None \<Rightarrow> Inl (state_invalid ''Verification DAG final stage is missing'')
        | Some final \<Rightarrow>
            bind_result (checked (first_error
              [raise_if (\<not> vs_final final) (state_invalid ''Verification DAG final stage is missing''),
               raise_if (map vs_stage_id (filter vs_final ordered) \<noteq> [final_stage_id])
                 (state_invalid ''Verification DAG requires exactly one declared final stage''),
               branches_check ordered final]) ()) (\<lambda>_.
            let dag_hash = content_digest (VDict (dag_semantic plan_id plan_hash final_stage_id ordered)) in
            Inr \<lparr>dg_dag_id = ''dag-'' @ take 24 dag_hash, dg_dag_hash = dag_hash, dg_plan_id = plan_id,
              dg_plan_hash = plan_hash, dg_stages = ordered, dg_final_stage_id = final_stage_id,
              dg_schema_version = VERIFICATION_DAG_SCHEMA_VERSION\<rparr>)))"

definition dag_stage_of :: "PlanStage \<Rightarrow> VerificationDagStage result" where
  "dag_stage_of s = make_dag_stage
     \<lparr>vs_stage_id = ps_stage_id s, vs_version = 1, vs_dependencies = ps_dependencies s,
      vs_kind = kind_value (ps_kind s), vs_target = ps_target s, vs_selector = ps_selector s,
      vs_environment_adapter = ''native'',
      vs_working_directory = (case ps_working_directory s of None \<Rightarrow> ''.'' | Some w \<Rightarrow> if w = [] then ''.'' else w),
      vs_timeout_seconds = ps_timeout_seconds s, vs_network_policy = ps_network_policy s,
      vs_filesystem_policy = mutability_value (ps_mutability s), vs_process_policy = ''bounded_subprocess'',
      vs_credential_policy = ''none'', vs_mutability = mutability_value (ps_mutability s),
      vs_required_risk_level = ''unknown'', vs_artifact_paths = ps_artifact_paths s,
      vs_cache_policy = (if ps_boundary s = ITERATION \<and> ps_mutability s = READ_ONLY then CACHE_READ_ONLY else CACHE_DISABLED),
      vs_failure_severity = (if ps_failure_policy s = REQUIRED then SEVERITY_REQUIRED else SEVERITY_OPTIONAL),
      vs_final = (ps_boundary s = FINAL)\<rparr>"

definition compile_plan_dag :: "ExecutionPlan \<Rightarrow> VerificationDag result" where
  "compile_plan_dag p =
     bind_result (validate_execution_plan p) (\<lambda>_.
     bind_result (map_result dag_stage_of (pl_ordered_stages p)) (\<lambda>stages.
     case filter (\<lambda>s. ps_boundary s = FINAL) (pl_ordered_stages p) of
       [] \<Rightarrow> Inl StopIteration
     | final # _ \<Rightarrow> create_verification_dag (pl_plan_id p) (pl_plan_hash p) stages (ps_stage_id final)))"

section \<open>The graph that is built\<close>

abbreviation (input) stage_ids :: "VerificationDagStage list \<Rightarrow> string list" where
  "stage_ids ss \<equiv> map vs_stage_id ss"

definition children_of :: "VerificationDagStage list \<Rightarrow> string \<Rightarrow> string list" where
  "children_of ss d = stage_ids (filter (\<lambda>s. d \<in> set (vs_dependencies s)) ss)"

lemma add_children_spec:
  assumes "distinct ds" "set ds \<subseteq> dom (map_of ch)"
  shows "\<exists>ch'. add_children i ds ch = Inr ch' \<and>
    (\<forall>d. map_of ch' d = (if d \<in> set ds then map_option (\<lambda>cs. cs @ [i]) (map_of ch d) else map_of ch d))"
  using assms
proof (induction ds arbitrary: ch)
  case (Cons d ds)
  then obtain cs where cs: "map_of ch d = Some cs" by auto
  have "set ds \<subseteq> dom (map_of (dict_set ch d (cs @ [i])))" using Cons.prems(2) by (auto simp: map_of_dict_set)
  with Cons.IH [of "dict_set ch d (cs @ [i])"] Cons.prems(1)
  obtain ch' where "add_children i ds (dict_set ch d (cs @ [i])) = Inr ch'"
    "\<forall>e. map_of ch' e = (if e \<in> set ds then map_option (\<lambda>cs. cs @ [i]) (map_of (dict_set ch d (cs @ [i])) e)
        else map_of (dict_set ch d (cs @ [i])) e)" by auto
  with cs Cons.prems(1) show ?case by (auto simp: map_of_dict_set dict_at_def)
qed simp

lemma build_graph_spec:
  assumes "distinct (stage_ids ss)" "\<And>s. s \<in> set ss \<Longrightarrow> distinct (vs_dependencies s) \<and> set (vs_dependencies s) \<subseteq> dom (map_of ch)"
    and "distinct (map fst ind)"
  shows "\<exists>ind' ch'. build_graph ss ind ch = Inr (ind', ch') \<and>
    (\<forall>d. map_of ch' d = map_option (\<lambda>cs. cs @ children_of ss d) (map_of ch d)) \<and>
    (\<forall>s \<in> set ss. map_of ind' (vs_stage_id s) = Some (int (length (vs_dependencies s)))) \<and>
    (\<forall>i. i \<notin> set (stage_ids ss) \<longrightarrow> map_of ind' i = map_of ind i) \<and> distinct (map fst ind')"
  using assms
proof (induction ss arbitrary: ind ch)
  case Nil
  then show ?case by (simp add: children_of_def option.map_ident)
next
  case (Cons s ss)
  obtain ch1 where ch1: "add_children (vs_stage_id s) (vs_dependencies s) ch = Inr ch1"
    "\<And>d. map_of ch1 d = (if d \<in> set (vs_dependencies s) then map_option (\<lambda>cs. cs @ [vs_stage_id s]) (map_of ch d) else map_of ch d)"
    using add_children_spec [of "vs_dependencies s" ch "vs_stage_id s"] Cons.prems(2) by auto
  have dom: "dom (map_of ch1) = dom (map_of ch)"
    using ch1(2) by (auto simp: dom_def split: if_splits)
  let ?ind = "dict_set ind (vs_stage_id s) (int (length (vs_dependencies s)))"
  obtain ind' ch' where g: "build_graph ss ?ind ch1 = Inr (ind', ch')"
    "\<And>d. map_of ch' d = map_option (\<lambda>cs. cs @ children_of ss d) (map_of ch1 d)"
    "\<And>t. t \<in> set ss \<Longrightarrow> map_of ind' (vs_stage_id t) = Some (int (length (vs_dependencies t)))"
    "\<And>i. i \<notin> set (stage_ids ss) \<Longrightarrow> map_of ind' i = map_of ?ind i" "distinct (map fst ind')"
    using Cons.IH [of ch1 ?ind] Cons.prems dom distinct_dict_set [OF Cons.prems(3)] by auto
  have "map_of ch' d = map_option (\<lambda>cs. cs @ children_of (s # ss) d) (map_of ch d)" for d
    using g(2) [of d] ch1(2) [of d] by (auto simp: children_of_def option.map_comp comp_def)
  moreover have "map_of ind' (vs_stage_id t) = Some (int (length (vs_dependencies t)))" if "t \<in> set (s # ss)" for t
    using that g(3) [of t] g(4) [of "vs_stage_id s"] Cons.prems(1) by (auto simp: map_of_dict_set)
  moreover have "map_of ind' i = map_of ind i" if "i \<notin> set (stage_ids (s # ss))" for i
    using that g(4) [of i] by (auto simp: map_of_dict_set)
  ultimately show ?case using ch1(1) g(1,5) by auto
qed

lemma release_spec:
  assumes "distinct cs" "set cs \<subseteq> dom (map_of ind)"
  shows "\<exists>ind' ready'. release cs ind ready = Inr (ind', ready') \<and>
    (\<forall>v. map_of ind' v = (if v \<in> set cs then map_option (\<lambda>n. n - 1) (map_of ind v) else map_of ind v)) \<and>
    mset ready' = mset ready + mset (filter (\<lambda>c. map_of ind c = Some 1) cs)"
  using assms
proof (induction cs arbitrary: ind ready)
  case (Cons c cs)
  then obtain n where n: "map_of ind c = Some n" by auto
  let ?ind = "dict_set ind c (n - 1)" and ?ready = "if n - 1 = 0 then sort (ready @ [c]) else ready"
  have "set cs \<subseteq> dom (map_of ?ind)" using Cons.prems(2) by (auto simp: map_of_dict_set)
  then obtain ind' ready' where r: "release cs ?ind ?ready = Inr (ind', ready')"
    "\<And>v. map_of ind' v = (if v \<in> set cs then map_option (\<lambda>n. n - 1) (map_of ?ind v) else map_of ?ind v)"
    "mset ready' = mset ?ready + mset (filter (\<lambda>c. map_of ?ind c = Some 1) cs)"
    using Cons.IH [of ?ind ?ready] Cons.prems(1) by auto
  have "filter (\<lambda>c. map_of ?ind c = Some 1) cs = filter (\<lambda>c. map_of ind c = Some 1) cs"
    using Cons.prems(1) by (intro filter_cong) (auto simp: map_of_dict_set)
  then have "mset ready' = mset ready + mset (filter (\<lambda>c. map_of ind c = Some 1) (c # cs))"
    using r(3) n by (simp only:) simp
  moreover have "map_of ind' v = (if v \<in> set (c # cs) then map_option (\<lambda>n. n - 1) (map_of ind v) else map_of ind v)" for v
    using r(2) [of v] n Cons.prems(1) by (auto simp: map_of_dict_set)
  moreover have "release (c # cs) ind ready = Inr (ind', ready')"
    using r(1) n by (simp add: dict_at_def)
  ultimately show ?case by blast
qed simp

section \<open>The loop\<close>

definition missing :: "string set \<Rightarrow> VerificationDagStage \<Rightarrow> int" where
  "missing done s = int (length (filter (\<lambda>d. d \<notin> done) (vs_dependencies s)))"

definition loop_inv ::
  "VerificationDagStage list \<Rightarrow> (string \<times> int) list \<Rightarrow> string list \<Rightarrow> VerificationDagStage list \<Rightarrow> bool" where
  "loop_inv stages indegree ready ordered \<longleftrightarrow>
     (\<forall>s \<in> set stages. map_of indegree (vs_stage_id s) = Some (missing (vs_stage_id ` set ordered) s)) \<and>
     distinct (stage_ids ordered @ ready) \<and> set ready \<subseteq> vs_stage_id ` set stages \<and> set ordered \<subseteq> set stages \<and>
     (\<forall>s \<in> set stages. vs_stage_id s \<in> vs_stage_id ` set ordered \<union> set ready \<longleftrightarrow>
        set (vs_dependencies s) \<subseteq> vs_stage_id ` set ordered) \<and>
     deps_before vs_stage_id vs_dependencies {} ordered"

lemma deps_before_append:
  "deps_before key deps seen (xs @ ys) \<longleftrightarrow> deps_before key deps seen xs \<and> deps_before key deps (key ` set xs \<union> seen) ys"
  by (induction xs arbitrary: seen) (auto simp: insert_commute)

lemma missing_insert:
  assumes "distinct (vs_dependencies s)" "i \<notin> done"
  shows "missing (insert i done) s = missing done s - (if i \<in> set (vs_dependencies s) then 1 else 0)"
proof -
  have "filter (\<lambda>d. d \<notin> insert i done) (vs_dependencies s) = remove1 i (filter (\<lambda>d. d \<notin> done) (vs_dependencies s))"
    using assms(1) by (simp add: distinct_remove1_removeAll removeAll_filter_not_eq) (metis)
  moreover have "0 < length (filter (\<lambda>d. d \<notin> done) (vs_dependencies s))" if "i \<in> set (vs_dependencies s)"
    using that assms(2) by (intro length_pos_if_in_set [of i]) simp
  ultimately show ?thesis
    using assms(2) by (auto simp: missing_def length_remove1 of_nat_diff Suc_le_eq)
qed

lemma missing_one:
  assumes "distinct (vs_dependencies s)" "i \<in> set (vs_dependencies s)" "i \<notin> done"
  shows "missing done s = 1 \<longleftrightarrow> set (vs_dependencies s) \<subseteq> insert i done"
proof -
  have "missing (insert i done) s = missing done s - 1" using missing_insert [OF assms(1,3)] assms(2) by simp
  moreover have "missing (insert i done) s = 0 \<longleftrightarrow> set (vs_dependencies s) \<subseteq> insert i done"
    by (auto simp: missing_def filter_empty_conv)
  ultimately show ?thesis by linarith
qed

lemma loop_step:
  assumes inv: "loop_inv stages ind (i # ready) ordered"
    and ids: "distinct (stage_ids stages)" and deps: "\<And>s. s \<in> set stages \<Longrightarrow> distinct (vs_dependencies s)"
    and s: "s \<in> set stages" "vs_stage_id s = i"
    and ind': "\<And>v. map_of ind' v = (if v \<in> set (children_of stages i) then map_option (\<lambda>n. n - 1) (map_of ind v) else map_of ind v)"
    and ready': "mset ready' = mset ready + mset (filter (\<lambda>c. map_of ind c = Some 1) cs)" "mset cs = mset (children_of stages i)"
  shows "loop_inv stages ind' ready' (ordered @ [s])"
proof -
  let ?O = "vs_stage_id ` set ordered"
  have fresh: "i \<notin> ?O" and deps_i: "set (vs_dependencies s) \<subseteq> ?O"
    using inv s by (auto simp: loop_inv_def)
  have uniq: "t = u" if "t \<in> set stages" "u \<in> set stages" "vs_stage_id t = vs_stage_id u" for t u
    using that ids by (meson distinct_map inj_onD)
  have child: "vs_stage_id t \<in> set (children_of stages i) \<longleftrightarrow> i \<in> set (vs_dependencies t)" if "t \<in> set stages" for t
    using that uniq by (force simp: children_of_def)
  have count: "map_of ind (vs_stage_id t) = Some (missing ?O t)" if "t \<in> set stages" for t
    using inv that by (simp add: loop_inv_def)
  have set_cs: "set cs = set (children_of stages i)" using ready'(2) by (metis set_mset_mset)
  have set_ready: "set ready' = set ready \<union> {c \<in> set (children_of stages i). map_of ind c = Some 1}"
    using arg_cong [OF ready'(1), of set_mset] set_cs by auto
  have joins: "vs_stage_id t \<in> set ready' \<longleftrightarrow>
      vs_stage_id t \<in> set ready \<or> i \<in> set (vs_dependencies t) \<and> set (vs_dependencies t) \<subseteq> insert i ?O" if "t \<in> set stages" for t
    using child [OF that] count [OF that] missing_one [OF deps [OF that] _ fresh] by (auto simp: set_ready)
  have closed: "vs_stage_id t \<in> ?O \<union> set (i # ready) \<longleftrightarrow> set (vs_dependencies t) \<subseteq> ?O" if "t \<in> set stages" for t
    using inv that by (simp add: loop_inv_def)
  have "map_of ind' (vs_stage_id t) = Some (missing (insert i ?O) t)" if "t \<in> set stages" for t
    using ind' [of "vs_stage_id t"] child [OF that] count [OF that] missing_insert [OF deps [OF that] fresh] by simp
  moreover have "vs_stage_id t \<in> insert i ?O \<union> set ready' \<longleftrightarrow> set (vs_dependencies t) \<subseteq> insert i ?O" if "t \<in> set stages" for t
    using closed [OF that] joins [OF that] by auto
  moreover have "set ready' \<subseteq> vs_stage_id ` set stages"
    using inv by (auto simp: set_ready loop_inv_def children_of_def)
  moreover have "distinct (stage_ids (ordered @ [s]) @ ready')"
  proof -
    have "distinct cs"
      using ids mset_eq_imp_distinct_iff [OF ready'(2)] by (simp add: children_of_def distinct_map_filter)
    have new: "c \<notin> ?O \<union> set (i # ready)" if "c \<in> set cs" for c
    proof -
      obtain t where "t \<in> set stages" "c = vs_stage_id t" "i \<in> set (vs_dependencies t)"
        using \<open>c \<in> set cs\<close> set_cs by (auto simp: children_of_def)
      then show ?thesis using closed [of t] fresh by auto
    qed
    have dist: "distinct (stage_ids ordered)" "distinct (i # ready)" "?O \<inter> set (i # ready) = {}"
      using inv by (auto simp: loop_inv_def)
    have "distinct (ready @ filter (\<lambda>c. map_of ind c = Some 1) cs)"
      using dist(2) \<open>distinct cs\<close> new by auto
    then have "distinct ready'"
      using mset_eq_imp_distinct_iff [of ready' "ready @ filter (\<lambda>c. map_of ind c = Some 1) cs"] ready'(1) by simp
    then show ?thesis using dist s(2) new set_ready set_cs by auto
  qed
  moreover have "deps_before vs_stage_id vs_dependencies {} (ordered @ [s])"
    using inv deps_i by (auto simp: loop_inv_def deps_before_append)
  ultimately show ?thesis using inv s by (auto simp: loop_inv_def)
qed

lemma order_loop_spec:
  assumes "loop_inv stages ind ready ordered"
    and "distinct (stage_ids stages)" "\<And>s. s \<in> set stages \<Longrightarrow> distinct (vs_dependencies s)"
    and "\<And>s. s \<in> set stages \<Longrightarrow> map_of by_id (vs_stage_id s) = Some s"
    and "\<And>s. s \<in> set stages \<Longrightarrow> map_of ch (vs_stage_id s) = Some (children_of stages (vs_stage_id s))"
  shows "\<exists>ordered' ind'. order_loop by_id ch ind ready ordered = Inr ordered' \<and> loop_inv stages ind' [] ordered'"
  using assms
proof (induction by_id ch ind ready ordered rule: order_loop.induct)
  case (2 by_id ch ind i ready ordered)
  obtain s where s: "s \<in> set stages" "vs_stage_id s = i"
    using 2(2) by (auto simp: loop_inv_def)
  have look: "map_of by_id i = Some s" "map_of ch i = Some (children_of stages i)"
    using 2(5) [OF s(1)] 2(6) [OF s(1)] s(2) by auto
  have "distinct (sort (children_of stages i))" "set (sort (children_of stages i)) \<subseteq> dom (map_of ind)"
    using 2(2,3) by (auto simp: children_of_def distinct_map_filter loop_inv_def)
  then obtain ind' ready' where r: "release (sort (children_of stages i)) ind ready = Inr (ind', ready')"
    "\<And>v. map_of ind' v = (if v \<in> set (children_of stages i) then map_option (\<lambda>n. n - 1) (map_of ind v) else map_of ind v)"
    "mset ready' = mset ready + mset (filter (\<lambda>c. map_of ind c = Some 1) (sort (children_of stages i)))"
    using release_spec [of "sort (children_of stages i)" ind ready] by auto
  have "loop_inv stages ind' ready' (ordered @ [s])"
    using loop_step [OF 2(2,3) 2(4) s r(2,3)] by simp
  then have "\<exists>ordered' ind''. order_loop by_id ch ind' ready' (ordered @ [s]) = Inr ordered' \<and> loop_inv stages ind'' [] ordered'"
    using 2(1) [of s "children_of stages i" "(ind', ready')" ind' ready'] look r(1) 2(3-6) by (simp add: dict_at_def)
  then show ?case using look r(1) by (simp add: dict_at_def)
qed auto

section \<open>The order\<close>

text \<open>\<open>depends_on stages\<close> holds the pairs of a dependency and the stage that names it.\<close>

definition depends_on :: "VerificationDagStage list \<Rightarrow> (string \<times> string) set" where
  "depends_on stages = {(d, vs_stage_id s) | d s. s \<in> set stages \<and> d \<in> set (vs_dependencies s)}"

definition cycle_error :: exn where
  "cycle_error = state_invalid ''Verification DAG contains a dependency cycle''"

definition dag_ready :: "VerificationDagStage list \<Rightarrow> bool" where
  "dag_ready stages \<longleftrightarrow> dag_checks stages = None \<and> list_all (\<lambda>s. dag_stage_check s = None) stages"

lemma dag_readyD:
  assumes "dag_ready stages"
  shows "stages \<noteq> []" "length stages \<le> 128" "distinct (stage_ids stages)"
    "s \<in> set stages \<Longrightarrow> distinct (vs_dependencies s)"
    "s \<in> set stages \<Longrightarrow> set (vs_dependencies s) \<subseteq> set (stage_ids stages)"
    "dict_from (map (\<lambda>s. (vs_stage_id s, s)) stages) = map (\<lambda>s. (vs_stage_id s, s)) stages"
proof -
  let ?by_id = "map (\<lambda>s. (vs_stage_id s, s)) stages"
  have keys: "map fst ?by_id = stage_ids stages" by (simp add: comp_def)
  have c: "stages \<noteq> [] \<and> length stages \<le> 128" "length (dict_from ?by_id) = length ?by_id"
    using assms by (auto simp: dag_ready_def dag_checks_def Let_def not_less simp del: first_error_append)
  show "stages \<noteq> []" "length stages \<le> 128" using c(1) by auto
  have d: "distinct (map fst ?by_id)" using c(2) length_dict_from [of ?by_id] by blast
  then show "distinct (stage_ids stages)" by (simp only: keys)
  show dict: "dict_from ?by_id = ?by_id" using d by (rule dict_from_distinct)
  show "distinct (vs_dependencies s)" if "s \<in> set stages"
    using assms that by (auto simp: dag_ready_def dag_stage_check_def list_all_iff)
  show "set (vs_dependencies s) \<subseteq> set (stage_ids stages)" if "s \<in> set stages"
    using assms that dict
    by (auto simp: dag_ready_def dag_checks_def Let_def image_image filter_empty_conv simp del: first_error_append)
qed

definition graph_of ::
  "VerificationDagStage list \<Rightarrow> ((string \<times> int) list \<times> (string \<times> string list) list) result" where
  "graph_of stages = build_graph stages (map (\<lambda>s. (vs_stage_id s, 0)) stages) (map (\<lambda>s. (vs_stage_id s, [])) stages)"

lemma map_of_const: "map_of (map (\<lambda>s. (f s, c)) ss) i = (if i \<in> f ` set ss then Some c else None)"
  by (induction ss) auto

lemma graph_of_spec:
  assumes "dag_ready stages"
  obtains ind ch where "graph_of stages = Inr (ind, ch)"
    and "\<And>d. map_of ch d = (if d \<in> set (stage_ids stages) then Some (children_of stages d) else None)"
    and "\<And>s. s \<in> set stages \<Longrightarrow> map_of ind (vs_stage_id s) = Some (int (length (vs_dependencies s)))"
    and "fst ` set ind = set (stage_ids stages)" "distinct (map fst ind)"
proof -
  let ?ind = "map (\<lambda>s. (vs_stage_id s, 0 :: int)) stages" and ?ch = "map (\<lambda>s. (vs_stage_id s, [] :: string list)) stages"
  have known: "distinct (vs_dependencies s) \<and> set (vs_dependencies s) \<subseteq> dom (map_of ?ch)" if "s \<in> set stages" for s
    using dag_readyD(4,5) [OF assms that] by (simp add: dom_map_of_conv_image_fst image_image)
  have dist: "distinct (map fst ?ind)" using dag_readyD(3) [OF assms] by (simp add: comp_def)
  obtain ind ch where g: "graph_of stages = Inr (ind, ch)"
    "\<And>d. map_of ch d = map_option (\<lambda>cs. cs @ children_of stages d) (map_of ?ch d)"
    "\<And>s. s \<in> set stages \<Longrightarrow> map_of ind (vs_stage_id s) = Some (int (length (vs_dependencies s)))"
    "\<And>i. i \<notin> set (stage_ids stages) \<Longrightarrow> map_of ind i = map_of ?ind i"
    "distinct (map fst ind)"
    using build_graph_spec [OF dag_readyD(3) [OF assms] known dist] unfolding graph_of_def by blast
  have "dom (map_of ind) = set (stage_ids stages)"
    using g(3,4) by (auto simp: dom_def map_of_const) (metis image_eqI not_None_eq)
  then show ?thesis using that g by (simp add: map_of_const dom_map_of_conv_image_fst)
qed

lemma topological_unfold:
  assumes "dag_ready stages" "graph_of stages = Inr (ind, ch)"
  shows "topological stages =
    bind_result (order_loop (map (\<lambda>s. (vs_stage_id s, s)) stages) ch ind
       (sort (map fst (filter (\<lambda>kv. snd kv = 0) ind))) []) (\<lambda>ordered.
    if length ordered \<noteq> length stages then Inl cycle_error else Inr ordered)"
  using assms dag_readyD(6) [OF assms(1)] unfolding cycle_error_def
  by (simp add: topological_def dag_ready_def Let_def graph_of_def comp_def)

lemma initial_inv:
  assumes "dag_ready stages" "graph_of stages = Inr (ind, ch)"
  shows "loop_inv stages ind (sort (map fst (filter (\<lambda>kv. snd kv = 0) ind))) []"
proof -
  obtain ind' ch' where g: "graph_of stages = Inr (ind', ch')"
    "\<And>s. s \<in> set stages \<Longrightarrow> map_of ind' (vs_stage_id s) = Some (int (length (vs_dependencies s)))"
    "fst ` set ind' = set (stage_ids stages)" "distinct (map fst ind')"
    using graph_of_spec [OF assms(1)] by metis
  then have ind: "ind' = ind" using assms(2) by simp
  have entry: "(i, n) \<in> set ind \<longleftrightarrow> map_of ind i = Some n" for i n
    using g(4) ind by (simp add: map_of_eq_Some_iff)
  have ready: "vs_stage_id s \<in> set (map fst (filter (\<lambda>kv. snd kv = 0) ind)) \<longleftrightarrow> vs_dependencies s = []" if "s \<in> set stages" for s
    using g(2) [OF that] ind entry by (auto simp: image_iff Bex_def)
  have "set (map fst (filter (\<lambda>kv. snd kv = 0) ind)) \<subseteq> vs_stage_id ` set stages"
    using g(3) ind by auto
  moreover have "distinct (map fst (filter (\<lambda>kv. snd kv = 0) ind))"
    using g(4) ind by (simp add: distinct_map_filter)
  ultimately show ?thesis
    using g(2) ind ready by (auto simp: loop_inv_def missing_def)
qed

lemma topological_cases:
  assumes "dag_ready stages"
  obtains (ordered) ordered where "topological stages = Inr ordered" "mset ordered = mset stages"
      "deps_before vs_stage_id vs_dependencies {} ordered"
  | (cyclic) found where "topological stages = Inl cycle_error" "found \<subset> set (stage_ids stages)"
      "\<forall>s \<in> set stages. vs_stage_id s \<in> found \<longleftrightarrow> set (vs_dependencies s) \<subseteq> found"
proof -
  obtain ind ch where g: "graph_of stages = Inr (ind, ch)"
    "\<And>d. map_of ch d = (if d \<in> set (stage_ids stages) then Some (children_of stages d) else None)"
    using graph_of_spec [OF assms] by metis
  note d = dag_readyD [OF assms]
  have by_id: "map_of (map (\<lambda>s. (vs_stage_id s, s)) stages) (vs_stage_id s) = Some s" if "s \<in> set stages" for s
    using that d(3) by (auto simp: map_of_eq_Some_iff comp_def)
  obtain ordered ind' where o: "order_loop (map (\<lambda>s. (vs_stage_id s, s)) stages) ch ind
      (sort (map fst (filter (\<lambda>kv. snd kv = 0) ind))) [] = Inr ordered" and inv: "loop_inv stages ind' [] ordered"
    using order_loop_spec [OF initial_inv [OF assms g(1)] d(3,4) by_id, of ch] g(2) by auto
  have sub: "set ordered \<subseteq> set stages" and dist: "distinct (stage_ids ordered)"
    using inv by (auto simp: loop_inv_def)
  show ?thesis
  proof (cases "length ordered = length stages")
    case True
    have do: "distinct ordered" and ds: "distinct stages" using dist d(3) by (auto simp: distinct_map)
    have "set ordered = set stages"
      using sub card_subset_eq [OF finite_set sub] distinct_card [OF do] distinct_card [OF ds] True by simp
    then have "mset ordered = mset stages" using do ds set_eq_iff_mset_eq_distinct by blast
    then show ?thesis
      using ordered True o inv topological_unfold [OF assms g(1)] by (simp add: loop_inv_def)
  next
    case False
    have "vs_stage_id ` set ordered \<noteq> set (stage_ids stages)"
    proof
      assume "vs_stage_id ` set ordered = set (stage_ids stages)"
      then have "length (stage_ids ordered) = length (stage_ids stages)"
        using distinct_card [OF dist] distinct_card [OF d(3)] by simp
      with False show False by simp
    qed
    with sub have "vs_stage_id ` set ordered \<subset> set (stage_ids stages)" by auto
    then show ?thesis
      using cyclic [of "vs_stage_id ` set ordered"] False o inv topological_unfold [OF assms g(1)]
      by (simp add: loop_inv_def)
  qed
qed

lemma deps_before_acyclic:
  assumes "deps_before vs_stage_id vs_dependencies {} ordered" "distinct (stage_ids ordered)"
  shows "acyclic (depends_on ordered)"
proof -
  let ?idx = "stage_index (stage_ids ordered)"
  have "depends_on ordered \<subseteq> measure ?idx"
  proof
    fix e assume "e \<in> depends_on ordered"
    then obtain d k where e: "e = (d, vs_stage_id (ordered ! k))" "k < length ordered" "d \<in> set (vs_dependencies (ordered ! k))"
      by (auto simp: depends_on_def in_set_conv_nth)
    then have "d \<in> set (take k (stage_ids ordered))"
      using assms(1) by (auto simp: deps_before_nth take_map)
    then have "?idx d < k"
      using stage_index_less [OF assms(2), of d k] e(2) by (auto dest: in_set_takeD)
    then show "e \<in> measure ?idx"
      using e(1,2) stage_index_nth [OF assms(2), of k] by simp
  qed
  then show ?thesis using wf_acyclic wf_subset by blast
qed

lemma depends_on_mset: "mset xs = mset ys \<Longrightarrow> depends_on xs = depends_on ys"
  unfolding depends_on_def using mset_eq_setD by metis

lemma closed_set_cyclic:
  assumes "dag_ready stages" "found \<subset> set (stage_ids stages)"
    and "\<forall>s \<in> set stages. vs_stage_id s \<in> found \<longleftrightarrow> set (vs_dependencies s) \<subseteq> found"
  shows "\<not> acyclic (depends_on stages)"
proof
  assume "acyclic (depends_on stages)"
  moreover have "finite (depends_on stages)"
  proof (rule finite_subset)
    show "depends_on stages \<subseteq> set (stage_ids stages) \<times> set (stage_ids stages)"
      using dag_readyD(5) [OF assms(1)] by (auto simp: depends_on_def)
  qed simp
  ultimately have wf: "wf (depends_on stages)" by (simp add: finite_acyclic_wf)
  have "i \<in> found" if "i \<in> set (stage_ids stages)" for i
    using wf that
  proof (induction i rule: wf_induct_rule)
    case (less i)
    then obtain s where s: "s \<in> set stages" "vs_stage_id s = i" by auto
    have "d \<in> found" if "d \<in> set (vs_dependencies s)" for d
    proof (rule less.IH)
      show "(d, i) \<in> depends_on stages" using s that by (auto simp: depends_on_def)
      show "d \<in> set (stage_ids stages)" using dag_readyD(5) [OF assms(1) s(1)] that by blast
    qed
    then show ?case using assms(3) s by blast
  qed
  then show False using assms(2) by auto
qed

lemma topological_spec:
  assumes "dag_ready stages"
  shows "if acyclic (depends_on stages)
     then \<exists>ordered. topological stages = Inr ordered \<and> mset ordered = mset stages \<and>
       deps_before vs_stage_id vs_dependencies {} ordered
     else topological stages = Inl cycle_error"
  using assms
proof (cases rule: topological_cases)
  case (ordered ordered)
  have "distinct (stage_ids ordered)"
    using ordered(2) dag_readyD(3) [OF assms] mset_eq_imp_distinct_iff [of "stage_ids ordered" "stage_ids stages"]
    by (metis mset_map)
  then have "acyclic (depends_on stages)"
    using deps_before_acyclic [OF ordered(3)] depends_on_mset [OF ordered(2)] by simp
  with ordered show ?thesis by simp
next
  case (cyclic found)
  with closed_set_cyclic [OF assms cyclic(2,3)] show ?thesis by simp
qed

text \<open>
  Claim C17. The topological sort always ends: on an acyclic graph it returns all the stages, each
  after everything it depends on; on a cyclic one it raises the cycle error, and nothing else.
\<close>

theorem topological_correct:
  assumes "dag_ready stages"
  shows "if acyclic (depends_on stages)
     then \<exists>ordered. topological stages = Inr ordered \<and> mset ordered = mset stages \<and>
       deps_before vs_stage_id vs_dependencies {} ordered
     else topological stages = Inl cycle_error"
  using assms by (rule topological_spec)

subsection \<open>The order does not depend on how the stages are listed\<close>

lemma dict_at_cong: "map_of d = map_of d' \<Longrightarrow> dict_at d = dict_at d'"
  by (simp add: dict_at_def fun_eq_iff)

lemma release_cong:
  "map_of ind = map_of ind2 \<Longrightarrow>
     rel_sum (=) (\<lambda>(a, r) (b, q). map_of a = map_of b \<and> r = q) (release cs ind ready) (release cs ind2 ready)"
proof (induction cs arbitrary: ind ind2 ready)
  case (Cons c cs)
  show ?case
  proof (cases "map_of ind2 c")
    case None
    with Cons.prems show ?thesis by (simp add: dict_at_def)
  next
    case (Some n)
    have "map_of (dict_set ind c (n - 1)) = map_of (dict_set ind2 c (n - 1))"
      using Cons.prems by (simp add: map_of_dict_set)
    from Cons.IH [OF this] Some Cons.prems show ?thesis by (simp add: dict_at_def)
  qed
qed simp

lemma sort_mset: "mset xs = mset ys \<Longrightarrow> sort xs = sort ys"
  by (rule properties_for_sort) simp_all

lemma order_loop_cong:
  assumes "map_of by_id = map_of by_id2" "map_of ind = map_of ind2"
    and "\<And>i. rel_option (\<lambda>a b. mset a = mset b) (map_of ch i) (map_of ch2 i)"
  shows "order_loop by_id ch ind ready ordered = order_loop by_id2 ch2 ind2 ready ordered"
  using assms
proof (induction by_id ch ind ready ordered arbitrary: ind2 rule: order_loop.induct)
  case (2 by_id ch ind i ready ordered)
  show ?case
  proof (cases "map_of by_id2 i")
    case None
    with 2(2) show ?thesis by (simp add: dict_at_def)
  next
    case (Some stage)
    show ?thesis
    proof (cases "map_of ch2 i")
      case None
      with 2(4) [of i] Some 2(2) show ?thesis by (simp add: dict_at_def)
    next
      case (Some cs2)
      then obtain cs where cs: "map_of ch i = Some cs" "mset cs = mset cs2"
        using 2(4) [of i] by (cases "map_of ch i") auto
      have sorted: "sort cs = sort cs2" using cs(2) by (rule sort_mset)
      show ?thesis
      proof (cases "release (sort cs2) ind2 ready")
        case (Inl e)
        then have "release (sort cs) ind ready = Inl e"
          using release_cong [OF 2(3), of "sort cs2" ready] sorted by (cases "release (sort cs2) ind ready") auto
        with Inl Some cs(1) \<open>map_of by_id2 i = Some stage\<close> 2(2) show ?thesis by (simp add: dict_at_def)
      next
        case (Inr r)
        obtain ind2' ready' where r: "r = (ind2', ready')" by (cases r)
        with Inr release_cong [OF 2(3), of "sort cs2" ready] sorted
        obtain ind' where ind': "release (sort cs) ind ready = Inr (ind', ready')" "map_of ind' = map_of ind2'"
          by (cases "release (sort cs2) ind ready") auto
        have "order_loop by_id ch ind' ready' (ordered @ [stage]) = order_loop by_id2 ch2 ind2' ready' (ordered @ [stage])"
          using 2(1) [of stage cs "(ind', ready')" ind' ready' ind2'] \<open>map_of by_id2 i = Some stage\<close> cs(1) ind' 2(2,4)
          by (simp add: dict_at_def)
        with Inr r ind'(1) Some cs(1) \<open>map_of by_id2 i = Some stage\<close> 2(2) show ?thesis by (simp add: dict_at_def)
      qed
    qed
  qed
qed simp

lemma dag_ready_mset:
  assumes "dag_ready stages" "mset stages' = mset stages"
  shows "dag_ready stages'"
proof -
  note d = dag_readyD [OF assms(1)]
  have set: "set stages' = set stages" and len: "length stages' = length stages"
    using assms(2) mset_eq_setD size_mset by metis+
  have keys: "map fst (map (\<lambda>s. (vs_stage_id s, s)) stages') = stage_ids stages'" by (simp add: comp_def)
  have "mset (stage_ids stages') = mset (stage_ids stages)" using assms(2) by (simp only: mset_map)
  then have "distinct (stage_ids stages')" using d(3) mset_eq_imp_distinct_iff by blast
  then have dict: "dict_from (map (\<lambda>s. (vs_stage_id s, s)) stages') = map (\<lambda>s. (vs_stage_id s, s)) stages'"
    by (intro dict_from_distinct) (simp only: keys)
  have known: "filter (\<lambda>e. e \<notin> fst ` set (map (\<lambda>s. (vs_stage_id s, s)) stages')) (vs_dependencies s) = []" if "s \<in> set stages'" for s
    using d(5) [of s] that set by (auto simp: filter_empty_conv image_image)
  have "dag_checks stages' = None"
    unfolding dag_checks_def dict Let_def
    using d(1,2) len known by (auto simp del: first_error_append)
  moreover have "list_all (\<lambda>s. dag_stage_check s = None) stages'"
    using assms(1) set by (simp add: dag_ready_def list_all_iff)
  ultimately show ?thesis by (simp add: dag_ready_def)
qed

lemma topological_mset:
  assumes "dag_ready stages" "mset stages' = mset stages"
  shows "topological stages' = topological stages"
proof -
  have ready': "dag_ready stages'" using dag_ready_mset [OF assms] .
  note d = dag_readyD [OF assms(1)] and d' = dag_readyD [OF ready']
  have set: "set stages' = set stages" and len: "length stages' = length stages"
    using assms(2) mset_eq_setD size_mset by metis+
  obtain ind ch where g: "graph_of stages = Inr (ind, ch)"
    "\<And>d. map_of ch d = (if d \<in> set (stage_ids stages) then Some (children_of stages d) else None)"
    "\<And>s. s \<in> set stages \<Longrightarrow> map_of ind (vs_stage_id s) = Some (int (length (vs_dependencies s)))"
    "fst ` set ind = set (stage_ids stages)" "distinct (map fst ind)"
    using graph_of_spec [OF assms(1)] by metis
  obtain ind2 ch2 where g2: "graph_of stages' = Inr (ind2, ch2)"
    "\<And>d. map_of ch2 d = (if d \<in> set (stage_ids stages') then Some (children_of stages' d) else None)"
    "\<And>s. s \<in> set stages' \<Longrightarrow> map_of ind2 (vs_stage_id s) = Some (int (length (vs_dependencies s)))"
    "fst ` set ind2 = set (stage_ids stages')" "distinct (map fst ind2)"
    using graph_of_spec [OF ready'] by metis
  have by_id: "map_of (map (\<lambda>s. (vs_stage_id s, s)) stages') = map_of (map (\<lambda>s. (vs_stage_id s, s)) stages)"
    using d(3) d'(3) set by (subst map_of_inject_set) (simp_all add: comp_def)
  have "map_of ind2 i = map_of ind i" for i
  proof (cases "i \<in> set (stage_ids stages)")
    case True
    then show ?thesis using g(3) g2(3) set by auto
  next
    case False
    then have "map_of ind i = None" "map_of ind2 i = None"
      using g(4) g2(4) set by (simp_all add: map_of_eq_None_iff)
    then show ?thesis by simp
  qed
  then have ind: "map_of ind2 = map_of ind" by blast
  then have "set ind2 = set ind" using g(5) g2(5) map_of_inject_set by blast
  then have first: "sort (map fst (filter (\<lambda>kv. snd kv = 0) ind2)) = sort (map fst (filter (\<lambda>kv. snd kv = 0) ind))"
    using g(5) g2(5) by (intro sorted_distinct_set_unique) (auto simp: distinct_map_filter)
  have "mset (children_of stages' i) = mset (children_of stages i)" for i
    using assms(2) by (simp add: children_of_def)
  then have "rel_option (\<lambda>a b. mset a = mset b) (map_of ch2 i) (map_of ch i)" for i
    using g(2) [of i] g2(2) [of i] set by simp
  then have "order_loop (map (\<lambda>s. (vs_stage_id s, s)) stages') ch2 ind2 r [] =
      order_loop (map (\<lambda>s. (vs_stage_id s, s)) stages) ch ind r []" for r
    using by_id ind by (rule order_loop_cong [rotated -1])
  then show ?thesis
    using topological_unfold [OF assms(1) g(1)] topological_unfold [OF ready' g2(1)] first len by simp
qed

text \<open>
  Claim C18. Listing the stages in another order changes nothing: the graph, its stage order and
  its content hash are the same.
\<close>

theorem dag_order_independent:
  assumes "dag_ready stages" "mset stages' = mset stages"
  shows "create_verification_dag plan_id plan_hash stages' final_stage_id =
    create_verification_dag plan_id plan_hash stages final_stage_id"
  using topological_mset [OF assms] by (simp add: create_verification_dag_def)

subsection \<open>The final stage\<close>

lemma collect_spec:
  assumes "\<And>i. i \<in> ids \<Longrightarrow> \<exists>s. map_of by_id i = Some s \<and> set (vs_dependencies s) \<subseteq> ids"
    and "set todo \<subseteq> ids" "set anc \<subseteq> ids"
    and "\<And>x s. x \<in> set anc \<Longrightarrow> map_of by_id x = Some s \<Longrightarrow> set (vs_dependencies s) \<subseteq> set anc \<union> set todo"
  shows "\<exists>anc'. collect by_id todo anc = Inr anc' \<and> set anc \<union> set todo \<subseteq> set anc' \<and> set anc' \<subseteq> ids \<and>
    (\<forall>x \<in> set anc'. \<forall>s. map_of by_id x = Some s \<longrightarrow> set (vs_dependencies s) \<subseteq> set anc') \<and>
    (\<forall>x \<in> set anc'. x \<in> set anc \<or> (\<exists>t \<in> set todo. (x, t) \<in> {(d, i). \<exists>s. map_of by_id i = Some s \<and> d \<in> set (vs_dependencies s)}\<^sup>*))"
  using assms
proof (induction by_id todo anc rule: collect.induct)
  case (2 by_id d todo anc)
  let ?R = "{(d, i). \<exists>s. map_of by_id i = Some s \<and> d \<in> set (vs_dependencies s)}"
  show ?case
  proof (cases "d \<in> set anc")
    case True
    have "\<exists>anc'. collect by_id todo anc = Inr anc' \<and> set anc \<union> set todo \<subseteq> set anc' \<and> set anc' \<subseteq> ids \<and>
      (\<forall>x \<in> set anc'. \<forall>s. map_of by_id x = Some s \<longrightarrow> set (vs_dependencies s) \<subseteq> set anc') \<and>
      (\<forall>x \<in> set anc'. x \<in> set anc \<or> (\<exists>t \<in> set todo. (x, t) \<in> ?R\<^sup>*))"
      using 2(4,5,6) True by (intro 2(1) [OF True 2(3)]) auto
    with True show ?thesis by auto
  next
    case False
    obtain s where s: "map_of by_id d = Some s" "set (vs_dependencies s) \<subseteq> ids" using 2(3,4) by fastforce
    have "\<exists>anc'. collect by_id (vs_dependencies s @ todo) (d # anc) = Inr anc' \<and>
      set (d # anc) \<union> set (vs_dependencies s @ todo) \<subseteq> set anc' \<and> set anc' \<subseteq> ids \<and>
      (\<forall>x \<in> set anc'. \<forall>s. map_of by_id x = Some s \<longrightarrow> set (vs_dependencies s) \<subseteq> set anc') \<and>
      (\<forall>x \<in> set anc'. x \<in> set (d # anc) \<or> (\<exists>t \<in> set (vs_dependencies s @ todo). (x, t) \<in> ?R\<^sup>*))"
    proof (rule 2(2) [OF False s(1) 2(3)])
      show "set (vs_dependencies s @ todo) \<subseteq> ids" "set (d # anc) \<subseteq> ids" using 2(4,5) s(2) by auto
      show "set (vs_dependencies u) \<subseteq> set (d # anc) \<union> set (vs_dependencies s @ todo)"
        if "x \<in> set (d # anc)" "map_of by_id x = Some u" for x u
        using that s(1) 2(6) [of x u] by auto
    qed
    then obtain anc' where anc': "collect by_id (vs_dependencies s @ todo) (d # anc) = Inr anc'"
      "set (d # anc) \<union> set (vs_dependencies s @ todo) \<subseteq> set anc'" "set anc' \<subseteq> ids"
      "\<forall>x \<in> set anc'. \<forall>s. map_of by_id x = Some s \<longrightarrow> set (vs_dependencies s) \<subseteq> set anc'"
      "\<forall>x \<in> set anc'. x \<in> set (d # anc) \<or> (\<exists>t \<in> set (vs_dependencies s @ todo). (x, t) \<in> ?R\<^sup>*)" by blast
    have "x \<in> set anc \<or> (\<exists>t \<in> set (d # todo). (x, t) \<in> ?R\<^sup>*)" if "x \<in> set anc'" for x
    proof -
      have "(x, d) \<in> ?R\<^sup>*" if "t \<in> set (vs_dependencies s)" "(x, t) \<in> ?R\<^sup>*" for t
        using that s(1) by (auto intro: rtrancl_into_rtrancl)
      then show ?thesis using anc'(5) that by auto
    qed
    with anc' False s(1) show ?thesis by auto
  qed
qed auto

lemma stage_lookup:
  "distinct (stage_ids ordered) \<Longrightarrow>
     map_of (map (\<lambda>s. (vs_stage_id s, s)) ordered) i = Some s \<longleftrightarrow> s \<in> set ordered \<and> vs_stage_id s = i"
  by (subst map_of_eq_Some_iff) (auto simp: comp_def)

lemma collect_ancestors:
  assumes "distinct (stage_ids ordered)" "\<And>s. s \<in> set ordered \<Longrightarrow> set (vs_dependencies s) \<subseteq> set (stage_ids ordered)"
    and "final \<in> set ordered"
  shows "\<exists>anc. collect (map (\<lambda>s. (vs_stage_id s, s)) ordered) (vs_dependencies final) [] = Inr anc \<and>
    (\<forall>i. i \<in> set anc \<longleftrightarrow> (i, vs_stage_id final) \<in> (depends_on ordered)\<^sup>+)"
proof -
  let ?by_id = "map (\<lambda>s. (vs_stage_id s, s)) ordered"
  have R: "{(d, i). \<exists>s. map_of ?by_id i = Some s \<and> d \<in> set (vs_dependencies s)} = depends_on ordered"
    by (auto simp: stage_lookup [OF assms(1)] depends_on_def)
  have known: "\<exists>s. map_of ?by_id i = Some s \<and> set (vs_dependencies s) \<subseteq> set (stage_ids ordered)"
    if "i \<in> set (stage_ids ordered)" for i
    using that assms(2) by (auto simp: stage_lookup [OF assms(1)])
  obtain anc where anc: "collect ?by_id (vs_dependencies final) [] = Inr anc" "set (vs_dependencies final) \<subseteq> set anc"
    "\<forall>x \<in> set anc. \<forall>s. map_of ?by_id x = Some s \<longrightarrow> set (vs_dependencies s) \<subseteq> set anc"
    "\<forall>x \<in> set anc. \<exists>t \<in> set (vs_dependencies final). (x, t) \<in> (depends_on ordered)\<^sup>*"
    using collect_spec [where ids = "set (stage_ids ordered)" and by_id = ?by_id and todo = "vs_dependencies final" and anc = "[]",
        OF known assms(2) [OF assms(3)]] unfolding R by auto
  have "(i, vs_stage_id final) \<in> (depends_on ordered)\<^sup>+" if i: "i \<in> set anc" for i
  proof -
    obtain t where "t \<in> set (vs_dependencies final)" "(i, t) \<in> (depends_on ordered)\<^sup>*" using bspec [OF anc(4) i] by blast
    then have "(i, t) \<in> (depends_on ordered)\<^sup>*" "(t, vs_stage_id final) \<in> depends_on ordered"
      using assms(3) by (auto simp: depends_on_def)
    then show ?thesis by (rule rtrancl_into_trancl1)
  qed
  moreover have "i \<in> set anc" if "(i, vs_stage_id final) \<in> (depends_on ordered)\<^sup>+" for i
    using that
  proof (induction rule: converse_trancl_induct)
    case (base y)
    then obtain s where "s \<in> set ordered" "vs_stage_id s = vs_stage_id final" "y \<in> set (vs_dependencies s)"
      by (auto simp: depends_on_def)
    then have "s = final" using assms(1,3) by (meson distinct_map inj_onD)
    then show ?case using \<open>y \<in> set (vs_dependencies s)\<close> anc(2) by auto
  next
    case (step y z)
    then obtain s where "map_of ?by_id z = Some s" "y \<in> set (vs_dependencies s)"
      by (auto simp: depends_on_def stage_lookup [OF assms(1)])
    then show ?case using anc(3) step.IH by blast
  qed
  ultimately show ?thesis using anc(1) by blast
qed

text \<open>
  What the branch check decides: every other stage is an ancestor of the final one, or the last
  stage of the order is not the final one and all the others are its direct dependencies.
\<close>

lemma branches_check_None:
  assumes "distinct (stage_ids ordered)" "\<And>s. s \<in> set ordered \<Longrightarrow> set (vs_dependencies s) \<subseteq> set (stage_ids ordered)"
    and "final \<in> set ordered"
  shows "branches_check ordered final = None \<longleftrightarrow>
    (\<forall>s \<in> set ordered. s \<noteq> final \<longrightarrow> (vs_stage_id s, vs_stage_id final) \<in> (depends_on ordered)\<^sup>+) \<or>
    (last ordered \<noteq> final \<and> (\<forall>s \<in> set (butlast ordered). s \<noteq> final \<longrightarrow> vs_stage_id s \<in> set (vs_dependencies final)))"
proof (cases "\<exists>s \<in> set (butlast ordered). vs_stage_id s \<notin> set (vs_dependencies final) \<and> s \<noteq> final")
  case True
  obtain anc where anc: "collect (map (\<lambda>s. (vs_stage_id s, s)) ordered) (vs_dependencies final) [] = Inr anc"
    "\<And>i. i \<in> set anc \<longleftrightarrow> (i, vs_stage_id final) \<in> (depends_on ordered)\<^sup>+"
    using collect_ancestors [OF assms] by blast
  from True show ?thesis by (auto simp: branches_check_def anc)
next
  case False
  have "ordered = butlast ordered @ [last ordered]" using assms(3) by (cases ordered) auto
  then have "set ordered = insert (last ordered) (set (butlast ordered))"
    by (metis Un_insert_right list.simps(15) set_append sup_bot.right_neutral empty_set)
  moreover have "(vs_stage_id s, vs_stage_id final) \<in> (depends_on ordered)\<^sup>+"
    if "vs_stage_id s \<in> set (vs_dependencies final)" for s
    using that assms(3) by (auto simp: depends_on_def)
  ultimately show ?thesis using False by (auto simp: branches_check_def)
qed

lemma create_dagE:
  assumes "create_verification_dag plan_id plan_hash stages final_stage_id = Inr dag" "dag_ready stages"
  obtains ordered final where "topological stages = Inr ordered" "dg_stages dag = ordered" "mset ordered = mset stages"
    "deps_before vs_stage_id vs_dependencies {} ordered" "distinct (stage_ids ordered)"
    "final \<in> set ordered" "vs_stage_id final = final_stage_id" "vs_final final"
    "filter vs_final ordered = [final]" "branches_check ordered final = None" "dg_final_stage_id dag = final_stage_id"
proof -
  obtain ordered final where o: "topological stages = Inr ordered" "dg_stages dag = ordered"
    "map_of (map (\<lambda>s. (vs_stage_id s, s)) ordered) final_stage_id = Some final" "vs_final final"
    "map vs_stage_id (filter vs_final ordered) = [final_stage_id]" "branches_check ordered final = None"
    "dg_final_stage_id dag = final_stage_id"
    using assms(1) by (auto simp: create_verification_dag_def bind_result_Inr_iff Let_def split: if_splits option.splits)
  have m: "mset ordered = mset stages" "deps_before vs_stage_id vs_dependencies {} ordered"
    using assms(2) by (cases rule: topological_cases, use o(1) in auto)+
  have d: "distinct (stage_ids ordered)"
    using m(1) dag_readyD(3) [OF assms(2)] mset_eq_imp_distinct_iff [of "stage_ids ordered" "stage_ids stages"]
    by (metis mset_map)
  have f: "final \<in> set ordered" "vs_stage_id final = final_stage_id" using o(3) by (auto simp: stage_lookup [OF d])
  obtain x where x: "filter vs_final ordered = [x]" "vs_stage_id x = final_stage_id"
    using o(5) by (auto simp: map_eq_Cons_conv)
  have "final \<in> set (filter vs_final ordered)" using f(1) o(4) by simp
  then have "filter vs_final ordered = [final]" using x by simp
  then show ?thesis using that o m d f by blast
qed

text \<open>
  Claim C19. An accepted graph holds exactly the given stages, in an order where each comes after
  its dependencies, with the named stage as the only final one; and when the final stage is the
  last of the order, every other stage is one of its direct or indirect dependencies.
\<close>

theorem dag_final_stage_covers:
  assumes "create_verification_dag plan_id plan_hash stages final_stage_id = Inr dag" "dag_ready stages"
  shows "mset (dg_stages dag) = mset stages \<and> deps_before vs_stage_id vs_dependencies {} (dg_stages dag) \<and>
    map vs_stage_id (filter vs_final (dg_stages dag)) = [final_stage_id] \<and>
    (vs_stage_id (last (dg_stages dag)) = final_stage_id \<longrightarrow>
      (\<forall>s \<in> set stages. vs_stage_id s \<noteq> final_stage_id \<longrightarrow> (vs_stage_id s, final_stage_id) \<in> (depends_on stages)\<^sup>+))"
  using assms
proof (cases rule: create_dagE)
  case (1 ordered final)
  have set: "set ordered = set stages" using 1(3) by (rule mset_eq_setD)
  have known: "set (vs_dependencies s) \<subseteq> set (stage_ids ordered)" if "s \<in> set ordered" for s
    using dag_readyD(5) [OF assms(2)] that set by auto
  have "(vs_stage_id s, final_stage_id) \<in> (depends_on stages)\<^sup>+"
    if "vs_stage_id (last ordered) = final_stage_id" "s \<in> set stages" "vs_stage_id s \<noteq> final_stage_id" for s
  proof -
    have "last ordered \<in> set ordered" using 1(6) by (cases ordered) auto
    then have "last ordered = final" using 1(5,6,7) that(1) by (meson distinct_map inj_onD)
    then show ?thesis
      using branches_check_None [OF 1(5) known 1(6)] 1(7,10) that(2,3) set depends_on_mset [OF 1(3)] by auto
  qed
  then show ?thesis using 1 by simp
qed

subsection \<open>Compiled plans\<close>

lemma dag_stage_ofE:
  assumes "dag_stage_of s = Inr d"
  shows "vs_stage_id d = ps_stage_id s" "vs_dependencies d = ps_dependencies s" "dag_stage_check d = None"
    "vs_final d \<longleftrightarrow> ps_boundary s = FINAL"
  using assms by (auto simp: dag_stage_of_def make_dag_stage_def)

lemma dag_stages_of:
  assumes "map_result dag_stage_of ss = Inr ds"
  shows "map vs_stage_id ds = map ps_stage_id ss" "map vs_dependencies ds = map ps_dependencies ss"
    "list_all (\<lambda>d. dag_stage_check d = None) ds" "length ds = length ss"
    "deps_before vs_stage_id vs_dependencies seen ds = deps_before ps_stage_id ps_dependencies seen ss"
  using assms
proof (induction ss arbitrary: ds seen)
  case (Cons s ss)
  { case 1 then show ?case using Cons dag_stage_ofE by (auto split: sum.splits) }
  { case 2 then show ?case using Cons dag_stage_ofE by (auto split: sum.splits) }
  { case 3 then show ?case using Cons dag_stage_ofE by (auto split: sum.splits) }
  { case 4 then show ?case using Cons by (auto split: sum.splits) }
  { case 5 then show ?case using Cons dag_stage_ofE by (fastforce split: sum.splits) }
qed simp_all

lemma deps_before_known:
  "deps_before key deps seen ss \<Longrightarrow> s \<in> set ss \<Longrightarrow> set (deps s) \<subseteq> seen \<union> key ` set ss"
  by (induction ss arbitrary: seen) auto

lemma ordered_dag_ready:
  assumes "deps_before vs_stage_id vs_dependencies {} ds" "distinct (stage_ids ds)" "ds \<noteq> []" "length ds \<le> 128"
    and "list_all (\<lambda>d. dag_stage_check d = None) ds"
  shows "dag_ready ds"
proof -
  have dict: "dict_from (map (\<lambda>s. (vs_stage_id s, s)) ds) = map (\<lambda>s. (vs_stage_id s, s)) ds"
    using assms(2) by (intro dict_from_distinct) (simp add: comp_def)
  have known: "filter (\<lambda>e. e \<notin> fst ` set (map (\<lambda>s. (vs_stage_id s, s)) ds)) (vs_dependencies s) = []" if "s \<in> set ds" for s
    using deps_before_known [OF assms(1) that] by (auto simp: filter_empty_conv image_image)
  have "dag_checks ds = None"
    unfolding dag_checks_def dict Let_def using assms(3,4) known by (auto simp del: first_error_append)
  with assms(5) show ?thesis by (simp add: dag_ready_def)
qed

lemma valid_plan_graph:
  assumes "validate_execution_plan p = Inr q"
  shows "well_ordered_plan (pl_ordered_stages p) (pl_final_profile p)"
proof -
  have "validate_graph (pl_ordered_stages p) (pl_final_profile p) = None"
    using assms
    by (auto simp: validate_execution_plan_def recreate_plan_def create_execution_plan_def bind_result_Inr_iff
        split: if_splits)
  then show ?thesis by (simp add: graph_check_iff)
qed

lemma compiled_stages_ready:
  assumes "validate_execution_plan p = Inr q" "map_result dag_stage_of (pl_ordered_stages p) = Inr ds"
  shows "dag_ready ds" "acyclic (depends_on ds)"
proof -
  note w = valid_plan_graph [OF assms(1)] and d = dag_stages_of [OF assms(2)]
  have before: "deps_before vs_stage_id vs_dependencies {} ds" using w d(5) by (simp add: well_ordered_plan_def)
  have ids: "distinct (stage_ids ds)" using w d(1) by (simp add: well_ordered_plan_def)
  have "ds \<noteq> []" "length ds \<le> 128" using w d(4) by (auto simp: well_ordered_plan_def)
  with before ids show "dag_ready ds" using d(3) by (rule ordered_dag_ready)
  show "acyclic (depends_on ds)" using before ids by (rule deps_before_acyclic)
qed

lemma dag_errors_differ [simp]:
  "state_invalid ''Verification DAG plan identity is invalid'' \<noteq> cycle_error"
  "state_invalid ''Verification DAG final stage is missing'' \<noteq> cycle_error"
  "state_invalid ''Verification DAG requires exactly one declared final stage'' \<noteq> cycle_error"
  "state_invalid branch_message \<noteq> cycle_error"
  by (simp_all add: cycle_error_def branch_message_def)

lemma branches_check_errors: "branches_check ordered final = Some e \<Longrightarrow> e \<noteq> cycle_error"
proof -
  have "collect by_id todo anc = Inl e \<Longrightarrow> e \<noteq> cycle_error" for by_id todo anc
    by (induction by_id todo anc rule: collect.induct) (auto simp: cycle_error_def split: if_splits option.splits)
  then show "branches_check ordered final = Some e \<Longrightarrow> e \<noteq> cycle_error"
    by (auto simp: branches_check_def bind_result_Inl_iff split: if_splits)
qed

lemma create_not_cyclic:
  assumes "topological ds = Inr ordered"
  shows "create_verification_dag plan_id plan_hash ds fid \<noteq> Inl cycle_error"
proof
  assume "create_verification_dag plan_id plan_hash ds fid = Inl cycle_error"
  moreover have "Some cycle_error \<noteq> branches_check os final" for os final
    using branches_check_errors [of os final cycle_error] by auto
  ultimately show False
    using assms dag_errors_differ [symmetric]
    by (auto simp: create_verification_dag_def bind_result_Inl_iff Let_def raise_if_def dest!: first_error_Some_in
        split: if_splits option.splits)
qed

lemma dag_stage_of_error: "dag_stage_of s = Inl e \<Longrightarrow> e \<noteq> cycle_error"
  by (auto simp: dag_stage_of_def make_dag_stage_def dag_stage_check_def cycle_error_def raise_if_def
      dest!: first_error_Some_in split: if_splits)

lemma dag_stages_error: "map_result dag_stage_of ss = Inl e \<Longrightarrow> e \<noteq> cycle_error"
  by (induction ss) (auto dest: dag_stage_of_error split: sum.splits)

text \<open>
  Compiling a valid plan never finds a cycle, and the graph it returns holds the stages of the
  plan, each once, after everything they depend on.
\<close>

theorem compiled_plan_ordered:
  assumes "validate_execution_plan p = Inr p"
  shows "compile_plan_dag p \<noteq> Inl cycle_error \<and>
    (\<forall>dag. compile_plan_dag p = Inr dag \<longrightarrow>
       mset (map vs_stage_id (dg_stages dag)) = mset (map ps_stage_id (pl_ordered_stages p)) \<and>
       deps_before vs_stage_id vs_dependencies {} (dg_stages dag))"
proof (cases "map_result dag_stage_of (pl_ordered_stages p)")
  case (Inl e)
  with assms dag_stages_error show ?thesis by (auto simp: compile_plan_dag_def)
next
  case (Inr ds)
  note ready = compiled_stages_ready [OF assms Inr]
  obtain ordered where o: "topological ds = Inr ordered" "mset ordered = mset ds"
    "deps_before vs_stage_id vs_dependencies {} ordered"
    using topological_spec [OF ready(1)] ready(2) by auto
  have ids: "mset (map vs_stage_id ordered) = mset (map ps_stage_id (pl_ordered_stages p))"
    using o(2) dag_stages_of(1) [OF Inr] by (metis mset_map)
  have stages: "dg_stages dag = ordered" if "create_verification_dag i h ds f = Inr dag" for i h f dag
    using that o(1) by (auto simp: create_verification_dag_def bind_result_Inr_iff Let_def split: if_splits option.splits)
  show ?thesis
    using assms Inr create_not_cyclic [OF o(1)] stages ids o(3)
    by (auto simp: compile_plan_dag_def cycle_error_def split: list.splits)
qed

subsection \<open>A final stage that runs first\<close>

definition independent_stages :: "PlanStage list" where
  "independent_stages = [example_stage ''lint'' [] ITERATION, example_stage ''full'' [] FINAL]"

definition independent_plan :: "ExecutionPlan result" where
  "independent_plan = create_execution_plan None ''ws-1'' example_binding independent_stages ''full'' (clock 0) None"

lemma independent_plan_created:
  "\<exists>p. independent_plan = Inr p \<and> validate_execution_plan p = Inr p \<and> pl_ordered_stages p = independent_stages \<and>
     fullmatch PLAN_ID (pl_plan_id p) \<and> fullmatch SHA64 (pl_plan_hash p)"
proof -
  have "validate_graph independent_stages ''full'' = None" unfolding graph_check_iff by code_simp
  moreover have "expiry_check (clock 0) None = None" by (simp add: expiry_check_def plan_iso_def)
  ultimately obtain p where p: "independent_plan = Inr p"
      "fullmatch PLAN_ID (pl_plan_id p)" "fullmatch SHA64 (pl_plan_hash p)"
    using example_profile_valid PLAN_ID_digest by (simp add: independent_plan_def create_execution_plan_def Let_def)
  then show ?thesis using created_plan_valid(1,3) [OF p(1) [unfolded independent_plan_def]] by blast
qed

lemma independent_stages_compiled:
  "case map_result dag_stage_of independent_stages of
     Inr [b, a] \<Rightarrow> topological [b, a] = Inr [a, b] \<and> vs_stage_id a = ''full'' \<and> vs_stage_id b = ''lint'' \<and>
       vs_final a \<and> \<not> vs_final b \<and> vs_dependencies a = []
   | _ \<Rightarrow> False"
  by code_simp

text \<open>
  Claim C24. The check that the final stage depends on every other one has a gap: a valid plan whose
  final stage names no dependency compiles to a graph in which the final stage comes first, before
  a stage it does not depend on. The last stage of the order is never looked at when the others are
  direct dependencies of the final stage or the final stage itself.
\<close>

theorem final_stage_can_run_first:
  "\<exists>p dag. independent_plan = Inr p \<and> compile_plan_dag p = Inr dag \<and>
     map vs_stage_id (dg_stages dag) = [''full'', ''lint''] \<and> dg_final_stage_id dag = ''full''"
proof -
  obtain p where p: "independent_plan = Inr p" "validate_execution_plan p = Inr p"
    "pl_ordered_stages p = independent_stages" "fullmatch PLAN_ID (pl_plan_id p)" "fullmatch SHA64 (pl_plan_hash p)"
    using independent_plan_created by blast
  obtain a b where ab: "map_result dag_stage_of independent_stages = Inr [b, a]" "topological [b, a] = Inr [a, b]"
    "vs_stage_id a = ''full''" "vs_stage_id b = ''lint''" "vs_final a" "\<not> vs_final b" "vs_dependencies a = []"
    using independent_stages_compiled by (auto split: sum.splits list.splits)
  have final: "filter (\<lambda>s. ps_boundary s = FINAL) independent_stages = [example_stage ''full'' [] FINAL]"
    by (simp add: independent_stages_def example_stage_def)
  have "\<exists>dag. compile_plan_dag p = Inr dag \<and> dg_stages dag = [a, b] \<and> dg_final_stage_id dag = ''full''"
    using p(2-5) ab final
    by (simp add: compile_plan_dag_def create_verification_dag_def Let_def branches_check_def example_stage_def)
  then show ?thesis using p(1) ab(3,4) by auto
qed

subsection \<open>Witnesses\<close>

definition example_dag_stages :: "VerificationDagStage list" where
  "example_dag_stages = (case map_result dag_stage_of example_plan_stages of Inr ds \<Rightarrow> ds | _ \<Rightarrow> [])"

lemma example_dag_ready: "dag_ready example_dag_stages"
proof -
  have "\<not> isl (map_result dag_stage_of example_plan_stages)" by code_simp
  then have ds: "map_result dag_stage_of example_plan_stages = Inr example_dag_stages"
    by (auto simp: example_dag_stages_def isl_def split: sum.splits)
  have "well_ordered_plan example_plan_stages ''full''" using example_graph_valid by (simp add: graph_check_iff)
  then have "distinct (map vs_stage_id example_dag_stages)" "deps_before vs_stage_id vs_dependencies {} example_dag_stages"
      "example_dag_stages \<noteq> []" "length example_dag_stages \<le> 128"
    using dag_stages_of(1,4,5) [OF ds] by (auto simp: well_ordered_plan_def)
  then show ?thesis using dag_stages_of(3) [OF ds] by (intro ordered_dag_ready)
qed

lemma example_dag_created:
  "\<exists>dag. create_verification_dag (''plan-'' @ take 24 (content_digest VNone)) (content_digest VNone) example_dag_stages ''test'' = Inr dag"
proof -
  have "case topological example_dag_stages of Inr [a, b] \<Rightarrow> vs_stage_id a = ''lint'' \<and> vs_stage_id b = ''test'' \<and>
      \<not> vs_final a \<and> vs_final b \<and> branches_check [a, b] b = None | _ \<Rightarrow> False" by code_simp
  then obtain a b where "topological example_dag_stages = Inr [a, b]" "vs_stage_id a = ''lint''" "vs_stage_id b = ''test''"
      "\<not> vs_final a" "vs_final b" "branches_check [a, b] b = None"
    by (auto split: sum.splits list.splits)
  then show ?thesis using PLAN_ID_digest by (simp add: create_verification_dag_def Let_def)
qed

theorem topological_correct_witness:
  "\<exists>ordered. topological example_dag_stages = Inr ordered \<and> mset ordered = mset example_dag_stages"
proof -
  have "deps_before vs_stage_id vs_dependencies {} example_dag_stages" by code_simp
  then have "acyclic (depends_on example_dag_stages)"
    using deps_before_acyclic dag_readyD(3) [OF example_dag_ready] by blast
  then show ?thesis using topological_correct [OF example_dag_ready] by auto
qed

theorem dag_order_independent_witness:
  "create_verification_dag ''plan-1'' (content_digest VNone) (rev example_dag_stages) ''test'' =
   create_verification_dag ''plan-1'' (content_digest VNone) example_dag_stages ''test''"
  by (rule dag_order_independent [OF example_dag_ready]) simp

theorem dag_final_stage_covers_witness:
  "\<exists>dag. create_verification_dag (''plan-'' @ take 24 (content_digest VNone)) (content_digest VNone) example_dag_stages ''test'' = Inr dag \<and>
     mset (dg_stages dag) = mset example_dag_stages"
proof -
  obtain dag where "create_verification_dag (''plan-'' @ take 24 (content_digest VNone)) (content_digest VNone)
      example_dag_stages ''test'' = Inr dag" using example_dag_created by blast
  with dag_final_stage_covers [OF this example_dag_ready] show ?thesis by blast
qed

theorem compiled_plan_ordered_witness:
  "\<exists>p. independent_plan = Inr p \<and> compile_plan_dag p \<noteq> Inl cycle_error"
  using independent_plan_created compiled_plan_ordered by blast

end
