(* ===== verification/Effect_Receipt.thy ===== *)
theory Effect_Receipt
  imports Execution_Receipt
begin

text \<open>
  The effect receipts of domain/execution\_receipt.py: what is durably known about one external
  effect, from its acceptance to its validated, failed, rolled back or unknown outcome.
\<close>

section \<open>Data\<close>

datatype EffectReceiptState =
    ACCEPTED | APPLYING | APPLIED_UNVALIDATED | APPLIED_VALIDATED | ROLLED_BACK
  | FAILED_BEFORE_EFFECT | FAILED_AFTER_EFFECT | UNKNOWN

fun effect_state_value :: "EffectReceiptState \<Rightarrow> string" where
  "effect_state_value ACCEPTED = ''accepted''"
| "effect_state_value APPLYING = ''applying''"
| "effect_state_value APPLIED_UNVALIDATED = ''applied_unvalidated''"
| "effect_state_value APPLIED_VALIDATED = ''applied_validated''"
| "effect_state_value ROLLED_BACK = ''rolled_back''"
| "effect_state_value FAILED_BEFORE_EFFECT = ''failed_before_effect''"
| "effect_state_value FAILED_AFTER_EFFECT = ''failed_after_effect''"
| "effect_state_value UNKNOWN = ''unknown''"

definition EFFECT_STATES :: "EffectReceiptState list" where
  "EFFECT_STATES = [ACCEPTED, APPLYING, APPLIED_UNVALIDATED, APPLIED_VALIDATED, ROLLED_BACK,
     FAILED_BEFORE_EFFECT, FAILED_AFTER_EFFECT, UNKNOWN]"

fun effect_transitions :: "EffectReceiptState \<Rightarrow> EffectReceiptState list" where
  "effect_transitions ACCEPTED = [APPLYING, FAILED_BEFORE_EFFECT, UNKNOWN]"
| "effect_transitions APPLYING = [APPLIED_UNVALIDATED, ROLLED_BACK, FAILED_BEFORE_EFFECT, FAILED_AFTER_EFFECT, UNKNOWN]"
| "effect_transitions APPLIED_UNVALIDATED = [APPLIED_VALIDATED, FAILED_AFTER_EFFECT, ROLLED_BACK, UNKNOWN]"
| "effect_transitions UNKNOWN = [APPLIED_VALIDATED]"
| "effect_transitions _ = []"

type_synonym EffectIdentity = "(string \<times> string) list"

definition EFFECT_RECEIPT_SCHEMA_VERSION :: int where
  "EFFECT_RECEIPT_SCHEMA_VERSION = 1"

record EffectReceipt =
  er_receipt_id :: string
  er_operation_id :: string
  er_action :: string
  er_idempotency_key_hash :: "string option"
  er_request_fingerprint :: string
  er_state :: EffectReceiptState
  er_accepted_at :: string
  er_updated_at :: string
  er_correlation_id :: string
  er_pre_identity :: EffectIdentity
  er_post_identity :: EffectIdentity
  er_effect_boundary_crossed :: bool
  er_result_reference :: "string option"
  er_error_code :: "string option"
  er_error_message :: "string option"
  er_schema_version :: int

section \<open>Validation\<close>

definition effect_optional :: "string option \<Rightarrow> string \<Rightarrow> nat \<Rightarrow> exn option" where
  "effect_optional v field limit =
     (case v of None \<Rightarrow> None
      | Some s \<Rightarrow> raise_if (s = [] \<or> limit < length s \<or> (\<exists>c \<in> set s. ord_c c < 32 \<and> c \<notin> {CHR 0x0A, CHR 0x09}))
          (state_invalid (''Effect receipt '' @ field @ '' is invalid'')))"

text \<open>One pass of the loop of \<open>normalize_effect_identity\<close>.\<close>

definition identity_entry :: "string \<times> pyval \<Rightarrow> (string \<times> string) result" where
  "identity_entry kv =
     (case kv of (key, raw) \<Rightarrow>
      if \<not> fullmatch SAFE_ID key then Inl (state_invalid ''Effect identity key is invalid'')
      else case (case raw of VBool b \<Rightarrow> Some (py_lower (py_str raw)) | VStr s \<Rightarrow> Some s | VInt i \<Rightarrow> Some (str_of_int i) | _ \<Rightarrow> None) of
          None \<Rightarrow> Inl (state_invalid ''Effect identity value must be a scalar'')
        | Some rendered \<Rightarrow>
            if rendered = [] \<or> 512 < length rendered \<or> has_control rendered
            then Inl (state_invalid ''Effect identity value is invalid'')
            else Inr (key, rendered))"

definition normalize_effect_identity :: "pydict option \<Rightarrow> EffectIdentity result" where
  "normalize_effect_identity value =
     (case value of None \<Rightarrow> Inr []
      | Some d \<Rightarrow> if 20 < length d then Inl (state_invalid ''Effect identity exceeds the 20-field limit'')
                  else map_result identity_entry (sort_key fst d))"

definition identity_dict :: "EffectIdentity \<Rightarrow> pydict" where
  "identity_dict v = map (\<lambda>(k, s). (k, VStr s)) (dict_from v)"

definition validate_effect_identity :: "EffectIdentity \<Rightarrow> string \<Rightarrow> exn option" where
  "validate_effect_identity value field =
     (let canonical = state_invalid (''Effect receipt '' @ field @ '' is not canonical'') in
      if length (dict_from value) \<noteq> length value then Some canonical
      else case normalize_effect_identity (Some (identity_dict value)) of
          Inl e \<Rightarrow> Some e
        | Inr n \<Rightarrow> raise_if (value \<noteq> n) canonical)"

definition effect_times_check :: "EffectReceipt \<Rightarrow> exn option" where
  "effect_times_check r =
     raised (bind_result (receipt_timestamp ''Effect receipt'' (er_accepted_at r) ''accepted_at'') (\<lambda>accepted.
       bind_result (receipt_timestamp ''Effect receipt'' (er_updated_at r) ''updated_at'') (\<lambda>updated.
         if instant updated < instant accepted
         then Inl (state_invalid ''Effect receipt updated_at precedes accepted_at'') else Inr ())))"

definition effect_evidence_checks :: "EffectReceipt \<Rightarrow> exn option list" where
  "effect_evidence_checks r =
     (let s = er_state r; result = er_result_reference r; code = er_error_code r; msg = er_error_message r;
          crossed = er_effect_boundary_crossed r
      in [raise_if (s \<in> {ACCEPTED, APPLYING} \<and> (result \<noteq> None \<or> code \<noteq> None \<or> msg \<noteq> None))
            (state_invalid ''Non-terminal effect receipt cannot contain terminal evidence''),
          raise_if (s \<in> {APPLIED_UNVALIDATED, APPLIED_VALIDATED} \<and> (result = None \<or> code \<noteq> None))
            (state_invalid ''Applied effect receipt requires a result reference and no error''),
          raise_if (s = FAILED_BEFORE_EFFECT \<and> (result \<noteq> None \<or> code = None \<or> crossed))
            (state_invalid ''Failed-before-effect receipt requires error evidence without a result''),
          raise_if (s = FAILED_AFTER_EFFECT \<and> (result = None \<or> code = None \<or> \<not> crossed))
            (state_invalid ''Failed-after-effect receipt requires result and error evidence''),
          raise_if (s = ROLLED_BACK \<and> (code = None \<or> \<not> crossed))
            (state_invalid ''Rolled-back effect receipt requires boundary and compensation evidence''),
          raise_if (s = UNKNOWN \<and> code = None)
            (state_invalid ''Unknown effect receipt requires typed error evidence'')])"

definition effect_check :: "EffectReceipt \<Rightarrow> exn option" where
  "effect_check r = first_error
     ([raise_if (er_schema_version r \<noteq> EFFECT_RECEIPT_SCHEMA_VERSION)
         (state_invalid ''Effect receipt schema version is unsupported''),
       raise_if (\<not> fullmatch RECEIPT_ID (er_receipt_id r)) (state_invalid ''Effect receipt id is invalid''),
       raise_if (\<not> fullmatch OPERATION_ID (er_operation_id r)) (state_invalid ''Effect receipt operation id is invalid''),
       raise_if (\<not> fullmatch SAFE_ID (er_action r)) (state_invalid ''Effect receipt action is invalid''),
       raise_if (case er_idempotency_key_hash r of None \<Rightarrow> False | Some h \<Rightarrow> \<not> fullmatch SHA64 h)
         (state_invalid ''Effect receipt idempotency key hash is invalid''),
       raise_if (\<not> fullmatch SHA64 (er_request_fingerprint r))
         (state_invalid ''Effect receipt request fingerprint is invalid''),
       raise_if (\<not> fullmatch SAFE_ID (er_correlation_id r)) (state_invalid ''Effect receipt correlation id is invalid''),
       validate_effect_identity (er_pre_identity r) ''pre_identity'',
       validate_effect_identity (er_post_identity r) ''post_identity'',
       effect_times_check r,
       effect_optional (er_result_reference r) ''result_reference'' 256,
       effect_optional (er_error_code r) ''error_code'' 128,
       effect_optional (er_error_message r) ''error_message'' 2000] @
      effect_evidence_checks r)"

definition validate_effect_receipt :: "EffectReceipt \<Rightarrow> EffectReceipt result" where
  "validate_effect_receipt r = checked (effect_check r) r"

section \<open>Operations\<close>

definition create_effect_receipt ::
  "string \<Rightarrow> string \<Rightarrow> string \<Rightarrow> string option \<Rightarrow> string \<Rightarrow> string \<Rightarrow> string \<Rightarrow> pydict option \<Rightarrow> EffectReceipt result" where
  "create_effect_receipt rid operation_id action key_hash fingerprint accepted_at correlation_id pre =
     bind_result (normalize_effect_identity pre) (\<lambda>identity.
       validate_effect_receipt
         \<lparr>er_receipt_id = rid, er_operation_id = operation_id, er_action = action, er_idempotency_key_hash = key_hash,
          er_request_fingerprint = fingerprint, er_state = ACCEPTED, er_accepted_at = accepted_at,
          er_updated_at = accepted_at, er_correlation_id = correlation_id, er_pre_identity = identity,
          er_post_identity = [], er_effect_boundary_crossed = False, er_result_reference = None,
          er_error_code = None, er_error_message = None, er_schema_version = EFFECT_RECEIPT_SCHEMA_VERSION\<rparr>)"

text \<open>The keyword arguments of \<open>transition_effect_receipt\<close>.\<close>

record effect_args =
  ea_result_reference :: "string option"
  ea_error_code :: "string option"
  ea_error_message :: "string option"
  ea_effect_boundary_crossed :: "bool option"
  ea_post_identity :: "pydict option"

definition transition_effect_receipt ::
  "EffectReceipt \<Rightarrow> EffectReceiptState \<Rightarrow> string \<Rightarrow> effect_args \<Rightarrow> EffectReceipt result" where
  "transition_effect_receipt r new_state now a =
     bind_result (validate_effect_receipt r) (\<lambda>_.
       if new_state = er_state r then Inr r
       else if new_state \<notin> set (effect_transitions (er_state r))
       then Inl (state_invalid (''Effect receipt transition is not allowed: '' @ effect_state_value (er_state r) @
              '' -> '' @ effect_state_value new_state))
       else bind_result (case ea_post_identity a of None \<Rightarrow> Inr (er_post_identity r)
            | Some d \<Rightarrow> normalize_effect_identity (Some d)) (\<lambda>post.
         validate_effect_receipt
           (r\<lparr>er_state := new_state, er_updated_at := now, er_result_reference := ea_result_reference a,
              er_error_code := ea_error_code a, er_error_message := ea_error_message a,
              er_effect_boundary_crossed := (case ea_effect_boundary_crossed a of
                  None \<Rightarrow> er_effect_boundary_crossed r | Some b \<Rightarrow> b),
              er_post_identity := post\<rparr>)))"

definition effect_dict :: "EffectReceipt \<Rightarrow> pydict" where
  "effect_dict r =
     [(''accepted_at'', VStr (er_accepted_at r)), (''action'', VStr (er_action r)),
      (''correlation_id'', VStr (er_correlation_id r)), (''error_code'', of_opt (er_error_code r)),
      (''error_message'', of_opt (er_error_message r)),
      (''effect_boundary_crossed'', VBool (er_effect_boundary_crossed r)),
      (''idempotency_key_hash'', of_opt (er_idempotency_key_hash r)),
      (''operation_id'', VStr (er_operation_id r)), (''post_identity'', VDict (identity_dict (er_post_identity r))),
      (''pre_identity'', VDict (identity_dict (er_pre_identity r))), (''receipt_id'', VStr (er_receipt_id r)),
      (''request_fingerprint'', VStr (er_request_fingerprint r)),
      (''result_reference'', of_opt (er_result_reference r)), (''schema_version'', VInt (er_schema_version r)),
      (''state'', VStr (effect_state_value (er_state r))), (''updated_at'', VStr (er_updated_at r))]"

definition effect_receipt_payload :: "EffectReceipt \<Rightarrow> pydict result" where
  "effect_receipt_payload r = bind_result (validate_effect_receipt r) (\<lambda>_. Inr (effect_dict r))"

definition effect_receipt_from_payload :: "pydict \<Rightarrow> EffectReceipt result" where
  "effect_receipt_from_payload d =
     (case as_int (dict_get_none d ''schema_version'') of
        None \<Rightarrow> Inl (state_invalid ''Effect receipt schema payload is invalid'')
      | Some schema \<Rightarrow>
     (case enum_of ''EffectReceiptState'' effect_state_value EFFECT_STATES (get_str d ''state'') of
        Inl _ \<Rightarrow> Inl (state_invalid ''Effect receipt state payload is invalid'')
      | Inr state \<Rightarrow>
     (case get_or d ''effect_boundary_crossed'' (VBool False) of
        VBool crossed \<Rightarrow>
     (case (as_dict (get_or d ''pre_identity'' (VDict [])), as_dict (get_or d ''post_identity'' (VDict []))) of
        (Some pre_raw, Some post_raw) \<Rightarrow>
          bind_result (normalize_effect_identity (Some pre_raw)) (\<lambda>pre.
          bind_result (normalize_effect_identity (Some post_raw)) (\<lambda>post.
          validate_effect_receipt
            \<lparr>er_receipt_id = get_str d ''receipt_id'', er_operation_id = get_str d ''operation_id'',
             er_action = get_str d ''action'',
             er_idempotency_key_hash = opt_str (dict_get_none d ''idempotency_key_hash''),
             er_request_fingerprint = get_str d ''request_fingerprint'', er_state = state,
             er_accepted_at = get_str d ''accepted_at'', er_updated_at = get_str d ''updated_at'',
             er_correlation_id = get_str d ''correlation_id'', er_pre_identity = pre, er_post_identity = post,
             er_effect_boundary_crossed = crossed,
             er_result_reference = opt_str (dict_get_none d ''result_reference''),
             er_error_code = opt_str (dict_get_none d ''error_code''),
             er_error_message = opt_str (dict_get_none d ''error_message''), er_schema_version = schema\<rparr>))
      | _ \<Rightarrow> Inl (state_invalid ''Effect receipt identity payload is invalid''))
      | _ \<Rightarrow> Inl (state_invalid ''Effect receipt boundary payload is invalid''))))"

section \<open>The state machine\<close>

text \<open>A run applies successful transitions; it records the states a receipt goes through.\<close>

inductive effect_step :: "EffectReceipt \<Rightarrow> EffectReceipt \<Rightarrow> bool" where
  "transition_effect_receipt r s now a = Inr r' \<Longrightarrow> effect_step r r'"

inductive_cases effect_stepE: "effect_step r r'"

text \<open>The fixed part of a receipt.\<close>

definition effect_identity_of :: "EffectReceipt \<Rightarrow> string \<times> string \<times> string \<times> string option \<times> string \<times> string \<times> string \<times> EffectIdentity" where
  "effect_identity_of r = (er_receipt_id r, er_operation_id r, er_action r, er_idempotency_key_hash r,
     er_request_fingerprint r, er_accepted_at r, er_correlation_id r, er_pre_identity r)"

lemma transition_effectE:
  assumes "transition_effect_receipt r s now a = Inr r'"
  obtains "r' = r" "s = er_state r" "effect_check r = None"
  | post where "s \<noteq> er_state r" "s \<in> set (effect_transitions (er_state r))" "effect_check r = None"
      "effect_check r' = None"
      "r' = r\<lparr>er_state := s, er_updated_at := now, er_result_reference := ea_result_reference a,
        er_error_code := ea_error_code a, er_error_message := ea_error_message a,
        er_effect_boundary_crossed := (case ea_effect_boundary_crossed a of None \<Rightarrow> er_effect_boundary_crossed r | Some b \<Rightarrow> b),
        er_post_identity := post\<rparr>"
  using assms unfolding transition_effect_receipt_def validate_effect_receipt_def bind_result_Inr_iff checked_Inr
  by (auto simp: bind_result_Inr_iff split: if_splits)

text \<open>The rank of a state: the length of the longest path that is left in the graph.\<close>

fun effect_rank :: "EffectReceiptState \<Rightarrow> nat" where
  "effect_rank ACCEPTED = 4"
| "effect_rank APPLYING = 3"
| "effect_rank APPLIED_UNVALIDATED = 2"
| "effect_rank UNKNOWN = 1"
| "effect_rank _ = 0"

lemma effect_rank_less: "s' \<in> set (effect_transitions s) \<Longrightarrow> effect_rank s' < effect_rank s"
  by (cases s) auto

lemma effect_step_props:
  assumes "effect_step r r'"
  shows "effect_check r' = None" "effect_identity_of r' = effect_identity_of r"
    "r' = r \<or> er_state r' \<in> set (effect_transitions (er_state r))"
  using assms by (auto elim!: effect_stepE transition_effectE simp: effect_identity_of_def)

text \<open>The states a run goes through, repetitions apart.\<close>

inductive effect_run :: "EffectReceipt \<Rightarrow> EffectReceiptState list \<Rightarrow> EffectReceipt \<Rightarrow> bool" where
  start: "effect_check r = None \<Longrightarrow> effect_run r [er_state r] r"
| stay: "effect_run r ss r' \<Longrightarrow> effect_step r' r'' \<Longrightarrow> er_state r'' = er_state r' \<Longrightarrow> effect_run r ss r''"
| move: "effect_run r ss r' \<Longrightarrow> effect_step r' r'' \<Longrightarrow> er_state r'' \<noteq> er_state r' \<Longrightarrow> effect_run r (ss @ [er_state r'']) r''"

lemma effect_run_props:
  assumes "effect_run r ss r'"
  shows "effect_check r' = None" "effect_identity_of r' = effect_identity_of r"
    "length ss + effect_rank (er_state r') \<le> Suc (effect_rank (er_state r))"
    "ss \<noteq> []" "last ss = er_state r'"
    "sorted_wrt (\<lambda>s t. effect_rank t < effect_rank s) ss"
    "\<forall>s \<in> set ss. effect_rank (er_state r') \<le> effect_rank s"
  using assms
proof (induction rule: effect_run.induct)
  case (stay r ss r' r'')
  { case 1 then show ?case using stay effect_step_props by blast }
  { case 2 then show ?case using stay effect_step_props by metis }
  { case 3 then show ?case using stay by simp }
  { case 4 then show ?case using stay by simp }
  { case 5 then show ?case using stay by simp }
  { case 6 then show ?case using stay by simp }
  { case 7 then show ?case using stay by simp }
next
  case (move r ss r' r'')
  have "er_state r'' \<in> set (effect_transitions (er_state r'))"
    using effect_step_props(3) [OF move.hyps(2)] move.hyps(3) by auto
  then have less: "effect_rank (er_state r'') < effect_rank (er_state r')" by (rule effect_rank_less)
  { case 1 then show ?case using move effect_step_props by blast }
  { case 2 then show ?case using move effect_step_props by metis }
  { case 3 then show ?case using move less by simp }
  { case 4 then show ?case by simp }
  { case 5 then show ?case by simp }
  { case 6 then show ?case using move less by (force simp: sorted_wrt_append) }
  { case 7 then show ?case using move less by force }
qed simp_all

text \<open>
  Claim C21. Whatever transitions are asked for, an effect receipt stays valid, keeps its identity,
  and goes through at most five different states, never twice through the same one: a receipt
  that was accepted reaches a final state after at most four changes.
\<close>

theorem effect_run_bounded:
  assumes "effect_run r ss r'"
  shows "effect_check r' = None \<and> effect_identity_of r' = effect_identity_of r \<and> distinct ss \<and> length ss \<le> 5"
proof -
  have "distinct ss"
    using effect_run_props(6) [OF assms] by (induction ss) auto
  moreover have "length ss \<le> Suc (effect_rank (er_state r))"
    using effect_run_props(3) [OF assms] by simp
  moreover have "effect_rank s \<le> 4" for s by (cases s) auto
  ultimately show ?thesis
    using effect_run_props(1,2) [OF assms] le_trans [of "length ss" "Suc (effect_rank (er_state r))" 5] by simp
qed


section \<open>The codec\<close>

lemma effect_state_enum [simp]: "enum_of n effect_state_value EFFECT_STATES (effect_state_value s) = Inr s"
  by (cases s) (simp_all add: enum_of_def EFFECT_STATES_def)

lemma canonical_identity:
  "validate_effect_identity v f = None \<Longrightarrow> normalize_effect_identity (Some (identity_dict v)) = Inr v"
  by (simp add: validate_effect_identity_def Let_def split: if_splits sum.splits)

lemma effect_decode:
  assumes "effect_check r = None"
  shows "effect_receipt_from_payload (effect_dict r) = Inr r"
proof -
  have "normalize_effect_identity (Some (identity_dict (er_pre_identity r))) = Inr (er_pre_identity r)"
    "normalize_effect_identity (Some (identity_dict (er_post_identity r))) = Inr (er_post_identity r)"
    using assms canonical_identity by (auto simp: effect_check_def)
  with assms show ?thesis
    by (cases r) (simp add: effect_dict_def effect_receipt_from_payload_def validate_effect_receipt_def
        dict_get_none_def get_or_def get_str_def)
qed

text \<open>
  Every effect receipt that a run reaches has a payload, and the payload is decoded to
  exactly that receipt.
\<close>

theorem effect_receipt_roundtrip:
  assumes "effect_run r ss r'"
  shows "\<exists>d. effect_receipt_payload r' = Inr d \<and> effect_receipt_from_payload d = Inr r'"
  using effect_decode [OF effect_run_props(1) [OF assms]] effect_run_props(1) [OF assms]
  by (simp add: effect_receipt_payload_def validate_effect_receipt_def)

subsection \<open>Witnesses\<close>

definition example_effect :: "EffectReceiptState \<Rightarrow> nat \<Rightarrow> bool \<Rightarrow> string option \<Rightarrow> string option \<Rightarrow> EffectReceipt" where
  "example_effect s t crossed result code =
     \<lparr>er_receipt_id = ''receipt-000000000000000000000000'', er_operation_id = ''op-000000000000000000000000'',
      er_action = ''push'', er_idempotency_key_hash = None, er_request_fingerprint = replicate 64 CHR ''a'',
      er_state = s, er_accepted_at = clock 0, er_updated_at = clock t, er_correlation_id = ''c1'',
      er_pre_identity = [(''head'', ''abc'')], er_post_identity = [], er_effect_boundary_crossed = crossed,
      er_result_reference = result, er_error_code = code, er_error_message = None, er_schema_version = 1\<rparr>"

definition effect_arguments :: "bool option \<Rightarrow> string option \<Rightarrow> string option \<Rightarrow> effect_args" where
  "effect_arguments crossed result code =
     \<lparr>ea_result_reference = result, ea_error_code = code, ea_error_message = None,
      ea_effect_boundary_crossed = crossed, ea_post_identity = None\<rparr>"

lemma example_effect_ids:
  "fullmatch RECEIPT_ID ''receipt-000000000000000000000000''" "fullmatch OPERATION_ID ''op-000000000000000000000000''"
  "fullmatch SAFE_ID ''push''" "fullmatch SAFE_ID ''c1''" "fullmatch SHA64 (replicate 64 CHR ''a'')"
  by (code_simp, code_simp, code_simp, code_simp,
      simp add: SHA64_def fullmatch_Rep is_lower_hex_def in_range_def)

lemma example_effect_identity:
  "validate_effect_identity [(''head'', ''abc'')] f = None" "validate_effect_identity [] f = None"
proof -
  have "fullmatch SAFE_ID ''head''" by code_simp
  then show "validate_effect_identity [(''head'', ''abc'')] f = None"
    by (simp add: validate_effect_identity_def Let_def normalize_effect_identity_def identity_dict_def
        identity_entry_def has_control_def)
  show "validate_effect_identity [] f = None"
    by (simp add: validate_effect_identity_def Let_def normalize_effect_identity_def identity_dict_def dict_from_def)
qed

lemma example_effect_valid:
  assumes "t < 24" "\<forall>c \<in> set (effect_evidence_checks (example_effect s t crossed result code)). c = None"
    "result \<in> {None, Some ''r1''}" "code \<in> {None, Some ''e1''}"
  shows "effect_check (example_effect s t crossed result code) = None"
  using assms example_effect_ids example_effect_identity
  by (auto simp: effect_check_def example_effect_def effect_times_check_def receipt_timestamp_def
      EFFECT_RECEIPT_SCHEMA_VERSION_def effect_optional_def clock_instant [of t])

lemma example_effects_valid:
  "effect_check (example_effect ACCEPTED 0 False None None) = None"
  "effect_check (example_effect APPLYING 1 True None None) = None"
  "effect_check (example_effect FAILED_AFTER_EFFECT 2 True (Some ''r1'') (Some ''e1'')) = None"
  by (rule example_effect_valid; simp add: effect_evidence_checks_def example_effect_def Let_def)+

lemma example_effect_moves:
  "transition_effect_receipt (example_effect ACCEPTED 0 False None None) APPLYING (clock 1)
     (effect_arguments (Some True) None None) = Inr (example_effect APPLYING 1 True None None)"
  "transition_effect_receipt (example_effect APPLYING 1 True None None) FAILED_AFTER_EFFECT (clock 2)
     (effect_arguments None (Some ''r1'') (Some ''e1'')) =
   Inr (example_effect FAILED_AFTER_EFFECT 2 True (Some ''r1'') (Some ''e1''))"
  using example_effects_valid
  by (simp_all add: transition_effect_receipt_def validate_effect_receipt_def effect_arguments_def example_effect_def)

lemma example_effect_run:
  "effect_run (example_effect ACCEPTED 0 False None None) [ACCEPTED, APPLYING] (example_effect APPLYING 1 True None None)"
proof -
  have "effect_run (example_effect ACCEPTED 0 False None None) [ACCEPTED] (example_effect ACCEPTED 0 False None None)"
    using effect_run.start [OF example_effects_valid(1)] by (simp add: example_effect_def)
  then show ?thesis
    using effect_run.move [OF _ effect_step.intros [OF example_effect_moves(1)]] by (force simp: example_effect_def)
qed

theorem effect_run_bounded_witness:
  "effect_check (example_effect APPLYING 1 True None None) = None \<and> distinct [ACCEPTED, APPLYING]"
  using effect_run_bounded [OF example_effect_run] by blast


theorem effect_receipt_roundtrip_witness:
  "\<exists>d. effect_receipt_payload (example_effect APPLYING 1 True None None) = Inr d \<and>
     effect_receipt_from_payload d = Inr (example_effect APPLYING 1 True None None)"
  by (rule effect_receipt_roundtrip [OF example_effect_run])

end
