(* ===== verification/Revisioned_Store.thy ===== *)
theory Revisioned_Store
  imports State_Repository
begin

text \<open>
  The contract of a collection of the state repository (adapters/persistence/json\_state\_repository.py)
  whose records evolve by a step relation: clients create records, and save a successor of a record
  they read earlier against the revision they read. Other clients act in between.
\<close>

inductive revision_clients ::
  "'a state_repo \<Rightarrow> ('a \<Rightarrow> string) \<Rightarrow> ('a \<Rightarrow> bool) \<Rightarrow> ('a \<Rightarrow> 'a \<Rightarrow> bool) \<Rightarrow> files \<Rightarrow> files \<Rightarrow> bool"
  for cfg rid valid step
where
  quiet: "revision_clients cfg rid valid step fs fs"
| create: "revision_clients cfg rid valid step fs fs1 \<Longrightarrow> valid r \<Longrightarrow> repo_create cfg fs1 (rid r) r = Inr (fs2, e) \<Longrightarrow>
    revision_clients cfg rid valid step fs fs2"
| save: "revision_clients cfg rid valid step fs fs1 \<Longrightarrow> repo_read cfg fs1 i = Inr (Some e) \<Longrightarrow>
    revision_clients cfg rid valid step fs1 fs2 \<Longrightarrow> step (env_value e) r \<Longrightarrow>
    repo_save cfg fs2 (rid r) r (env_revision e) = Inr (fs3, e') \<Longrightarrow>
    revision_clients cfg rid valid step fs fs3"

text \<open>Every readable record is filed under its own id.\<close>

definition filed_under :: "'a state_repo \<Rightarrow> ('a \<Rightarrow> string) \<Rightarrow> files \<Rightarrow> bool" where
  "filed_under cfg rid fs \<longleftrightarrow> (\<forall>i e. repo_read cfg fs i = Inr (Some e) \<longrightarrow> rid (env_value e) = i)"

lemma filed_under_empty: "filed_under cfg rid []"
  by (auto simp: filed_under_def repo_read_def read_file_def elim!: bind_result_InrE)

text \<open>One successful save of a successor.\<close>

definition envelope_step :: "('a \<Rightarrow> 'a \<Rightarrow> bool) \<Rightarrow> 'a StateEnvelope \<Rightarrow> 'a StateEnvelope \<Rightarrow> bool" where
  "envelope_step step e e' \<longleftrightarrow> step (env_value e) (env_value e') \<and> env_revision e' = env_revision e + 1"

lemma envelope_steps:
  assumes "(envelope_step step)\<^sup>*\<^sup>* e e'"
  shows "env_revision e \<le> env_revision e'" "env_revision e' = env_revision e \<Longrightarrow> e' = e"
    "(step ^^ nat (env_revision e' - env_revision e)) (env_value e) (env_value e')"
proof -
  have "env_revision e \<le> env_revision e' \<and> (env_revision e' = env_revision e \<longrightarrow> e' = e) \<and>
     (step ^^ nat (env_revision e' - env_revision e)) (env_value e) (env_value e')"
    using assms
  proof (induction rule: rtranclp_induct)
    case (step y z)
    note IH = step.IH
    from step.hyps(2) have z: "env_revision z = env_revision y + 1" "step (env_value y) (env_value z)"
      by (simp_all add: envelope_step_def)
    have n: "nat (env_revision z - env_revision e) = Suc (nat (env_revision y - env_revision e))"
      using z(1) IH by linarith
    show ?case unfolding n using z IH by auto
  qed simp
  then show "env_revision e \<le> env_revision e'" "env_revision e' = env_revision e \<Longrightarrow> e' = e"
    "(step ^^ nat (env_revision e' - env_revision e)) (env_value e) (env_value e')" by blast+
qed

locale revisioned_store =
  fixes cfg :: "'a state_repo"
    and rid :: "'a \<Rightarrow> string"
    and valid :: "'a \<Rightarrow> bool"
    and step :: "'a \<Rightarrow> 'a \<Rightarrow> bool"
  assumes codec: "valid r \<Longrightarrow> codec_keeps cfg r"
    and step_valid: "step c r \<Longrightarrow> valid r"
    and step_rid: "step c r \<Longrightarrow> rid r = rid c"
begin

abbreviation clients :: "files \<Rightarrow> files \<Rightarrow> bool" where
  "clients \<equiv> revision_clients cfg rid valid step"

abbreviation evolves :: "files \<Rightarrow> files \<Rightarrow> bool" where
  "evolves fs fs' \<equiv> (\<forall>i e. repo_read cfg fs i = Inr (Some e) \<longrightarrow>
     (\<exists>e'. repo_read cfg fs' i = Inr (Some e') \<and> (envelope_step step)\<^sup>*\<^sup>* e e'))"

lemma create_evolves:
  assumes "repo_create cfg fs (rid r) r = Inr (fs', e)" "valid r"
  shows "evolves fs fs'" "filed_under cfg rid fs \<Longrightarrow> filed_under cfg rid fs'"
proof -
  note cr = repo_create_reads [OF assms(1) codec [OF assms(2)]]
  from cr show "evolves fs fs'" by (metis (no_types, lifting) option.distinct(1) rtranclp.rtrancl_refl sum.inject(2))
  show "filed_under cfg rid fs'" if "filed_under cfg rid fs"
    unfolding filed_under_def
  proof (intro allI impI)
    fix i x assume "repo_read cfg fs' i = Inr (Some x)"
    with cr that show "rid (env_value x) = i"
      by (cases "i = rid r") (auto simp: filed_under_def new_envelope_def)
  qed
qed

lemma save_evolves:
  assumes "repo_save cfg fs (rid r) r (env_revision e) = Inr (fs', e')" "repo_read cfg fs (rid r) = Inr (Some e)"
    and "step (env_value e) r"
  shows "evolves fs fs'" "filed_under cfg rid fs \<Longrightarrow> filed_under cfg rid fs'"
proof -
  note sv = repo_save_reads [OF assms(1) codec [OF step_valid [OF assms(3)]]]
  show "evolves fs fs'"
  proof (intro allI impI)
    fix i x assume "repo_read cfg fs i = Inr (Some x)"
    with sv(1,2) assms(2,3) show "\<exists>x'. repo_read cfg fs' i = Inr (Some x') \<and> (envelope_step step)\<^sup>*\<^sup>* x x'"
      by (cases "i = rid r") (auto simp: envelope_step_def new_envelope_def)
  qed
  show "filed_under cfg rid fs'" if "filed_under cfg rid fs"
    unfolding filed_under_def
  proof (intro allI impI)
    fix i x assume "repo_read cfg fs' i = Inr (Some x)"
    with sv(1,2) that show "rid (env_value x) = i"
      by (cases "i = rid r") (auto simp: filed_under_def new_envelope_def)
  qed
qed

lemma evolves_trans: "evolves a b \<Longrightarrow> evolves b c \<Longrightarrow> evolves a c"
  by (meson rtranclp_trans)

text \<open>A record that was read can only be replaced while it is the stored one.\<close>

lemma save_current:
  assumes "evolves fs fs'" "filed_under cfg rid fs" "repo_read cfg fs i = Inr (Some e)" "step (env_value e) r"
    and "repo_save cfg fs' (rid r) r (env_revision e) = Inr (fs'', e')"
  shows "repo_read cfg fs' (rid r) = Inr (Some e) \<and> rid r = i"
proof -
  have i: "rid r = i" using step_rid [OF assms(4)] assms(2,3) by (simp add: filed_under_def)
  obtain e2 where e2: "repo_read cfg fs' i = Inr (Some e2)" "(envelope_step step)\<^sup>*\<^sup>* e e2"
    using assms(1,3) by blast
  have "env_revision e2 = env_revision e"
    using repo_save_reads(3) [OF assms(5) codec [OF step_valid [OF assms(4)]]] e2(1) i by auto
  with envelope_steps(2) [OF e2(2)] e2(1) i show ?thesis by simp
qed

lemma clients_evolve:
  "clients fs fs' \<Longrightarrow> filed_under cfg rid fs \<Longrightarrow> filed_under cfg rid fs' \<and> evolves fs fs'"
proof (induction rule: revision_clients.induct)
  case (quiet fs)
  then show ?case by blast
next
  case (create fs fs1 r fs2 e)
  with create_evolves [OF create.hyps(3,2)] show ?case by (blast intro: rtranclp_trans)
next
  case (save fs fs1 i e fs2 r fs3 e')
  then have f: "filed_under cfg rid fs1" "filed_under cfg rid fs2" "evolves fs fs1" "evolves fs1 fs2" by blast+
  from save_current [OF f(4,1) save.hyps(2,4,5)]
  have "repo_read cfg fs2 (rid r) = Inr (Some e)" by blast
  note s = save_evolves [OF save.hyps(5) this save.hyps(4)]
  have "evolves fs fs3" using evolves_trans [OF evolves_trans [OF f(3,4)] s(1)] .
  with s(2) [OF f(2)] show ?case by blast
qed

lemma record_history:
  assumes "clients fs fs'" "filed_under cfg rid fs" "repo_read cfg fs i = Inr (Some e)"
  shows "\<exists>e'. repo_read cfg fs' i = Inr (Some e') \<and> env_revision e \<le> env_revision e' \<and>
    (step ^^ nat (env_revision e' - env_revision e)) (env_value e) (env_value e')"
  using clients_evolve [OF assms(1,2)] assms(3) envelope_steps by blast

lemma no_lost_update:
  assumes "clients fs fs'" "filed_under cfg rid fs" "repo_read cfg fs i = Inr (Some e)" "step (env_value e) r"
    and "repo_save cfg fs' (rid r) r (env_revision e) = Inr (fs'', e')"
  shows "repo_read cfg fs' i = Inr (Some e)"
  using save_current [OF _ assms(2-5)] clients_evolve [OF assms(1,2)] by metis

end

section \<open>Writes that fit\<close>

lemma weight_fits:
  assumes "json_weight 0 v \<le> n" "2 * n < m"
  shows "encoded_size v \<le> m"
  using length_utf8_encode(2) [of "json_indented False 0 v"] length_json_indented [of False 0 v] assms
  unfolding encoded_size_def by linarith

lemma repo_create_fits:
  assumes "repo_id cfg i = Inr ()" "map_of fs i = None"
    "json_weight 0 (VDict (envelope_dict cfg (new_envelope cfg i 1 v))) \<le> n" "2 * n < sr_max_bytes cfg"
  shows "\<exists>fs'. repo_create cfg fs i v = Inr (fs', new_envelope cfg i 1 v)"
  using assms(1,2) weight_fits [OF assms(3,4)]
  by (simp add: repo_create_def encode_envelope_def write_file_def)

lemma repo_save_fits:
  assumes "repo_read cfg fs i = Inr (Some e)" "env_revision e = r"
    "json_weight 0 (VDict (envelope_dict cfg (new_envelope cfg i (r + 1) v))) \<le> n" "2 * n < sr_max_bytes cfg"
  shows "\<exists>fs'. repo_save cfg fs i v r = Inr (fs', new_envelope cfg i (r + 1) v)"
proof -
  have "repo_id cfg i = Inr ()" "0 < r" using assms(1,2) by (auto elim: repo_readE)
  with assms(1,2) weight_fits [OF assms(3,4)] show ?thesis
    by (simp add: repo_save_def encode_envelope_def write_file_def revision_next_def make_revision_def)
qed

end
