(* ===== verification/Execution_Stores.thy ===== *)
theory Execution_Stores
  imports Verification_Dag Effect_Receipt Revisioned_Store
begin

text \<open>
  The JSON stores of plans, acceptances, stage receipts and effect receipts:
  adapters/persistence/json\_execution\_plan\_store.py, json\_execution\_receipt\_store.py and
  json\_effect\_receipt\_store.py, each a collection of the state repository. Between the read and the
  creation of an operation other processes may act on the collection.
\<close>

section \<open>Plans and stage receipts: records written once\<close>

definition validate_plan_id :: "string \<Rightarrow> exn option" where
  "validate_plan_id i = raise_if (\<not> fullmatch PLAN_ID i) (ValueError ''invalid execution plan id'')"

text \<open>The codec validates a plan before it encodes it; the store has validated it already.\<close>

definition plan_repo :: "ExecutionPlan state_repo" where
  "plan_repo = \<lparr>sr_encode = plan_payload, sr_decode = execution_plan_from_payload,
     sr_version = EXECUTION_PLAN_SCHEMA_VERSION, sr_id_validator = validate_plan_id, sr_max_bytes = 1000000\<rparr>"

definition plan_store_create ::
  "(files \<Rightarrow> files) \<Rightarrow> files \<Rightarrow> ExecutionPlan \<Rightarrow> (files \<times> ExecutionPlan StateEnvelope) result" where
  "plan_store_create others fs p =
     bind_result (repo_read plan_repo fs (pl_plan_id p)) (\<lambda>existing.
     case existing of
       Some e \<Rightarrow> if env_value e = p then Inr (fs, e)
         else Inl (RepoForgeError ''ALREADY_EXISTS'' ''Execution plan id is already bound to different content'')
     | None \<Rightarrow> bind_result (validate_execution_plan p) (\<lambda>_. repo_create plan_repo (others fs) (pl_plan_id p) p))"

definition plan_store_read :: "files \<Rightarrow> string \<Rightarrow> ExecutionPlan StateEnvelope option result" where
  "plan_store_read fs i = repo_read plan_repo fs i"

definition plan_store_list :: "files \<Rightarrow> int \<Rightarrow> ExecutionPlan StatePage result" where
  "plan_store_list fs n = repo_list plan_repo fs n"

definition validate_receipt_id :: "string \<Rightarrow> string \<Rightarrow> exn option" where
  "validate_receipt_id msg i = raise_if (\<not> fullmatch RECEIPT_ID i) (ValueError msg)"

definition receipt_repo :: "StageReceipt state_repo" where
  "receipt_repo = \<lparr>sr_encode = receipt_payload, sr_decode = stage_receipt_from_payload,
     sr_version = EXECUTION_RECEIPT_SCHEMA_VERSION,
     sr_id_validator = validate_receipt_id ''invalid execution receipt id'', sr_max_bytes = 512000\<rparr>"

definition receipt_store_create ::
  "(files \<Rightarrow> files) \<Rightarrow> files \<Rightarrow> StageReceipt \<Rightarrow> (files \<times> StageReceipt StateEnvelope) result" where
  "receipt_store_create others fs r =
     bind_result (validate_stage_receipt r) (\<lambda>_.
     bind_result (repo_read receipt_repo fs (sr_receipt_id r)) (\<lambda>existing.
     case existing of
       Some e \<Rightarrow> if env_value e = r then Inr (fs, e)
         else Inl (RepoForgeError ''ALREADY_EXISTS'' ''Execution receipt id is already bound to different content'')
     | None \<Rightarrow> repo_create receipt_repo (others fs) (sr_receipt_id r) r))"

definition receipt_store_read :: "files \<Rightarrow> string \<Rightarrow> StageReceipt StateEnvelope option result" where
  "receipt_store_read fs i = repo_read receipt_repo fs i"

text \<open>The sort key \<open>(ordinal, started_at, record_id)\<close>: a stable sort by the last component first.\<close>

definition receipt_page :: "StageReceipt StatePage \<Rightarrow> (StageReceipt \<Rightarrow> bool) \<Rightarrow> StageReceipt StatePage" where
  "receipt_page page pred =
     \<lparr>sp_records = sort_key (\<lambda>e. sr_ordinal (env_value e)) (sort_key (\<lambda>e. [sr_started_at (env_value e), env_record_id e])
        (filter (\<lambda>e. pred (env_value e)) (sp_records page))),
      sp_scan_truncated = sp_scan_truncated page, sp_unreadable = []\<rparr>"

definition list_for_plan :: "files \<Rightarrow> string \<Rightarrow> int \<Rightarrow> StageReceipt StatePage result" where
  "list_for_plan fs plan_id n =
     bind_result (repo_list receipt_repo fs n) (\<lambda>page. Inr (receipt_page page (\<lambda>r. sr_plan_id r = plan_id)))"

definition list_for_operation :: "files \<Rightarrow> string \<Rightarrow> int \<Rightarrow> StageReceipt StatePage result" where
  "list_for_operation fs operation_id n =
     bind_result (repo_list receipt_repo fs n) (\<lambda>page. Inr (receipt_page page (\<lambda>r. sr_operation_id r = operation_id)))"

section \<open>Acceptances\<close>

definition ACCEPTANCE_ID :: regex where
  "ACCEPTANCE_ID = Seq (One is_ascii_alnum) (upto (\<lambda>c. is_ascii_alnum c \<or> c \<in> set ''._:-'') 0 127)"

definition validate_acceptance_id :: "string \<Rightarrow> exn option" where
  "validate_acceptance_id i = raise_if (\<not> fullmatch ACCEPTANCE_ID i) (ValueError ''invalid execution plan acceptance id'')"

definition acceptance_payload :: "ExecutionPlanAcceptance \<Rightarrow> pydict" where
  "acceptance_payload a =
     [(''acceptance_id'', VStr (ac_acceptance_id a)), (''plan_id'', VStr (ac_plan_id a)),
      (''plan_hash'', VStr (ac_plan_hash a)), (''workspace_id'', VStr (ac_workspace_id a)),
      (''task_id'', of_opt (ac_task_id a)), (''accepted_at'', VStr (ac_accepted_at a)),
      (''schema_version'', VInt (ac_schema_version a))]"

definition acceptance_from_payload :: "pydict \<Rightarrow> ExecutionPlanAcceptance result" where
  "acceptance_from_payload d =
     (if \<not> same_keys d [''acceptance_id'', ''plan_id'', ''plan_hash'', ''workspace_id'', ''task_id'', ''accepted_at'', ''schema_version'']
      then Inl (ValueError ''execution plan acceptance fields are invalid'')
      else case as_int (dict_get_none d ''schema_version'') of
        None \<Rightarrow> Inl (ValueError ''execution plan acceptance schema is invalid'')
      | Some version \<Rightarrow>
        (let a = \<lparr>ac_acceptance_id = py_str (dict_get_none d ''acceptance_id''), ac_plan_id = py_str (dict_get_none d ''plan_id''),
               ac_plan_hash = py_str (dict_get_none d ''plan_hash''), ac_workspace_id = py_str (dict_get_none d ''workspace_id''),
               ac_task_id = opt_str (dict_get_none d ''task_id''), ac_accepted_at = py_str (dict_get_none d ''accepted_at''),
               ac_schema_version = version\<rparr>
         in checked (first_error
              [raise_if (version \<noteq> EXECUTION_PLAN_SCHEMA_VERSION) (ValueError ''unsupported execution plan acceptance schema''),
               validate_acceptance_id (ac_acceptance_id a), validate_plan_id (ac_plan_id a),
               raise_if (length (ac_plan_hash a) \<noteq> 64) (ValueError ''execution plan acceptance hash is invalid'')]) a))"

definition acceptance_repo :: "ExecutionPlanAcceptance state_repo" where
  "acceptance_repo = \<lparr>sr_encode = acceptance_payload, sr_decode = acceptance_from_payload,
     sr_version = EXECUTION_PLAN_SCHEMA_VERSION, sr_id_validator = validate_acceptance_id, sr_max_bytes = 128000\<rparr>"

definition accept_plan ::
  "(files \<Rightarrow> files) \<Rightarrow> files \<Rightarrow> ExecutionPlan \<Rightarrow> string \<Rightarrow> string option \<Rightarrow> string \<Rightarrow>
   (files \<times> ExecutionPlanAcceptance StateEnvelope) result" where
  "accept_plan others fs p acceptance_id task_id accepted_at =
     bind_result (new_plan_acceptance p acceptance_id task_id accepted_at) (\<lambda>acceptance.
     bind_result (repo_read acceptance_repo fs acceptance_id) (\<lambda>existing.
     case existing of
       Some e \<Rightarrow> if env_value e = acceptance then Inr (fs, e)
         else Inl (RepoForgeError ''ALREADY_EXISTS'' ''Execution plan acceptance id is already bound to different content'')
     | None \<Rightarrow>
         bind_result (repo_list acceptance_repo fs 2000) (\<lambda>page.
         case filter (\<lambda>e. ac_plan_id (env_value e) = pl_plan_id p) (sp_records page) of
           candidate # _ \<Rightarrow>
             if ac_plan_hash (env_value candidate) \<noteq> pl_plan_hash p \<or> ac_task_id (env_value candidate) \<noteq> task_id
             then Inl (RepoForgeError ''ALREADY_EXISTS'' ''Execution plan already has a conflicting acceptance'')
             else Inr (fs, candidate)
         | [] \<Rightarrow> repo_create acceptance_repo (others fs) acceptance_id acceptance)))"

definition acceptance_store_read :: "files \<Rightarrow> string \<Rightarrow> ExecutionPlanAcceptance StateEnvelope option result" where
  "acceptance_store_read fs i = repo_read acceptance_repo fs i"

fun latest_acceptance ::
  "ExecutionPlanAcceptance StateEnvelope option \<Rightarrow> ExecutionPlanAcceptance StateEnvelope list \<Rightarrow>
   ExecutionPlanAcceptance StateEnvelope option" where
  "latest_acceptance selected [] = selected"
| "latest_acceptance selected (c # cs) =
     latest_acceptance
       (case selected of None \<Rightarrow> Some c
        | Some s \<Rightarrow> if ac_accepted_at (env_value s) < ac_accepted_at (env_value c) then Some c else selected) cs"

definition read_for_plan :: "files \<Rightarrow> string \<Rightarrow> ExecutionPlanAcceptance StateEnvelope option result" where
  "read_for_plan fs plan_id =
     bind_result (repo_list acceptance_repo fs 2000) (\<lambda>page.
       Inr (latest_acceptance None (filter (\<lambda>e. ac_plan_id (env_value e) = plan_id) (sp_records page))))"

section \<open>Effect receipts\<close>

definition effect_repo :: "EffectReceipt state_repo" where
  "effect_repo = \<lparr>sr_encode = effect_dict, sr_decode = effect_receipt_from_payload,
     sr_version = EFFECT_RECEIPT_SCHEMA_VERSION,
     sr_id_validator = validate_receipt_id ''invalid effect receipt id'', sr_max_bytes = 256000\<rparr>"

definition effect_store_create :: "files \<Rightarrow> EffectReceipt \<Rightarrow> (files \<times> EffectReceipt StateEnvelope) result" where
  "effect_store_create fs r =
     bind_result (validate_effect_receipt r) (\<lambda>r. repo_create effect_repo fs (er_receipt_id r) r)"

definition effect_store_read :: "files \<Rightarrow> string \<Rightarrow> EffectReceipt StateEnvelope option result" where
  "effect_store_read fs i = repo_read effect_repo fs i"

definition effect_store_save :: "files \<Rightarrow> EffectReceipt \<Rightarrow> int \<Rightarrow> (files \<times> EffectReceipt StateEnvelope) result" where
  "effect_store_save fs r expected_revision =
     bind_result (validate_effect_receipt r) (\<lambda>r. repo_save effect_repo fs (er_receipt_id r) r expected_revision)"

definition effect_page :: "EffectReceipt StatePage \<Rightarrow> (EffectReceipt \<Rightarrow> bool) \<Rightarrow> EffectReceipt StatePage" where
  "effect_page page pred =
     \<lparr>sp_records = rev (sort_key (\<lambda>e. [er_updated_at (env_value e), env_record_id e])
        (rev (filter (\<lambda>e. pred (env_value e)) (sp_records page)))),
      sp_scan_truncated = sp_scan_truncated page, sp_unreadable = []\<rparr>"

definition effect_list_all :: "files \<Rightarrow> int \<Rightarrow> EffectReceipt StatePage result" where
  "effect_list_all fs n = repo_list effect_repo fs n"

definition effect_list_for_operation :: "files \<Rightarrow> string \<Rightarrow> int \<Rightarrow> EffectReceipt StatePage result" where
  "effect_list_for_operation fs operation_id n =
     bind_result (repo_list effect_repo fs n) (\<lambda>page. Inr (effect_page page (\<lambda>r. er_operation_id r = operation_id)))"

definition effect_list_for_idempotency :: "files \<Rightarrow> string \<Rightarrow> string \<Rightarrow> int \<Rightarrow> EffectReceipt StatePage result" where
  "effect_list_for_idempotency fs action key_hash n =
     bind_result (repo_list effect_repo fs n) (\<lambda>page.
       Inr (effect_page page (\<lambda>r. er_action r = action \<and> er_idempotency_key_hash r = Some key_hash)))"

section \<open>The codecs\<close>

lemma codec_keepsI: "sr_decode cfg (file_dict (sr_encode cfg v)) = Inr v \<Longrightarrow> codec_keeps cfg v"
  by (simp add: codec_keeps_def file_dict_def)

lemma stored_stage_decode: "plan_stage_from (VDict (file_dict (plan_stage_payload s))) = make_plan_stage s"
proof -
  have d: "distinct (map fst (plan_stage_payload s))" by (simp add: plan_stage_payload_def)
  show ?thesis
    unfolding plan_stage_from_def payload_lookups option.case stored_lookups [OF d]
    by (cases s) (simp add: plan_stage_payload_def of_strings_def comp_def)
qed

lemma stored_stages_decode:
  "(\<And>s. s \<in> set stages \<Longrightarrow> plan_stage_check s = None) \<Longrightarrow>
     map_result plan_stage_from (map (\<lambda>s. VDict (file_dict (plan_stage_payload s))) stages) = Inr stages"
  by (induction stages) (simp_all add: stored_stage_decode make_plan_stage_def)

lemma stored_binding_decode: "binding_from (file_dict (plan_binding_payload b)) = make_binding b"
proof -
  have d: "distinct (map fst (plan_binding_payload b))" by (simp add: plan_binding_payload_def)
  show ?thesis
    unfolding binding_from_def stored_lookups [OF d]
    by (cases b) (simp add: plan_binding_payload_def of_strings_def comp_def)
qed

definition good_plan :: "ExecutionPlan \<Rightarrow> bool" where
  "good_plan p \<longleftrightarrow> binding_check (pl_binding p) = None \<and> list_all (\<lambda>s. plan_stage_check s = None) (pl_ordered_stages p)"

lemma plan_codec_keeps:
  assumes "good_plan p" "validate_execution_plan p = Inr p"
  shows "codec_keeps plan_repo p"
proof (rule codec_keepsI)
  have d: "distinct (map fst (plan_payload p))" by (simp add: plan_payload_def plan_semantic_def)
  have stages: "map_result plan_stage_from (map (\<lambda>s. VDict (file_dict (plan_stage_payload s))) (pl_ordered_stages p)) =
      Inr (pl_ordered_stages p)"
    using assms(1) by (intro stored_stages_decode) (simp add: good_plan_def list_all_iff)
  have "execution_plan_from_payload (file_dict (plan_payload p)) = validate_execution_plan
      \<lparr>pl_plan_id = pl_plan_id p, pl_plan_hash = pl_plan_hash p, pl_task_id = pl_task_id p,
       pl_workspace_id = pl_workspace_id p, pl_binding = pl_binding p, pl_ordered_stages = pl_ordered_stages p,
       pl_final_profile = pl_final_profile p, pl_stage_definition_hash = pl_stage_definition_hash p,
       pl_created_at = pl_created_at p, pl_expires_at = pl_expires_at p, pl_schema_version = pl_schema_version p\<rparr>"
    unfolding execution_plan_from_payload_def stored_lookups [OF d]
    using assms(1) stages stored_binding_decode [of "pl_binding p"]
    by (simp add: plan_payload_def plan_semantic_def json_sorted_VDict good_plan_def make_binding_def comp_def
        del: json_sorted.simps(2))
  also have "\<dots> = Inr p" using assms(2) by (cases p) simp
  finally show "sr_decode plan_repo (file_dict (sr_encode plan_repo p)) = Inr p" by (simp add: plan_repo_def)
qed

lemma stored_artifact_decode: "artifact_from m (VDict (file_dict (artifact_payload a))) = make_artifact a"
proof -
  have d: "distinct (map fst (artifact_payload a))" by (simp add: artifact_payload_def)
  show ?thesis
    unfolding artifact_from_def payload_lookups option.case stored_lookups [OF d]
    by (cases a) (simp add: artifact_payload_def)
qed

lemma stored_artifacts_decode:
  "(\<And>a. a \<in> set as \<Longrightarrow> artifact_check a = None) \<Longrightarrow>
     map_result (artifact_from m) (map (\<lambda>a. VDict (file_dict (artifact_payload a))) as) = Inr as"
  by (induction as) (simp_all add: stored_artifact_decode make_artifact_def)

lemma stored_identity_decode:
  assumes "dict_get_none d name = VDict (file_dict (identity_payload w))"
  shows "identity_from d name = make_identity w"
proof -
  let ?p = "file_dict (identity_payload w)"
  have d: "distinct (map fst (identity_payload w))" by (simp add: identity_payload_def)
  have "identity_from d name = make_identity
      \<lparr>wi_head_sha = get_str ?p ''head_sha'', wi_workspace_fingerprint = get_str ?p ''workspace_fingerprint'',
       wi_config_generation = get_str ?p ''config_generation'', wi_policy_hash = get_str ?p ''policy_hash''\<rparr>"
    using assms by (simp add: identity_from_def)
  also have "\<dots> = make_identity w"
    unfolding stored_lookups [OF d] by (cases w) (simp add: identity_payload_def)
  finally show ?thesis .
qed

definition good_receipt :: "StageReceipt \<Rightarrow> bool" where
  "good_receipt r \<longleftrightarrow> identity_check (sr_pre_identity r) = None \<and> identity_check (sr_post_identity r) = None \<and>
     list_all (\<lambda>a. artifact_check a = None) (sr_artifact_digests r)"

lemma receipt_codec_keeps:
  assumes "good_receipt r" "validate_stage_receipt r = Inr r"
  shows "codec_keeps receipt_repo r"
proof (rule codec_keepsI)
  let ?d = "file_dict (receipt_payload r)"
  have d: "distinct (map fst (receipt_payload r))" by (simp add: receipt_payload_def receipt_semantic_def)
  have "dict_get_none ?d ''pre_identity'' = VDict (file_dict (identity_payload (sr_pre_identity r)))"
    "dict_get_none ?d ''post_identity'' = VDict (file_dict (identity_payload (sr_post_identity r)))"
    unfolding stored_lookups [OF d]
    by (simp_all add: receipt_payload_def receipt_semantic_def json_sorted_VDict del: json_sorted.simps(2))
  then have "identity_from ?d ''pre_identity'' = make_identity (sr_pre_identity r)"
    "identity_from ?d ''post_identity'' = make_identity (sr_post_identity r)"
    using stored_identity_decode by blast+
  then have ids: "identity_from ?d ''pre_identity'' = Inr (sr_pre_identity r)"
    "identity_from ?d ''post_identity'' = Inr (sr_post_identity r)"
    using assms(1) by (simp_all add: good_receipt_def make_identity_def)
  have arts: "map_result (artifact_from m) (map (\<lambda>a. VDict (file_dict (artifact_payload a))) (sr_artifact_digests r)) =
      Inr (sr_artifact_digests r)" for m
    using assms(1) by (intro stored_artifacts_decode) (simp add: good_receipt_def list_all_iff)
  have "stage_receipt_from_payload ?d = validate_stage_receipt r"
    unfolding stage_receipt_from_payload_def ids stored_lookups [OF d]
    by (simp add: receipt_payload_def receipt_semantic_def arts json_sorted_VDict comp_def
          del: json_sorted.simps(2),
        rule arg_cong [where f = validate_stage_receipt], simp)
  then show "sr_decode receipt_repo (file_dict (sr_encode receipt_repo r)) = Inr r"
    using assms(2) by (simp add: receipt_repo_def)
qed

lemma stored_identity_normal:
  "normalize_effect_identity (Some (file_dict (identity_dict v))) = normalize_effect_identity (Some (identity_dict v))"
proof -
  have "json_sorted (snd kv) = snd kv" if "kv \<in> set (identity_dict v)" for kv
    using that by (auto simp: identity_dict_def)
  then have "file_dict (identity_dict v) = sort_key fst (identity_dict v)"
    unfolding file_dict_def by (intro map_idI) (auto simp: prod_eq_iff)
  moreover have "sort_key fst (sort_key fst (identity_dict v)) = sort_key fst (identity_dict v)"
    by (rule properties_for_sort_key) simp_all
  ultimately show ?thesis by (simp add: normalize_effect_identity_def)
qed

lemma effect_codec_keeps:
  assumes "effect_check r = None"
  shows "codec_keeps effect_repo r"
proof (rule codec_keepsI)
  have d: "distinct (map fst (effect_dict r))" by (simp add: effect_dict_def)
  have "normalize_effect_identity (Some (identity_dict (er_pre_identity r))) = Inr (er_pre_identity r)"
    "normalize_effect_identity (Some (identity_dict (er_post_identity r))) = Inr (er_post_identity r)"
    using assms canonical_identity by (auto simp: effect_check_def)
  then have "effect_receipt_from_payload (file_dict (effect_dict r)) = validate_effect_receipt r"
    unfolding effect_receipt_from_payload_def stored_lookups [OF d]
    by (simp add: effect_dict_def json_sorted_VDict stored_identity_normal del: json_sorted.simps(2)) (rule arg_cong [where f = validate_effect_receipt], simp)
  then show "sr_decode effect_repo (file_dict (sr_encode effect_repo r)) = Inr r"
    using assms by (simp add: effect_repo_def validate_effect_receipt_def)
qed

section \<open>Stores that write a record once\<close>

text \<open>
  The contract of a store whose creation is idempotent: what it returns can be read, and what could
  be read before still can.
\<close>

locale write_once =
  fixes read :: "'s \<Rightarrow> string \<Rightarrow> 'e option result"
    and create :: "'s \<Rightarrow> 'v \<Rightarrow> ('s \<times> 'e) result"
    and key :: "'v \<Rightarrow> string"
    and contents :: "'e \<Rightarrow> 'v"
    and good :: "'v \<Rightarrow> bool"
  assumes create_reads: "create s v = Inr (s', e) \<Longrightarrow> good v \<Longrightarrow> read s' (key v) = Inr (Some e) \<and> contents e = v"
    and create_keeps: "create s v = Inr (s', e) \<Longrightarrow> read s i = Inr (Some x) \<Longrightarrow> read s' i = Inr (Some x)"
begin

abbreviation writes :: "'s \<Rightarrow> 's \<Rightarrow> bool" where
  "writes s s' \<equiv> (\<exists>v e. create s v = Inr (s', e))"

lemma writes_keep:
  assumes "writes\<^sup>*\<^sup>* s s'" "read s i = Inr (Some x)"
  shows "read s' i = Inr (Some x)"
  using assms(1)
  by (induction rule: rtranclp_induct) (use assms(2) create_keeps in blast)+

lemma written_once:
  assumes "create s v = Inr (s1, e)" "good v" "writes\<^sup>*\<^sup>* s1 s2" "create s2 w = Inr (s3, e')" "good w" "key w = key v"
  shows "w = v \<and> e' = e"
proof -
  have "read s2 (key v) = Inr (Some e)" using writes_keep [OF assms(3)] create_reads [OF assms(1,2)] by blast
  then have "read s3 (key v) = Inr (Some e)" using create_keeps [OF assms(4)] by blast
  with create_reads [OF assms(4,5)] create_reads [OF assms(1,2)] assms(6) show ?thesis by auto
qed

end

lemma plan_createE:
  assumes "plan_store_create others fs p = Inr (fs', e)"
  obtains (found) "repo_read plan_repo fs (pl_plan_id p) = Inr (Some e)" "env_value e = p" "fs' = fs"
  | (fresh) "validate_execution_plan p = Inr p" "repo_read plan_repo fs (pl_plan_id p) = Inr None"
      "repo_create plan_repo (others fs) (pl_plan_id p) p = Inr (fs', e)"
proof -
  from assms obtain existing where r: "repo_read plan_repo fs (pl_plan_id p) = Inr existing"
    unfolding plan_store_create_def by (rule bind_result_InrE)
  show thesis
  proof (cases existing)
    case None
    with assms r obtain w where w: "validate_execution_plan p = Inr w"
      "repo_create plan_repo (others fs) (pl_plan_id p) p = Inr (fs', e)"
      by (auto simp: plan_store_create_def elim: bind_result_InrE)
    from w(1) have "w = p" by (auto simp: validate_execution_plan_def elim!: bind_result_InrE split: if_splits)
    with w r None show thesis by (intro fresh) simp_all
  next
    case (Some e0)
    with assms r show thesis by (intro found) (simp_all add: plan_store_create_def split: if_splits)
  qed
qed

lemma receipt_createE:
  assumes "receipt_store_create others fs r = Inr (fs', e)"
  obtains (found) "repo_read receipt_repo fs (sr_receipt_id r) = Inr (Some e)" "env_value e = r" "fs' = fs"
  | (fresh) "validate_stage_receipt r = Inr r" "repo_read receipt_repo fs (sr_receipt_id r) = Inr None"
      "repo_create receipt_repo (others fs) (sr_receipt_id r) r = Inr (fs', e)"
proof -
  from assms obtain w where w: "validate_stage_receipt r = Inr w"
    unfolding receipt_store_create_def by (rule bind_result_InrE)
  then have v: "validate_stage_receipt r = Inr r" 
    by (auto simp: validate_stage_receipt_def elim!: bind_result_InrE split: if_splits)
  from assms obtain existing where x: "repo_read receipt_repo fs (sr_receipt_id r) = Inr existing"
    unfolding receipt_store_create_def v by (auto elim: bind_result_InrE)
  show thesis
  proof (cases existing)
    case None
    with assms v x show thesis by (intro fresh) (simp_all add: receipt_store_create_def)
  next
    case (Some e0)
    with assms v x show thesis by (intro found) (simp_all add: receipt_store_create_def split: if_splits)
  qed
qed

lemma repo_create_fresh:
  assumes "repo_create cfg fs i v = Inr (fs', e)"
  shows "repo_read cfg fs i = Inr None" "e = new_envelope cfg i 1 v"
  using assms by (elim repo_createE; simp add: repo_read_def read_file_def)+

lemma repo_create_keeps:
  assumes "repo_create cfg fs i v = Inr (fs', e)" "repo_read cfg fs j = Inr (Some x)"
  shows "repo_read cfg fs' j = Inr (Some x)"
  using assms repo_create_fresh(1) [OF assms(1)] repo_create_frame [OF assms(1), of j] by (cases "j = i") auto

interpretation plan_store: write_once plan_store_read "plan_store_create id" pl_plan_id env_value good_plan
proof unfold_locales
  fix fs fs' p e i x
  assume c: "plan_store_create id fs p = Inr (fs', e)"
  then show "plan_store_read fs' (pl_plan_id p) = Inr (Some e) \<and> env_value e = p" if "good_plan p"
  proof (cases rule: plan_createE)
    case fresh
    then show ?thesis
      using repo_create_reads(1) [OF fresh(3) plan_codec_keeps [OF that fresh(1)]] repo_create_fresh(2) [OF fresh(3)]
      by (simp add: plan_store_read_def new_envelope_def)
  qed (simp add: plan_store_read_def)
  from c show "plan_store_read fs' i = Inr (Some x)" if "plan_store_read fs i = Inr (Some x)"
    by (cases rule: plan_createE) (use that repo_create_keeps in \<open>auto simp: plan_store_read_def\<close>)
qed

interpretation receipt_store: write_once receipt_store_read "receipt_store_create id" sr_receipt_id env_value good_receipt
proof unfold_locales
  fix fs fs' r e i x
  assume c: "receipt_store_create id fs r = Inr (fs', e)"
  then show "receipt_store_read fs' (sr_receipt_id r) = Inr (Some e) \<and> env_value e = r" if "good_receipt r"
  proof (cases rule: receipt_createE)
    case fresh
    then show ?thesis
      using repo_create_reads(1) [OF fresh(3) receipt_codec_keeps [OF that fresh(1)]] repo_create_fresh(2) [OF fresh(3)]
      by (simp add: receipt_store_read_def new_envelope_def)
  qed (simp add: receipt_store_read_def)
  from c show "receipt_store_read fs' i = Inr (Some x)" if "receipt_store_read fs i = Inr (Some x)"
    by (cases rule: receipt_createE) (use that repo_create_keeps in \<open>auto simp: receipt_store_read_def\<close>)
qed

text \<open>
  Clients of the two stores: creations, each interrupted between its read and its write by other
  creations.
\<close>

inductive plan_clients :: "files \<Rightarrow> files \<Rightarrow> bool" where
  quiet: "plan_clients fs fs"
| create: "plan_clients fs fs1 \<Longrightarrow> plan_clients fs1 (others fs1) \<Longrightarrow> plan_store_create others fs1 p = Inr (fs2, e) \<Longrightarrow>
    plan_clients fs fs2"

inductive receipt_clients :: "files \<Rightarrow> files \<Rightarrow> bool" where
  quiet: "receipt_clients fs fs"
| create: "receipt_clients fs fs1 \<Longrightarrow> receipt_clients fs1 (others fs1) \<Longrightarrow> receipt_store_create others fs1 r = Inr (fs2, e) \<Longrightarrow>
    receipt_clients fs fs2"

text \<open>
  A creation that other processes interrupt is a creation without interruption, in the state it
  found or in the state they left.
\<close>

lemma plan_create_interrupted:
  assumes "plan_store_create others fs p = Inr (fs', e)"
  shows "plan_store_create id fs p = Inr (fs', e) \<or> plan_store_create id (others fs) p = Inr (fs', e)"
  using assms
proof (cases rule: plan_createE)
  case fresh
  with repo_create_fresh(1) [OF fresh(3)] show ?thesis by (simp add: plan_store_create_def)
qed (simp add: plan_store_create_def)

lemma receipt_create_interrupted:
  assumes "receipt_store_create others fs r = Inr (fs', e)"
  shows "receipt_store_create id fs r = Inr (fs', e) \<or> receipt_store_create id (others fs) r = Inr (fs', e)"
  using assms
proof (cases rule: receipt_createE)
  case fresh
  with repo_create_fresh(1) [OF fresh(3)] show ?thesis by (simp add: receipt_store_create_def)
next
  case found
  from assms obtain w where "validate_stage_receipt r = Inr w" unfolding receipt_store_create_def by (rule bind_result_InrE)
  with found show ?thesis by (simp add: receipt_store_create_def)
qed

lemma plan_clients_write: "plan_clients fs fs' \<Longrightarrow> plan_store.writes\<^sup>*\<^sup>* fs fs'"
proof (induction rule: plan_clients.induct)
  case (create fs fs1 others p fs2 e)
  from plan_create_interrupted [OF create.hyps(3)]
  have "plan_store.writes fs1 fs2 \<or> plan_store.writes (others fs1) fs2" by blast
  then show ?case
  proof
    assume "plan_store.writes fs1 fs2"
    with create.IH(1) show ?case by (rule rtranclp.rtrancl_into_rtrancl)
  next
    assume "plan_store.writes (others fs1) fs2"
    with rtranclp_trans [OF create.IH] show ?case by (rule rtranclp.rtrancl_into_rtrancl)
  qed
qed simp

lemma receipt_clients_write: "receipt_clients fs fs' \<Longrightarrow> receipt_store.writes\<^sup>*\<^sup>* fs fs'"
proof (induction rule: receipt_clients.induct)
  case (create fs fs1 others r fs2 e)
  from receipt_create_interrupted [OF create.hyps(3)]
  have "receipt_store.writes fs1 fs2 \<or> receipt_store.writes (others fs1) fs2" by blast
  then show ?case
  proof
    assume "receipt_store.writes fs1 fs2"
    with create.IH(1) show ?case by (rule rtranclp.rtrancl_into_rtrancl)
  next
    assume "receipt_store.writes (others fs1) fs2"
    with rtranclp_trans [OF create.IH] show ?case by (rule rtranclp.rtrancl_into_rtrancl)
  qed
qed simp

text \<open>
  Claim C14. The plan store writes a plan once: after a plan was created, whatever is created in
  between and in whatever order, a second creation under the same id succeeds only with exactly the
  same plan and returns the envelope of the first; and the plan can be read.
\<close>

theorem plan_written_once:
  assumes "plan_store_create id fs p = Inr (fs1, e)" "good_plan p" "plan_clients fs1 fs2"
    and "plan_store_create id fs2 q = Inr (fs3, e')" "good_plan q" "pl_plan_id q = pl_plan_id p"
  shows "q = p \<and> e' = e \<and> plan_store_read fs3 (pl_plan_id p) = Inr (Some e) \<and> env_value e = p"
  using plan_store.written_once [OF assms(1,2) plan_clients_write [OF assms(3)] assms(4-6)]
    plan_store.create_reads [OF assms(4,5)] assms(6) by auto

text \<open>
  The receipt store writes a stage receipt once, in the same sense: the evidence of a stage
  that ran is never replaced by other evidence.
\<close>

theorem receipt_written_once:
  assumes "receipt_store_create id fs r = Inr (fs1, e)" "good_receipt r" "receipt_clients fs1 fs2"
    and "receipt_store_create id fs2 q = Inr (fs3, e')" "good_receipt q" "sr_receipt_id q = sr_receipt_id r"
  shows "q = r \<and> e' = e \<and> receipt_store_read fs3 (sr_receipt_id r) = Inr (Some e) \<and> env_value e = r"
  using receipt_store.written_once [OF assms(1,2) receipt_clients_write [OF assms(3)] assms(4-6)]
    receipt_store.create_reads [OF assms(4,5)] assms(6) by auto

section \<open>The effect receipts\<close>

interpretation effect_store: revisioned_store effect_repo er_receipt_id "\<lambda>r. effect_check r = None" effect_step
proof unfold_locales
  show "effect_check r = None \<Longrightarrow> codec_keeps effect_repo r" for r by (rule effect_codec_keeps)
  show "effect_step c r \<Longrightarrow> effect_check r = None" for c r by (rule effect_step_props)
  show "effect_step c r \<Longrightarrow> er_receipt_id r = er_receipt_id c" for c r
    using effect_step_props(2) [of c r] by (simp add: effect_identity_of_def)
qed

text \<open>
  Clients of the store: they create receipts, and save a transition of a receipt they read earlier
  against the revision they read; other clients act in between.
\<close>

inductive effect_clients :: "files \<Rightarrow> files \<Rightarrow> bool" where
  quiet: "effect_clients fs fs"
| create: "effect_clients fs fs1 \<Longrightarrow> effect_store_create fs1 r = Inr (fs2, e) \<Longrightarrow> effect_clients fs fs2"
| save: "effect_clients fs fs1 \<Longrightarrow> effect_store_read fs1 i = Inr (Some e) \<Longrightarrow> effect_clients fs1 fs2 \<Longrightarrow>
    transition_effect_receipt (env_value e) s now a = Inr r \<Longrightarrow>
    effect_store_save fs2 r (env_revision e) = Inr (fs3, e') \<Longrightarrow> effect_clients fs fs3"

lemma effect_store_repo:
  "effect_store_create fs r = Inr x \<longleftrightarrow> effect_check r = None \<and> repo_create effect_repo fs (er_receipt_id r) r = Inr x"
  "effect_store_save fs r v = Inr x \<longleftrightarrow> effect_check r = None \<and> repo_save effect_repo fs (er_receipt_id r) r v = Inr x"
  by (auto simp: effect_store_create_def effect_store_save_def validate_effect_receipt_def bind_result_Inr_iff)

lemma effect_clients_revision: "effect_clients fs fs' \<Longrightarrow> effect_store.clients fs fs'"
proof (induction rule: effect_clients.induct)
  case (quiet fs)
  show ?case by (rule revision_clients.quiet)
next
  case (create fs fs1 r fs2 e)
  then show ?case by (auto simp: effect_store_repo intro: revision_clients.create)
next
  case (save fs fs1 i e fs2 s now a r fs3 e')
  have "effect_step (env_value e) r" using save.hyps(4) by (rule effect_step.intros)
  with save show ?case
    by (auto simp: effect_store_repo effect_store_read_def intro: revision_clients.save)
qed

text \<open>
  Claim C13. Whatever clients of the effect receipt store do, and however their reads and writes
  interleave, a stored receipt is never lost or overwritten by a stale writer: the receipt that is
  stored later comes from the one stored now by a chain of permitted transitions, one per revision.
\<close>

theorem effect_store_history:
  assumes "effect_clients fs fs'" "filed_under effect_repo er_receipt_id fs" "effect_store_read fs i = Inr (Some e)"
  shows "\<exists>e'. effect_store_read fs' i = Inr (Some e') \<and> env_revision e \<le> env_revision e' \<and>
    (effect_step ^^ nat (env_revision e' - env_revision e)) (env_value e) (env_value e')"
  using effect_store.record_history [OF effect_clients_revision [OF assms(1)] assms(2)] assms(3)
  unfolding effect_store_read_def .

section \<open>Acceptances\<close>

lemma acceptance_codec_keeps:
  assumes "ac_schema_version a = EXECUTION_PLAN_SCHEMA_VERSION" "validate_acceptance_id (ac_acceptance_id a) = None"
    "validate_plan_id (ac_plan_id a) = None" "length (ac_plan_hash a) = 64"
  shows "codec_keeps acceptance_repo a"
proof (rule codec_keepsI)
  let ?p = "acceptance_payload a"
  have d: "distinct (map fst ?p)" by (simp add: acceptance_payload_def)
  have keys: "same_keys (file_dict ?p) [''acceptance_id'', ''plan_id'', ''plan_hash'', ''workspace_id'', ''task_id'', ''accepted_at'', ''schema_version'']"
    unfolding same_keys_def file_dict_def keys_sorted by (simp add: acceptance_payload_def)
  have "acceptance_from_payload (file_dict ?p) = Inr a"
    unfolding acceptance_from_payload_def stored_lookups [OF d]
    using keys assms by (cases a) (simp add: acceptance_payload_def)
  then show "sr_decode acceptance_repo (file_dict (sr_encode acceptance_repo a)) = Inr a"
    by (simp add: acceptance_repo_def)
qed

lemma valid_plan_ids:
  assumes "validate_execution_plan p = Inr q"
  shows "fullmatch PLAN_ID (pl_plan_id p)" "length (pl_plan_hash p) = 64"
proof -
  from assms obtain x where x: "recreate_plan p = Inr x" "pl_plan_hash p = pl_plan_hash x"
    and "fullmatch PLAN_ID (pl_plan_id p)"
    by (auto simp: validate_execution_plan_def elim!: bind_result_InrE split: if_splits)
  then show "fullmatch PLAN_ID (pl_plan_id p)" by blast
  from x(1) obtain v where "pl_plan_hash x = content_digest v"
    by (auto simp: recreate_plan_def create_execution_plan_def bind_result_Inr_iff Let_def)
  then show "length (pl_plan_hash p) = 64" using x(2) content_digest_SHA64 [of v] by (simp add: SHA64_def fullmatch_Rep)
qed

lemma new_acceptanceE:
  assumes "new_plan_acceptance p acceptance_id task_id accepted_at = Inr a"
  shows "a = \<lparr>ac_acceptance_id = acceptance_id, ac_plan_id = pl_plan_id p, ac_plan_hash = pl_plan_hash p,
         ac_workspace_id = pl_workspace_id p, ac_task_id = task_id, ac_accepted_at = accepted_at,
         ac_schema_version = EXECUTION_PLAN_SCHEMA_VERSION\<rparr> \<and> fullmatch PLAN_ID (pl_plan_id p) \<and> length (pl_plan_hash p) = 64"
  using assms valid_plan_ids [of p]
  by (auto simp: new_plan_acceptance_def elim!: bind_result_InrE split: if_splits)

text \<open>
  Claim C16. Whatever acceptance the store returns for a plan, newly written, repeated under the same
  id or found under another one, binds exactly the given plan: its id, its content hash and the
  given task; and it is the stored one.
\<close>

theorem accepted_plan_bound:
  assumes "accept_plan others fs p acceptance_id task_id accepted_at = Inr (fs', e)"
  shows "ac_plan_id (env_value e) = pl_plan_id p \<and> ac_plan_hash (env_value e) = pl_plan_hash p \<and>
    ac_task_id (env_value e) = task_id \<and> acceptance_store_read fs' (env_record_id e) = Inr (Some e)"
proof -
  from assms obtain a where "new_plan_acceptance p acceptance_id task_id accepted_at = Inr a"
    unfolding accept_plan_def by (rule bind_result_InrE)
  note n = this and a = new_acceptanceE [OF this]
  from assms obtain existing where x: "repo_read acceptance_repo fs acceptance_id = Inr existing"
    unfolding accept_plan_def n bind_result_simps by (rule bind_result_InrE)
  show ?thesis
  proof (cases existing)
    case (Some c)
    with assms x have "e = c" "fs' = fs" "env_value e = a"
      unfolding accept_plan_def n by (simp_all split: if_splits)
    moreover have "env_record_id c = acceptance_id" using x Some by (auto elim: repo_readE)
    ultimately show ?thesis using a x Some by (simp add: acceptance_store_read_def)
  next
    case None
    with assms x obtain page where page: "repo_list acceptance_repo fs 2000 = Inr page"
      unfolding accept_plan_def n by (auto elim: bind_result_InrE)
    let ?cs = "filter (\<lambda>e. ac_plan_id (env_value e) = pl_plan_id p) (sp_records page)"
    show ?thesis
    proof (cases ?cs)
      case Nil
      with assms x page None have c: "repo_create acceptance_repo (others fs) acceptance_id a = Inr (fs', e)"
        unfolding accept_plan_def n by simp
      then have id: "validate_acceptance_id acceptance_id = None"
        by (auto simp: repo_id_def record_id_check_def acceptance_repo_def elim!: repo_createE split: option.splits)
      have "codec_keeps acceptance_repo a"
        using a id by (intro acceptance_codec_keeps) (auto simp: validate_plan_id_def)
      with repo_create_reads(1) [OF c] repo_create_fresh(2) [OF c] a show ?thesis
        by (simp add: new_envelope_def acceptance_store_read_def)
    next
      case (Cons c cs)
      then have "c \<in> set ?cs" by simp
      then have m: "c \<in> set (sp_records page)" "ac_plan_id (env_value c) = pl_plan_id p" by auto
      from assms x page None Cons have "e = c" "fs' = fs" "ac_plan_hash (env_value c) = pl_plan_hash p"
        "ac_task_id (env_value c) = task_id"
        unfolding accept_plan_def n by (simp_all split: if_splits)
      with m repo_list_reads [OF page m(1)] show ?thesis by (simp add: acceptance_store_read_def)
    qed
  qed
qed

subsection \<open>Witnesses\<close>

lemma short_id_record:
  assumes "fullmatch (short_id (p # ps)) i" "is_ascii_alnum p" "\<forall>c \<in> set ps. is_ascii_alnum c \<or> c = CHR ''-''"
    "length ps \<le> 100" "v i = None"
  shows "record_id_check v i = None"
proof -
  from assms(1) obtain r where i: "i = (p # ps) @ r" "\<forall>c \<in> set r. is_lower_hex c" "length r = 24"
    by (auto simp: short_id_def fullmatch_lit_Rep simp del: lit.simps)
  have hex: "is_ascii_alnum c" if "is_lower_hex c" for c
    using that by (auto simp: is_lower_hex_def is_ascii_alnum_def is_digit_def is_ascii_lower_def in_range_def)
  have slash: "\<not> is_ascii_alnum CHR ''/''" "\<not> is_ascii_alnum CHR 0x5C" by code_simp+
  have "fullmatch SAFE_RECORD_ID i"
    unfolding SAFE_RECORD_ID_def fullmatch_One_Rep using i hex assms(2-4) by auto
  moreover have "\<forall>c \<in> set i. is_ascii_alnum c \<or> c = CHR ''-''" using i hex assms(2,3) by auto
  then have "CHR ''/'' \<notin> set i" "CHR 0x5C \<notin> set i" using slash by force+
  ultimately show ?thesis using assms(5) by (simp add: record_id_check_def)
qed

lemma prefix_letters:
  "is_ascii_alnum CHR ''p''" "\<forall>c \<in> set ''lan-''. is_ascii_alnum c \<or> c = CHR ''-''"
  "is_ascii_alnum CHR ''r''" "\<forall>c \<in> set ''eceipt-''. is_ascii_alnum c \<or> c = CHR ''-''"
  by code_simp+

lemma plan_repo_id:
  assumes "fullmatch PLAN_ID i"
  shows "repo_id plan_repo i = Inr ()"
proof -
  have "validate_plan_id i = None" using assms by (simp add: validate_plan_id_def)
  from short_id_record [of _ _ i validate_plan_id, OF assms [unfolded PLAN_ID_def] prefix_letters(1,2) _ this]
  show ?thesis by (simp add: repo_id_def plan_repo_def)
qed

lemma receipt_record_id:
  assumes "fullmatch RECEIPT_ID i"
  shows "record_id_check (validate_receipt_id m) i = None"
proof -
  have "validate_receipt_id m i = None" using assms by (simp add: validate_receipt_id_def)
  from short_id_record [of _ _ i "validate_receipt_id m", OF assms [unfolded RECEIPT_ID_def, folded short_id_def] prefix_letters(3,4) _ this]
  show ?thesis by simp
qed

lemma receipt_repo_ids:
  assumes "fullmatch RECEIPT_ID i"
  shows "repo_id receipt_repo i = Inr ()" "repo_id effect_repo i = Inr ()"
  using receipt_record_id [OF assms] by (simp_all add: repo_id_def receipt_repo_def effect_repo_def)

lemma example_stored_plan:
  assumes p: "example_plan = Inr p"
  shows "good_plan p" "validate_execution_plan p = Inr p"
    "\<exists>fs. plan_store_create id [] p = Inr (fs, new_envelope plan_repo (pl_plan_id p) 1 p)"
proof -
  show good: "good_plan p" and valid: "validate_execution_plan p = Inr p"
    using created_plan_valid [OF p [unfolded example_plan_def]] example_binding_valid example_stages_valid
    by (simp_all add: good_plan_def list_all_iff)
  have fields: "pl_task_id p = Some ''task-1''" "pl_workspace_id p = ''ws-1''" "pl_final_profile p = ''full''"
    "pl_created_at p = clock 0" "pl_expires_at p = Some (clock 9)" "pl_binding p = example_binding"
    "pl_ordered_stages p = example_plan_stages" "pl_schema_version p = EXECUTION_PLAN_SCHEMA_VERSION"
    "\<exists>v. pl_stage_definition_hash p = content_digest v" "\<exists>v. pl_plan_id p = ''plan-'' @ take 24 (content_digest v)"
    using p by (auto simp: example_plan_def create_execution_plan_def bind_result_Inr_iff Let_def stage_definitions_hash_def)
  have digests: "length (pl_stage_definition_hash p) = 64" "length (pl_plan_id p) = 29"
    using fields(9,10) content_digest_SHA64 by (auto simp: SHA64_def fullmatch_Rep)
  have "json_weight 0 (VDict (envelope_dict plan_repo (new_envelope plan_repo (pl_plan_id p) 1 p))) \<le> 40000"
    using digests valid_plan_ids(2) [OF valid]
    by (simp add: envelope_dict_def plan_repo_def new_envelope_def plan_payload_def plan_semantic_def fields
        plan_binding_payload_def plan_stage_payload_def of_strings_def of_opt_def example_binding_def Let_def
        example_plan_stages_def example_stage_def length_clock str_of_int_def str_of_nat.simps
        EXECUTION_PLAN_SCHEMA_VERSION_def kind_value_def boundary_value_def mutability_value_def policy_value_def)
  then obtain fs where "repo_create plan_repo [] (pl_plan_id p) p = Inr (fs, new_envelope plan_repo (pl_plan_id p) 1 p)"
    using repo_create_fits [of plan_repo "pl_plan_id p" "[]" p 40000] plan_repo_id [OF valid_plan_ids(1) [OF valid]]
    by (auto simp: plan_repo_def)
  moreover have "repo_read plan_repo [] (pl_plan_id p) = Inr None"
    using plan_repo_id [OF valid_plan_ids(1) [OF valid]] by (simp add: repo_read_def read_file_def)
  ultimately show "\<exists>fs. plan_store_create id [] p = Inr (fs, new_envelope plan_repo (pl_plan_id p) 1 p)"
    using valid by (simp add: plan_store_create_def)
qed

theorem plan_written_once_witness:
  "\<exists>p fs e. example_plan = Inr p \<and> plan_store_create id [] p = Inr (fs, e) \<and> plan_store_create id fs p = Inr (fs, e) \<and>
     plan_store_read fs (pl_plan_id p) = Inr (Some e)"
proof -
  obtain p where p: "example_plan = Inr p" using example_plan_created by blast
  note s = example_stored_plan [OF p]
  obtain fs where c: "plan_store_create id [] p = Inr (fs, new_envelope plan_repo (pl_plan_id p) 1 p)" (is "_ = Inr (_, ?e)")
    using s(3) by blast
  have "plan_store_create id fs p = Inr (fs, ?e)"
    using plan_store.create_reads [OF c s(1)] by (simp add: plan_store_create_def plan_store_read_def)
  from c this plan_written_once [OF c s(1) plan_clients.quiet this s(1) refl] p show ?thesis by blast
qed

lemma example_stored_receipt:
  assumes r: "create_stage_receipt example_receipt_arguments = Inr r"
  shows "good_receipt r" "\<exists>fs. receipt_store_create id [] r = Inr (fs, new_envelope receipt_repo (sr_receipt_id r) 1 r)"
proof -
  note valid = created_receipt_valid [OF r]
  obtain v where rv: "r = example_receipt_arguments\<lparr>sr_receipt_id := ''receipt-'' @ take 24 (content_digest v)\<rparr>"
    using r by (auto simp: create_stage_receipt_def example_receipt_arguments_def Let_def EXECUTION_RECEIPT_SCHEMA_VERSION_def)
  then show "good_receipt r"
    using example_parts_valid by (simp add: good_receipt_def example_receipt_arguments_def Let_def)
  have id: "fullmatch RECEIPT_ID (sr_receipt_id r)" using RECEIPT_ID_digest [of v] by (simp add: rv)
  have "length (sr_receipt_id r) = 32" using content_digest_SHA64 [of v] by (simp add: rv SHA64_def fullmatch_Rep)
  then have "json_weight 0 (VDict (envelope_dict receipt_repo (new_envelope receipt_repo (sr_receipt_id r) 1 r))) \<le> 40000"
    by (simp add: envelope_dict_def receipt_repo_def new_envelope_def receipt_payload_def receipt_semantic_def rv
        identity_payload_def artifact_payload_def of_strings_def of_opt_def example_receipt_arguments_def Let_def
        example_identity_def example_artifact_def length_clock str_of_int_def str_of_nat.simps
        EXECUTION_RECEIPT_SCHEMA_VERSION_def cache_status_value_def receipt_status_value_def)
  then obtain fs where "repo_create receipt_repo [] (sr_receipt_id r) r = Inr (fs, new_envelope receipt_repo (sr_receipt_id r) 1 r)"
    using repo_create_fits [of receipt_repo "sr_receipt_id r" "[]" r 40000] receipt_repo_ids(1) [OF id]
    by (auto simp: receipt_repo_def)
  moreover have "repo_read receipt_repo [] (sr_receipt_id r) = Inr None"
    using receipt_repo_ids(1) [OF id] by (simp add: repo_read_def read_file_def)
  ultimately show "\<exists>fs. receipt_store_create id [] r = Inr (fs, new_envelope receipt_repo (sr_receipt_id r) 1 r)"
    using valid by (simp add: receipt_store_create_def)
qed

theorem receipt_written_once_witness:
  "\<exists>r fs e. create_stage_receipt example_receipt_arguments = Inr r \<and> receipt_store_create id [] r = Inr (fs, e) \<and>
     receipt_store_create id fs r = Inr (fs, e) \<and> receipt_store_read fs (sr_receipt_id r) = Inr (Some e)"
proof -
  obtain r where r: "create_stage_receipt example_receipt_arguments = Inr r" using example_receipt_created by blast
  note s = example_stored_receipt [OF r]
  obtain fs where c: "receipt_store_create id [] r = Inr (fs, new_envelope receipt_repo (sr_receipt_id r) 1 r)" (is "_ = Inr (_, ?e)")
    using s(2) by blast
  have "receipt_store_create id fs r = Inr (fs, ?e)"
    using receipt_store.create_reads [OF c s(1)] created_receipt_valid [OF r]
    by (simp add: receipt_store_create_def receipt_store_read_def)
  from c this receipt_written_once [OF c s(1) receipt_clients.quiet this s(1) refl] r show ?thesis by blast
qed

text \<open>A receipt that is accepted, and that a client then moves on.\<close>

lemma example_effect_weight:
  "json_weight 0 (VDict (envelope_dict effect_repo (new_envelope effect_repo ''receipt-000000000000000000000000'' 1
     (example_effect ACCEPTED 0 False None None)))) \<le> 10000"
  "json_weight 0 (VDict (envelope_dict effect_repo (new_envelope effect_repo ''receipt-000000000000000000000000'' (1 + 1)
     (example_effect APPLYING 1 True None None)))) \<le> 10000"
  by (simp_all add: envelope_dict_def effect_repo_def new_envelope_def effect_dict_def example_effect_def
      identity_dict_def of_opt_def length_clock str_of_int_def str_of_nat.simps EFFECT_RECEIPT_SCHEMA_VERSION_def)

lemma example_effect_stored:
  "\<exists>fs fs' e e'. effect_store_create [] (example_effect ACCEPTED 0 False None None) = Inr (fs, e) \<and>
     effect_store_read fs ''receipt-000000000000000000000000'' = Inr (Some e) \<and>
     env_value e = example_effect ACCEPTED 0 False None None \<and> env_revision e = 1 \<and>
     effect_store_save fs (example_effect APPLYING 1 True None None) 1 = Inr (fs', e')"
proof -
  let ?i = "''receipt-000000000000000000000000''" and ?a = "example_effect ACCEPTED 0 False None None"
  have i: "er_receipt_id (example_effect s t b r c) = ?i" for s t b r c by (simp add: example_effect_def)
  have m: "2 * 10000 < sr_max_bytes effect_repo" by (simp add: effect_repo_def)
  obtain fs where c: "repo_create effect_repo [] ?i ?a = Inr (fs, new_envelope effect_repo ?i 1 ?a)"
    using repo_create_fits [OF receipt_repo_ids(2) [OF example_effect_ids(1)] _ example_effect_weight(1) m, of "[]"] by auto
  note r = repo_create_reads(1) [OF c effect_codec_keeps [OF example_effects_valid(1)]]
  obtain fs' e' where "repo_save effect_repo fs ?i (example_effect APPLYING 1 True None None) 1 = Inr (fs', e')"
    using repo_save_fits [OF r _ example_effect_weight(2) m] by (auto simp: new_envelope_def)
  with c r show ?thesis
    using example_effects_valid(1,2) i
    by (auto simp: effect_store_repo effect_store_read_def new_envelope_def)
qed

theorem effect_store_history_witness:
  "\<exists>fs fs' e e'. effect_store_create [] (example_effect ACCEPTED 0 False None None) = Inr (fs, e) \<and>
     effect_store_save fs (example_effect APPLYING 1 True None None) (env_revision e) = Inr (fs', e') \<and>
     (\<exists>x. effect_store_read fs' ''receipt-000000000000000000000000'' = Inr (Some x) \<and> env_revision e \<le> env_revision x \<and>
       (effect_step ^^ nat (env_revision x - env_revision e)) (env_value e) (env_value x))"
proof -
  obtain fs fs' e e' where s: "effect_store_create [] (example_effect ACCEPTED 0 False None None) = Inr (fs, e)"
    "effect_store_read fs ''receipt-000000000000000000000000'' = Inr (Some e)"
    "env_value e = example_effect ACCEPTED 0 False None None" "env_revision e = 1"
    "effect_store_save fs (example_effect APPLYING 1 True None None) 1 = Inr (fs', e')"
    using example_effect_stored by blast
  have "effect_clients fs fs'"
    using effect_clients.save [OF effect_clients.quiet s(2) effect_clients.quiet] example_effect_moves(1) s(3-5) by metis
  moreover have "filed_under effect_repo er_receipt_id fs"
    using effect_store.clients_evolve [OF effect_clients_revision [OF effect_clients.create [OF effect_clients.quiet s(1)]]
        filed_under_empty] by blast
  ultimately show ?thesis using effect_store_history s by metis
qed

lemma example_acceptance_id: "validate_acceptance_id ''acc-1'' = None" "fullmatch SAFE_RECORD_ID ''acc-1''"
  by code_simp+

lemma example_acceptance_repo_id: "repo_id acceptance_repo ''acc-1'' = Inr ()"
  using example_acceptance_id by (simp add: repo_id_def record_id_check_def acceptance_repo_def)

theorem accepted_plan_bound_witness:
  "\<exists>p fs e. example_plan = Inr p \<and> accept_plan id [] p ''acc-1'' (Some ''task-1'') (clock 3) = Inr (fs, e) \<and>
     ac_plan_hash (env_value e) = pl_plan_hash p \<and> acceptance_store_read fs (env_record_id e) = Inr (Some e)"
proof -
  obtain p where p: "example_plan = Inr p" using example_plan_created by blast
  note valid = example_stored_plan(2) [OF p]
  have task: "pl_task_id p = Some ''task-1''" "pl_workspace_id p = ''ws-1''" "\<exists>v. pl_plan_id p = ''plan-'' @ take 24 (content_digest v)"
    using p by (auto simp: example_plan_def create_execution_plan_def bind_result_Inr_iff Let_def)
  let ?a = "\<lparr>ac_acceptance_id = ''acc-1'', ac_plan_id = pl_plan_id p, ac_plan_hash = pl_plan_hash p,
     ac_workspace_id = pl_workspace_id p, ac_task_id = Some ''task-1'', ac_accepted_at = clock 3,
     ac_schema_version = EXECUTION_PLAN_SCHEMA_VERSION\<rparr>"
  have n: "new_plan_acceptance p ''acc-1'' (Some ''task-1'') (clock 3) = Inr ?a"
    using valid task by (simp add: new_plan_acceptance_def plan_iso_def clock_instant [of 3])
  have "length (pl_plan_id p) = 29" using task(3) content_digest_SHA64 by (auto simp: SHA64_def fullmatch_Rep)
  then have w: "json_weight 0 (VDict (envelope_dict acceptance_repo (new_envelope acceptance_repo ''acc-1'' 1 ?a))) \<le> 10000"
    using valid_plan_ids(2) [OF valid] task
    by (simp add: envelope_dict_def acceptance_repo_def new_envelope_def acceptance_payload_def of_opt_def length_clock
        str_of_int_def str_of_nat.simps EXECUTION_PLAN_SCHEMA_VERSION_def)
  obtain fs e where "repo_create acceptance_repo [] ''acc-1'' ?a = Inr (fs, e)"
    using repo_create_fits [OF example_acceptance_repo_id _ w, of "[]"] by (auto simp: acceptance_repo_def)
  then have "accept_plan id [] p ''acc-1'' (Some ''task-1'') (clock 3) = Inr (fs, e)"
    using n example_acceptance_repo_id
    by (simp add: accept_plan_def repo_read_def read_file_def repo_list_def list_ids_def)
  with accepted_plan_bound [OF this] p show ?thesis by blast
qed

end
