(* ===== verification/Iteration_Cache.thy ===== *)
theory Iteration_Cache
  imports Execution_Stores
begin

text \<open>
  The iteration cache: the keys and entries of domain/verification\_dag.py and their store
  adapters/persistence/json\_iteration\_cache.py over the state repository. The files of the workspace
  are a parameter: the bytes of a path that is a regular file and no symbolic link.
\<close>

section \<open>Keys\<close>

record IterationCacheKey =
  ck_cache_key :: string
  ck_workspace_identity :: string
  ck_declared_input_hash :: string
  ck_stage_definition_hash :: string
  ck_target_identity :: string
  ck_working_directory :: string
  ck_environment_identity :: string
  ck_environment_identity_schema_version :: int
  ck_requested_policy_hash :: string
  ck_effective_policy_hash :: string
  ck_toolchain_hash :: string
  ck_lockfile_hash :: string
  ck_config_generation :: string
  ck_policy_hash :: string
  ck_provider_hash :: string
  ck_network_policy :: string
  ck_dependency_receipt_hashes :: "string list"
  ck_schema_version :: int

definition key_payload :: "IterationCacheKey \<Rightarrow> pydict" where
  "key_payload k =
     [(''config_generation'', VStr (ck_config_generation k)),
      (''declared_input_hash'', VStr (ck_declared_input_hash k)),
      (''dependency_receipt_hashes'', of_strings (ck_dependency_receipt_hashes k)),
      (''effective_policy_hash'', VStr (ck_effective_policy_hash k)),
      (''environment_identity'', VStr (ck_environment_identity k)),
      (''environment_identity_schema_version'', VInt (ck_environment_identity_schema_version k)),
      (''lockfile_hash'', VStr (ck_lockfile_hash k)),
      (''network_policy'', VStr (ck_network_policy k)),
      (''policy_hash'', VStr (ck_policy_hash k)),
      (''provider_hash'', VStr (ck_provider_hash k)),
      (''requested_policy_hash'', VStr (ck_requested_policy_hash k)),
      (''schema_version'', VInt (ck_schema_version k)),
      (''stage_definition_hash'', VStr (ck_stage_definition_hash k)),
      (''target_identity'', VStr (ck_target_identity k)),
      (''toolchain_hash'', VStr (ck_toolchain_hash k)),
      (''working_directory'', VStr (ck_working_directory k)),
      (''workspace_identity'', VStr (ck_workspace_identity k))]"

definition compatibility_payload :: "IterationCacheKey \<Rightarrow> pydict" where
  "compatibility_payload k = filter (\<lambda>kv. fst kv \<notin>
     {''effective_policy_hash'', ''environment_identity'', ''environment_identity_schema_version'',
      ''requested_policy_hash'', ''schema_version''}) (key_payload k)"

definition key_checks :: "IterationCacheKey \<Rightarrow> pyval \<Rightarrow> exn option" where
  "key_checks k version = first_error
     (map (\<lambda>(field, v). raise_if (\<not> fullmatch SHA64 v) (state_invalid (''Iteration cache '' @ field @ '' is invalid'')))
        [(''workspace identity'', ck_workspace_identity k),
         (''declared input hash'', ck_declared_input_hash k),
         (''stage definition hash'', ck_stage_definition_hash k),
         (''target identity'', ck_target_identity k),
         (''environment identity'', ck_environment_identity k),
         (''requested policy hash'', ck_requested_policy_hash k),
         (''effective policy hash'', ck_effective_policy_hash k),
         (''toolchain hash'', ck_toolchain_hash k),
         (''lockfile hash'', ck_lockfile_hash k),
         (''configuration generation'', ck_config_generation k),
         (''policy hash'', ck_policy_hash k),
         (''provider hash'', ck_provider_hash k)] @
      [raise_if (case as_int version of None \<Rightarrow> True | Some n \<Rightarrow> n < 1)
         (state_invalid ''Iteration cache environment identity schema version is invalid''),
       raise_if (ck_working_directory k = [] \<or> 512 < length (ck_working_directory k))
         (state_invalid ''Iteration cache working directory is invalid''),
       raise_if (\<not> fullmatch DAG_SAFE_ID (ck_network_policy k))
         (state_invalid ''Iteration cache network policy is invalid''),
       raise_if (64 < length (ck_dependency_receipt_hashes k) \<or>
           (\<exists>v \<in> set (ck_dependency_receipt_hashes k). \<not> fullmatch SHA64 v))
         (state_invalid ''Iteration cache dependency receipt hashes are invalid'')])"

text \<open>
  The keyword arguments are the fields of the argument record, the schema version of the environment
  identity apart, which the decoder passes unchecked; \<open>cache_key\<close> and \<open>schema_version\<close> are not read.
\<close>

definition build_iteration_cache_key :: "IterationCacheKey \<Rightarrow> pyval \<Rightarrow> IterationCacheKey result" where
  "build_iteration_cache_key a version =
     bind_result (checked (key_checks a version) ()) (\<lambda>_.
     let k = a\<lparr>ck_environment_identity_schema_version := (case as_int version of None \<Rightarrow> 0 | Some n \<Rightarrow> n),
               ck_schema_version := ITERATION_CACHE_SCHEMA_VERSION\<rparr>
     in Inr (k\<lparr>ck_cache_key := content_digest (VDict (key_payload k))\<rparr>))"

section \<open>Entries\<close>

record IterationCacheEntry =
  ce_entry_id :: string
  ce_key :: IterationCacheKey
  ce_source_receipt_id :: string
  ce_artifact_digests :: "ArtifactDigest list"
  ce_created_at :: string
  ce_schema_version :: int

definition entry_semantic :: "IterationCacheKey \<Rightarrow> string \<Rightarrow> ArtifactDigest list \<Rightarrow> string \<Rightarrow> pydict" where
  "entry_semantic key source_receipt_id artifacts created_at =
     [(''artifact_digests'', VList (map (\<lambda>a. VDict (artifact_payload a)) artifacts)),
      (''created_at'', VStr created_at), (''key'', VDict (key_payload key)),
      (''source_receipt_id'', VStr source_receipt_id)]"

definition create_iteration_cache_entry ::
  "IterationCacheKey \<Rightarrow> string \<Rightarrow> ArtifactDigest list \<Rightarrow> string \<Rightarrow> IterationCacheEntry result" where
  "create_iteration_cache_entry key source_receipt_id artifacts created_at =
     checked (first_error
       [raise_if (\<not> fullmatch RECEIPT_ID source_receipt_id) (state_invalid ''Iteration cache source receipt id is invalid''),
        raise_if (64 < length artifacts \<or> \<not> distinct (map ad_path artifacts))
          (state_invalid ''Iteration cache artifact digests must be unique and bounded''),
        raise_if (created_at = [] \<or> 80 < length created_at)
          (state_invalid ''Iteration cache creation timestamp is invalid'')])
       \<lparr>ce_entry_id = ''cache-'' @ take 24 (content_digest (VDict (entry_semantic key source_receipt_id artifacts created_at))),
        ce_key = key, ce_source_receipt_id = source_receipt_id, ce_artifact_digests = artifacts,
        ce_created_at = created_at, ce_schema_version = ITERATION_CACHE_SCHEMA_VERSION\<rparr>"

definition cache_entry_payload :: "IterationCacheEntry \<Rightarrow> pydict" where
  "cache_entry_payload e =
     [(''artifact_digests'', VList (map (\<lambda>a. VDict (artifact_payload a)) (ce_artifact_digests e))),
      (''created_at'', VStr (ce_created_at e)), (''entry_id'', VStr (ce_entry_id e)),
      (''key'', VDict ((''cache_key'', VStr (ck_cache_key (ce_key e))) # key_payload (ce_key e))),
      (''schema_version'', VInt (ce_schema_version e)), (''source_receipt_id'', VStr (ce_source_receipt_id e))]"

definition key_arguments :: "pydict \<Rightarrow> string list \<Rightarrow> IterationCacheKey" where
  "key_arguments d dependencies =
     \<lparr>ck_cache_key = '''', ck_workspace_identity = get_str d ''workspace_identity'',
      ck_declared_input_hash = get_str d ''declared_input_hash'',
      ck_stage_definition_hash = get_str d ''stage_definition_hash'',
      ck_target_identity = get_str d ''target_identity'', ck_working_directory = get_str d ''working_directory'',
      ck_environment_identity = get_str d ''environment_identity'', ck_environment_identity_schema_version = 0,
      ck_requested_policy_hash = get_str d ''requested_policy_hash'',
      ck_effective_policy_hash = get_str d ''effective_policy_hash'', ck_toolchain_hash = get_str d ''toolchain_hash'',
      ck_lockfile_hash = get_str d ''lockfile_hash'', ck_config_generation = get_str d ''config_generation'',
      ck_policy_hash = get_str d ''policy_hash'', ck_provider_hash = get_str d ''provider_hash'',
      ck_network_policy = get_str d ''network_policy'', ck_dependency_receipt_hashes = dependencies,
      ck_schema_version = 0\<rparr>"

definition iteration_cache_entry_from_payload :: "pydict \<Rightarrow> IterationCacheEntry result" where
  "iteration_cache_entry_from_payload d =
     (case (as_dict (dict_get_none d ''key''), as_list (dict_get_none d ''artifact_digests'')) of
        (Some raw_key, Some raw_artifacts) \<Rightarrow>
          (case as_list (dict_get_none raw_key ''dependency_receipt_hashes'') of
             None \<Rightarrow> Inl (state_invalid ''Iteration cache dependency hashes payload is invalid'')
           | Some dependencies \<Rightarrow>
             bind_result (build_iteration_cache_key (key_arguments raw_key (map py_str dependencies))
               (get_or raw_key ''environment_identity_schema_version'' (VInt 0))) (\<lambda>key.
             if dict_get_none raw_key ''cache_key'' \<noteq> VStr (ck_cache_key key)
             then Inl (state_invalid ''Iteration cache key digest mismatch'')
             else
               bind_result (map_result (artifact_from ''Iteration cache artifact payload is invalid'') raw_artifacts) (\<lambda>artifacts.
               bind_result (create_iteration_cache_entry key (get_str d ''source_receipt_id'') artifacts (get_str d ''created_at'')) (\<lambda>entry.
               if dict_get_none d ''schema_version'' \<noteq> VInt ITERATION_CACHE_SCHEMA_VERSION
               then Inl (state_invalid ''Iteration cache schema version is unsupported'')
               else if dict_get_none d ''entry_id'' \<noteq> VStr (ce_entry_id entry) \<or> \<not> fullmatch CACHE_ID (ce_entry_id entry)
               then Inl (state_invalid ''Iteration cache entry id digest mismatch'')
               else Inr entry))))
      | _ \<Rightarrow> Inl (state_invalid ''Iteration cache entry payload is incomplete''))"

section \<open>The store\<close>

datatype CacheMissReason =
    MISS_NOT_CACHEABLE | MISS_NOT_FOUND | MISS_CORRUPT | MISS_ARTIFACT_MISSING | MISS_ARTIFACT_MISMATCH
  | MISS_ENVIRONMENT_IDENTITY_SCHEMA_CHANGED

record CacheLookup =
  cl_hit :: bool
  cl_reason :: "CacheMissReason option"
  cl_entry :: "IterationCacheEntry option"

definition validate_cache_id :: "string \<Rightarrow> exn option" where
  "validate_cache_id i = raise_if (\<not> fullmatch CACHE_ID i) (ValueError ''invalid iteration cache entry id'')"

definition cache_repo :: "IterationCacheEntry state_repo" where
  "cache_repo = \<lparr>sr_encode = cache_entry_payload, sr_decode = iteration_cache_entry_from_payload,
     sr_version = ITERATION_CACHE_SCHEMA_VERSION, sr_id_validator = validate_cache_id, sr_max_bytes = 512000\<rparr>"

definition cache_ids :: "files \<Rightarrow> string list" where
  "cache_ids fs = fst (list_ids ''cache-'' fs 2000 0)"

definition LEGACY_KEY_FIELDS :: "string list" where
  "LEGACY_KEY_FIELDS = [''cache_key'', ''workspace_identity'', ''declared_input_hash'', ''stage_definition_hash'',
     ''target_identity'', ''working_directory'', ''environment_identity'', ''toolchain_hash'', ''lockfile_hash'',
     ''config_generation'', ''policy_hash'', ''provider_hash'', ''network_policy'', ''dependency_receipt_hashes'',
     ''schema_version'']"

text \<open>\<open>v == 1\<close>, which holds of \<open>True\<close> too.\<close>

definition equals_one :: "pyval \<Rightarrow> bool" where
  "equals_one v \<longleftrightarrow> v = VInt 1 \<or> v = VBool True"

definition legacy_v1_compatible :: "pydict option \<Rightarrow> IterationCacheKey \<Rightarrow> bool option" where
  "legacy_v1_compatible raw key =
     (case raw of None \<Rightarrow> None
      | Some r \<Rightarrow>
        if \<not> equals_one (dict_get_none r ''schema_version'') then None
        else case dict_get_none r ''payload'' of
          VDict payload \<Rightarrow>
            if \<not> equals_one (dict_get_none payload ''schema_version'') then None
            else (case dict_get_none payload ''key'' of
              VDict k \<Rightarrow>
                if \<not> same_keys k LEGACY_KEY_FIELDS then None
                else if \<not> equals_one (dict_get_none k ''schema_version'') \<or>
                    string_list (dict_get_none k ''dependency_receipt_hashes'') = None \<or>
                    (\<exists>f \<in> set LEGACY_KEY_FIELDS - {''cache_key'', ''dependency_receipt_hashes'', ''schema_version''}.
                       type_name (dict_get_none k f) \<noteq> ''str'') then None
                else Some (list_all (\<lambda>(f, v). dict_get_none k f = v) (compatibility_payload key))
            | _ \<Rightarrow> None)
        | _ \<Rightarrow> None)"

text \<open>The loop of \<open>_scan\<close>: the entries found, whether one was corrupt, and whether one has another schema.\<close>

fun scan_loop :: "files \<Rightarrow> IterationCacheKey option \<Rightarrow> string list \<Rightarrow> (IterationCacheEntry list \<times> bool \<times> bool) result" where
  "scan_loop fs key [] = Inr ([], False, False)"
| "scan_loop fs key (i # is) =
     (let rest = scan_loop fs key is in
      case repo_read cache_repo fs i of
        Inr None \<Rightarrow> rest
      | Inr (Some e) \<Rightarrow> bind_result rest (\<lambda>(es, corrupt, changed). Inr (env_value e # es, corrupt, changed))
      | Inl (RepoForgeError code m) \<Rightarrow>
          if code = ''STATE_SCHEMA_UNSUPPORTED'' then
            (case key of None \<Rightarrow> rest
             | Some k \<Rightarrow>
               (case repo_read_raw cache_repo fs i of
                  Inl (RepoForgeError _ _) \<Rightarrow> bind_result rest (\<lambda>(es, corrupt, changed). Inr (es, True, changed))
                | Inl x \<Rightarrow> Inl x
                | Inr raw \<Rightarrow>
                    (case legacy_v1_compatible raw k of
                       None \<Rightarrow> bind_result rest (\<lambda>(es, corrupt, changed). Inr (es, True, changed))
                     | Some True \<Rightarrow> bind_result rest (\<lambda>(es, corrupt, changed). Inr (es, corrupt, True))
                     | Some False \<Rightarrow> rest)))
          else if code \<in> {''STATE_CORRUPT'', ''STATE_TOO_LARGE''}
          then bind_result rest (\<lambda>(es, corrupt, changed). Inr (es, True, changed))
          else Inl (RepoForgeError code m)
      | Inl x \<Rightarrow> Inl x)"

definition entry_order :: "IterationCacheEntry \<Rightarrow> string list" where
  "entry_order e = [ce_created_at e, ce_entry_id e]"

definition cache_scan :: "files \<Rightarrow> IterationCacheKey option \<Rightarrow> (IterationCacheEntry list \<times> bool \<times> bool) result" where
  "cache_scan fs key =
     bind_result (scan_loop fs key (cache_ids fs)) (\<lambda>(es, corrupt, changed).
       Inr (rev (sort_key entry_order (rev es)), corrupt, changed))"

fun artifact_status :: "(string \<Rightarrow> nat list option) \<Rightarrow> ArtifactDigest list \<Rightarrow> CacheMissReason option" where
  "artifact_status workspace [] = None"
| "artifact_status workspace (a # as) =
     (case workspace (ad_path a) of
        None \<Rightarrow> Some MISS_ARTIFACT_MISSING
      | Some bytes \<Rightarrow> if sha256_hex bytes \<noteq> ad_sha256 a then Some MISS_ARTIFACT_MISMATCH
                       else artifact_status workspace as)"

definition cache_lookup :: "files \<Rightarrow> (string \<Rightarrow> nat list option) \<Rightarrow> IterationCacheKey \<Rightarrow> CacheLookup result" where
  "cache_lookup fs workspace key =
     bind_result (cache_scan fs (Some key)) (\<lambda>(es, corrupt, changed).
       Inr (case filter (\<lambda>e. ck_cache_key (ce_key e) = ck_cache_key key) es of
          e # _ \<Rightarrow> (case artifact_status workspace (ce_artifact_digests e) of
              Some r \<Rightarrow> \<lparr>cl_hit = False, cl_reason = Some r, cl_entry = None\<rparr>
            | None \<Rightarrow> \<lparr>cl_hit = True, cl_reason = None, cl_entry = Some e\<rparr>)
        | [] \<Rightarrow> \<lparr>cl_hit = False,
             cl_reason = Some (if changed then MISS_ENVIRONMENT_IDENTITY_SCHEMA_CHANGED
               else if corrupt then MISS_CORRUPT else MISS_NOT_FOUND), cl_entry = None\<rparr>))"

fun remove_corrupt :: "string list \<Rightarrow> files \<Rightarrow> files result" where
  "remove_corrupt [] fs = Inr fs"
| "remove_corrupt (i # is) fs =
     (case repo_read cache_repo fs i of
        Inr _ \<Rightarrow> remove_corrupt is fs
      | Inl (RepoForgeError code m) \<Rightarrow>
          if code \<in> {''STATE_CORRUPT'', ''STATE_TOO_LARGE''}
          then bind_result (repo_delete cache_repo fs i) (remove_corrupt is)
          else Inl (RepoForgeError code m)
      | Inl x \<Rightarrow> Inl x)"

fun delete_ids :: "string list \<Rightarrow> files \<Rightarrow> files result" where
  "delete_ids [] fs = Inr fs"
| "delete_ids (i # is) fs = bind_result (repo_delete cache_repo fs i) (delete_ids is)"

text \<open>The eviction loop: while there are more than \<open>n\<close> entries, the oldest unprotected one goes.\<close>

function evict :: "nat \<Rightarrow> string set \<Rightarrow> IterationCacheEntry list \<Rightarrow> files \<Rightarrow> files result" where
  "evict n protected es fs =
     (if length es \<le> n then Inr fs
      else case filter (\<lambda>e. ce_entry_id e \<notin> protected) es of
        [] \<Rightarrow> Inr fs
      | victim # _ \<Rightarrow>
         (case repo_delete cache_repo fs (ce_entry_id victim) of
            Inl x \<Rightarrow> Inl x | Inr fs' \<Rightarrow> evict n protected (remove1 victim es) fs'))"
  by auto
termination
proof (relation "measure (\<lambda>(n, protected, es, fs). length es)", goal_cases)
  case (2 n protected es fs victim rest)
  then have "victim \<in> set (filter (\<lambda>e. ce_entry_id e \<notin> protected) es)" by simp
  then show ?case by (auto simp: length_remove1 dest: length_pos_if_in_set)
qed simp

declare evict.simps [simp del]

text \<open>
  \<open>put\<close>. Other processes act on the collection between the first read and the creation
  (\<open>others 0\<close>) and, when the creation finds the entry, before the second read (\<open>others 1\<close>).
\<close>

definition put_create ::
  "(nat \<Rightarrow> files \<Rightarrow> files) \<Rightarrow> files \<Rightarrow> IterationCacheEntry \<Rightarrow> (files \<times> IterationCacheEntry StateEnvelope option) result" where
  "put_create others fs entry =
     bind_result (repo_read cache_repo fs (ce_entry_id entry)) (\<lambda>existing.
     if existing \<noteq> None then Inr (fs, existing)
     else case repo_create cache_repo (others 0 fs) (ce_entry_id entry) entry of
         Inr (fs', _) \<Rightarrow> Inr (fs', None)
       | Inl (RepoForgeError code m) \<Rightarrow>
           if code \<noteq> ''ALREADY_EXISTS'' then Inl (RepoForgeError code m)
           else bind_result (repo_read cache_repo (others 1 (others 0 fs)) (ce_entry_id entry)) (\<lambda>again.
             if again = None
             then Inl (RepoForgeError ''STATE_STALE'' ''Iteration cache entry disappeared after a concurrent create'')
             else Inr (others 1 (others 0 fs), again))
       | Inl x \<Rightarrow> Inl x)"

definition cache_put ::
  "(nat \<Rightarrow> files \<Rightarrow> files) \<Rightarrow> nat \<Rightarrow> files \<Rightarrow> IterationCacheEntry \<Rightarrow> string set \<Rightarrow> (files \<times> IterationCacheEntry) result" where
  "cache_put others max_entries fs entry protected =
     bind_result (remove_corrupt (cache_ids fs) fs) (\<lambda>fs1.
     bind_result (put_create others fs1 entry) (\<lambda>(fs2, existing).
     if existing \<noteq> None \<and> env_value (the existing) \<noteq> entry
     then Inl (RepoForgeError ''ALREADY_EXISTS'' ''Iteration cache entry id is already bound to different content'')
     else
       bind_result (cache_scan fs2 None) (\<lambda>(es, _).
       let stale = filter (\<lambda>e. ck_cache_key (ce_key e) = ck_cache_key (ce_key entry) \<and> ce_entry_id e \<noteq> ce_entry_id entry) es in
       bind_result (delete_ids (filter (\<lambda>i. i \<notin> protected) (map ce_entry_id stale)) fs2) (\<lambda>fs3.
       bind_result (cache_scan fs3 None) (\<lambda>(es', _).
       bind_result (evict max_entries protected (sort_key entry_order es') fs3) (\<lambda>fs4. Inr (fs4, entry)))))))"

definition cache_read :: "files \<Rightarrow> string \<Rightarrow> IterationCacheEntry option result" where
  "cache_read fs i =
     (case repo_read cache_repo fs i of
        Inr e \<Rightarrow> Inr (map_option env_value e)
      | Inl (RepoForgeError code m) \<Rightarrow>
          if code \<in> {''STATE_CORRUPT'', ''STATE_SCHEMA_UNSUPPORTED'', ''STATE_TOO_LARGE''} then Inr None
          else Inl (RepoForgeError code m)
      | Inl x \<Rightarrow> Inl x)"

definition cache_max_entries :: "int \<Rightarrow> nat result" where
  "cache_max_entries n =
     (if \<not> (1 \<le> n \<and> n \<le> 2000) then Inl (state_invalid ''Iteration cache max_entries must be between 1 and 2000'')
      else Inr (nat n))"

section \<open>The codec\<close>

lemma key_arguments_payload:
  "key_arguments ((''cache_key'', VStr c) # key_payload k) (ck_dependency_receipt_hashes k) =
     k\<lparr>ck_cache_key := [], ck_environment_identity_schema_version := 0, ck_schema_version := 0\<rparr>"
  by (simp add: key_arguments_def key_payload_def get_str_def get_or_def)

lemma key_checks_update [simp]:
  "key_checks (k\<lparr>ck_cache_key := c, ck_environment_identity_schema_version := v, ck_schema_version := s\<rparr>) x = key_checks k x"
  by (simp add: key_checks_def)

lemma built_key:
  assumes "build_iteration_cache_key a v = Inr k"
  shows "key_checks k (VInt (ck_environment_identity_schema_version k)) = None"
    "ck_cache_key k = content_digest (VDict (key_payload k))" "ck_schema_version k = ITERATION_CACHE_SCHEMA_VERSION"
proof -
  let ?n = "case as_int v of None \<Rightarrow> 0 | Some n \<Rightarrow> n"
  let ?k = "a\<lparr>ck_environment_identity_schema_version := ?n, ck_schema_version := ITERATION_CACHE_SCHEMA_VERSION\<rparr>"
  have c: "key_checks a v = None" and k: "k = ?k\<lparr>ck_cache_key := content_digest (VDict (key_payload ?k))\<rparr>"
    using assms by (auto simp: build_iteration_cache_key_def bind_result_Inr_iff Let_def)
  then have "(case as_int v of None \<Rightarrow> True | Some n \<Rightarrow> n < 1) = False"
    by (auto simp: key_checks_def simp del: first_error_append)
  then have "as_int v = Some ?n" "as_int (VInt ?n) = Some ?n" by (auto split: option.splits)
  then have "key_checks a (VInt ?n) = None" using c by (simp add: key_checks_def)
  then show "key_checks k (VInt (ck_environment_identity_schema_version k)) = None"
    using k by (simp add: key_checks_def)
  show "ck_cache_key k = content_digest (VDict (key_payload k))" "ck_schema_version k = ITERATION_CACHE_SCHEMA_VERSION"
    using k by (simp_all add: key_payload_def)
qed

lemma rebuild_key:
  assumes "build_iteration_cache_key a v = Inr k"
  shows "build_iteration_cache_key
     (key_arguments ((''cache_key'', VStr c) # key_payload k) (ck_dependency_receipt_hashes k))
     (VInt (ck_environment_identity_schema_version k)) = Inr k"
proof -
  note b = built_key [OF assms]
  have "key_payload (k\<lparr>ck_cache_key := [], ck_schema_version := ITERATION_CACHE_SCHEMA_VERSION\<rparr>) = key_payload k"
    using b(3) by (simp add: key_payload_def)
  moreover have "k\<lparr>ck_schema_version := ITERATION_CACHE_SCHEMA_VERSION, ck_cache_key := content_digest (VDict (key_payload k))\<rparr> = k"
    using b(2,3) by (cases k) simp
  ultimately show ?thesis
    unfolding key_arguments_payload build_iteration_cache_key_def
    using b(1) by (simp add: Let_def)
qed

lemma CACHE_ID_digest: "fullmatch CACHE_ID (''cache-'' @ take 24 (content_digest v))"
  unfolding CACHE_ID_def by (rule short_id_digest)

text \<open>
  A cache entry made for a built key is decoded from its payload to exactly the same entry.
\<close>

theorem cache_entry_roundtrip:
  assumes "build_iteration_cache_key a v = Inr key"
    and "create_iteration_cache_entry key source artifacts created_at = Inr e"
    and "\<And>x. x \<in> set artifacts \<Longrightarrow> artifact_check x = None"
  shows "iteration_cache_entry_from_payload (cache_entry_payload e) = Inr e"
proof -
  have fields: "ce_key e = key" "ce_source_receipt_id e = source" "ce_artifact_digests e = artifacts"
      "ce_created_at e = created_at" "ce_schema_version e = ITERATION_CACHE_SCHEMA_VERSION"
      "fullmatch CACHE_ID (ce_entry_id e)"
    using assms(2) CACHE_ID_digest by (auto simp: create_iteration_cache_entry_def)
  have arts: "map_result (artifact_from m) (map (\<lambda>a. VDict (artifact_payload a)) artifacts) = Inr artifacts" for m
    using assms(3) by (rule artifacts_decode)
  let ?raw = "(''cache_key'', VStr (ck_cache_key key)) # key_payload key"
  have key: "dict_get_none ?raw ''cache_key'' = VStr (ck_cache_key key)"
      "dict_get_none ?raw ''dependency_receipt_hashes'' = VList (map VStr (ck_dependency_receipt_hashes key))"
      "get_or ?raw ''environment_identity_schema_version'' (VInt 0) = VInt (ck_environment_identity_schema_version key)"
    by (simp_all add: key_payload_def dict_get_none_def get_or_def of_strings_def)
  have entry: "dict_get_none (cache_entry_payload e) ''key'' = VDict ?raw"
      "dict_get_none (cache_entry_payload e) ''artifact_digests'' = VList (map (\<lambda>a. VDict (artifact_payload a)) artifacts)"
      "get_str (cache_entry_payload e) ''source_receipt_id'' = source"
      "get_str (cache_entry_payload e) ''created_at'' = created_at"
      "dict_get_none (cache_entry_payload e) ''schema_version'' = VInt ITERATION_CACHE_SCHEMA_VERSION"
      "dict_get_none (cache_entry_payload e) ''entry_id'' = VStr (ce_entry_id e)"
    using fields by (simp_all add: cache_entry_payload_def dict_get_none_def get_str_def get_or_def)
  have strs: "map py_str (map VStr ss) = ss" for ss by (simp add: comp_def)
  show ?thesis
    unfolding iteration_cache_entry_from_payload_def entry payload_lookups key strs
    using rebuild_key [OF assms(1)] key arts assms(2) fields(6)
    by (simp add: key strs del: map_map)
qed

section \<open>Lookup\<close>

lemma decoded_entry:
  assumes "iteration_cache_entry_from_payload d = Inr e"
  shows "ck_cache_key (ce_key e) = content_digest (VDict (key_payload (ce_key e)))"
    "ce_entry_id e = ''cache-'' @ take 24 (content_digest (VDict
       (entry_semantic (ce_key e) (ce_source_receipt_id e) (ce_artifact_digests e) (ce_created_at e))))"
proof -
  obtain a v key src as t where k: "build_iteration_cache_key a v = Inr key"
    and "create_iteration_cache_entry key src as t = Inr e"
    using assms
    by (auto simp: iteration_cache_entry_from_payload_def bind_result_Inr_iff split: option.splits if_splits)
  from this(2) have "ce_key e = key" "ce_entry_id e = ''cache-'' @ take 24 (content_digest (VDict
       (entry_semantic (ce_key e) (ce_source_receipt_id e) (ce_artifact_digests e) (ce_created_at e))))"
    by (auto simp: create_iteration_cache_entry_def)
  then show "ck_cache_key (ce_key e) = content_digest (VDict (key_payload (ce_key e)))"
    "ce_entry_id e = ''cache-'' @ take 24 (content_digest (VDict
       (entry_semantic (ce_key e) (ce_source_receipt_id e) (ce_artifact_digests e) (ce_created_at e))))"
    using built_key(2) [OF k] by simp_all
qed

lemma repo_read_decoded:
  assumes "repo_read cfg fs i = Inr (Some e)"
  obtains p where "sr_decode cfg p = Inr (env_value e)"
proof -
  from assms obtain f where "decode_envelope cfg f i = Inr e"
    by (auto simp: repo_read_def elim!: bind_result_InrE split: option.splits)
  then show thesis
    using that by (auto simp: decode_envelope_def bind_result_Inr_iff split: if_splits json_file.splits pyval.splits sum.splits prod.splits)
qed

lemma scan_loop_reads:
  "scan_loop fs key is = Inr (es, corrupt, changed) \<Longrightarrow> e \<in> set es \<Longrightarrow>
     \<exists>i \<in> set is. \<exists>env. repo_read cache_repo fs i = Inr (Some env) \<and> env_value env = e"
proof (induction "is" arbitrary: es corrupt changed)
  case (Cons i "is")
  then show ?case
    by (auto simp: Let_def bind_result_Inr_iff split: sum.splits option.splits exn.splits if_splits bool.splits)
qed simp

lemma artifact_status_None:
  "artifact_status workspace as = None \<longleftrightarrow>
     (\<forall>a \<in> set as. \<exists>bytes. workspace (ad_path a) = Some bytes \<and> sha256_hex bytes = ad_sha256 a)"
  by (induction as) (auto split: option.splits)

text \<open>
  Claim C15. A cache hit is sound: the entry was read from the store, its key is the one asked for,
  both its digests are those of its content, and every artifact it names is a regular file of the
  workspace whose bytes have the recorded digest.
\<close>

theorem cache_hit_sound:
  assumes "cache_lookup fs workspace key = Inr l" "cl_hit l"
  shows "\<exists>e env i. cl_entry l = Some e \<and> repo_read cache_repo fs i = Inr (Some env) \<and> env_value env = e \<and>
    ck_cache_key (ce_key e) = ck_cache_key key \<and>
    ck_cache_key (ce_key e) = content_digest (VDict (key_payload (ce_key e))) \<and>
    ce_entry_id e = ''cache-'' @ take 24 (content_digest (VDict
      (entry_semantic (ce_key e) (ce_source_receipt_id e) (ce_artifact_digests e) (ce_created_at e)))) \<and>
    (\<forall>a \<in> set (ce_artifact_digests e). \<exists>bytes. workspace (ad_path a) = Some bytes \<and> sha256_hex bytes = ad_sha256 a)"
proof -
  obtain es corrupt changed where s: "scan_loop fs (Some key) (cache_ids fs) = Inr (es, corrupt, changed)"
    and l: "l = (case filter (\<lambda>e. ck_cache_key (ce_key e) = ck_cache_key key) (rev (sort_key entry_order (rev es))) of
          e # _ \<Rightarrow> (case artifact_status workspace (ce_artifact_digests e) of
              Some r \<Rightarrow> \<lparr>cl_hit = False, cl_reason = Some r, cl_entry = None\<rparr>
            | None \<Rightarrow> \<lparr>cl_hit = True, cl_reason = None, cl_entry = Some e\<rparr>)
        | [] \<Rightarrow> \<lparr>cl_hit = False,
             cl_reason = Some (if changed then MISS_ENVIRONMENT_IDENTITY_SCHEMA_CHANGED
               else if corrupt then MISS_CORRUPT else MISS_NOT_FOUND), cl_entry = None\<rparr>)"
    using assms(1) by (auto simp: cache_lookup_def cache_scan_def bind_result_Inr_iff)
  from l assms(2) obtain e rest where
    e: "filter (\<lambda>e. ck_cache_key (ce_key e) = ck_cache_key key) (rev (sort_key entry_order (rev es))) = e # rest"
    and status: "artifact_status workspace (ce_artifact_digests e) = None" "cl_entry l = Some e"
    by (auto split: list.splits option.splits)
  have "e \<in> set (filter (\<lambda>e. ck_cache_key (ce_key e) = ck_cache_key key) (rev (sort_key entry_order (rev es))))"
    unfolding e by simp
  then have in_es: "e \<in> set es" and key: "ck_cache_key (ce_key e) = ck_cache_key key" by auto
  obtain i env where env: "repo_read cache_repo fs i = Inr (Some env)" "env_value env = e"
    using scan_loop_reads [OF s in_es] by blast
  then obtain d where "iteration_cache_entry_from_payload d = Inr e"
    using repo_read_decoded [OF env(1)] by (auto simp: cache_repo_def)
  then show ?thesis
    using env key status decoded_entry artifact_status_None by blast
qed

section \<open>Entries of another schema\<close>

lemma repo_read_delete: "j \<noteq> i \<Longrightarrow> repo_delete cfg fs j = Inr fs' \<Longrightarrow> repo_read cfg fs' i = repo_read cfg fs i"
  by (auto simp: repo_delete_def repo_read_def read_file_def map_of_delete_file bind_result_Inr_iff)

lemma remove_corrupt_blocked:
  assumes "i \<in> set is" "repo_read cache_repo fs i = Inl (RepoForgeError ''STATE_SCHEMA_UNSUPPORTED'' m)"
  shows "\<exists>x. remove_corrupt is fs = Inl x"
  using assms
proof (induction "is" arbitrary: fs)
  case (Cons j "is")
  show ?case
  proof (cases "j = i")
    case True
    with Cons.prems(2) show ?thesis by simp
  next
    case False
    then have i: "i \<in> set is" using Cons.prems(1) by simp
    show ?thesis
    proof (cases "repo_read cache_repo fs j")
      case (Inr r)
      with Cons.IH [OF i Cons.prems(2)] show ?thesis by simp
    next
      case (Inl x)
      show ?thesis
      proof (cases "repo_delete cache_repo fs j")
        case (Inr fs')
        then have "repo_read cache_repo fs' i = Inl (RepoForgeError ''STATE_SCHEMA_UNSUPPORTED'' m)"
          using repo_read_delete [OF False Inr] Cons.prems(2) by simp
        from Cons.IH [OF i this] Inl Inr show ?thesis by (cases x) auto
      qed (use Inl in \<open>cases x, auto\<close>)
    qed
  qed
qed simp

text \<open>
  Claim C23. One entry written under another schema version blocks the cache: as long as it is among
  the scanned files every \<open>put\<close> raises, because the pass that removes corrupt entries does not
  expect what the lookup scan handles as a schema change.
\<close>

theorem other_schema_blocks_put:
  assumes "i \<in> set (cache_ids fs)" "repo_read cache_repo fs i = Inl (RepoForgeError ''STATE_SCHEMA_UNSUPPORTED'' m)"
  shows "\<exists>x. cache_put others n fs entry protected = Inl x"
  using remove_corrupt_blocked [OF assms] by (auto simp: cache_put_def)

subsection \<open>Witnesses\<close>

lemma stored_key_arguments:
  fixes k :: IterationCacheKey
  defines "raw \<equiv> (''cache_key'', VStr (ck_cache_key k)) # key_payload k"
  shows "key_arguments (file_dict raw) (ck_dependency_receipt_hashes k) = key_arguments raw (ck_dependency_receipt_hashes k)"
    "dict_get_none (file_dict raw) ''cache_key'' = VStr (ck_cache_key k)"
    "dict_get_none (file_dict raw) ''dependency_receipt_hashes'' = VList (map VStr (ck_dependency_receipt_hashes k))"
    "get_or (file_dict raw) ''environment_identity_schema_version'' (VInt 0) = VInt (ck_environment_identity_schema_version k)"
proof -
  have d: "distinct (map fst raw)" by (simp add: raw_def key_payload_def)
  show "key_arguments (file_dict raw) (ck_dependency_receipt_hashes k) = key_arguments raw (ck_dependency_receipt_hashes k)"
    unfolding key_arguments_def stored_lookups [OF d] by (simp add: raw_def key_payload_def get_str_def get_or_def)
  show "dict_get_none (file_dict raw) ''cache_key'' = VStr (ck_cache_key k)"
    "dict_get_none (file_dict raw) ''dependency_receipt_hashes'' = VList (map VStr (ck_dependency_receipt_hashes k))"
    "get_or (file_dict raw) ''environment_identity_schema_version'' (VInt 0) = VInt (ck_environment_identity_schema_version k)"
    unfolding stored_lookups [OF d] by (simp_all add: raw_def key_payload_def of_strings_def)
qed

lemma cache_codec_keeps:
  assumes "build_iteration_cache_key a v = Inr key"
    and "create_iteration_cache_entry key source artifacts created_at = Inr e"
    and "\<And>x. x \<in> set artifacts \<Longrightarrow> artifact_check x = None"
  shows "codec_keeps cache_repo e"
proof (rule codec_keepsI)
  have fields: "ce_key e = key" "ce_source_receipt_id e = source" "ce_artifact_digests e = artifacts"
      "ce_created_at e = created_at" "ce_schema_version e = ITERATION_CACHE_SCHEMA_VERSION"
      "fullmatch CACHE_ID (ce_entry_id e)"
    using assms(2) CACHE_ID_digest by (auto simp: create_iteration_cache_entry_def)
  have arts: "map_result (artifact_from m) (map (\<lambda>a. VDict (file_dict (artifact_payload a))) artifacts) = Inr artifacts" for m
    using assms(3) by (rule stored_artifacts_decode)
  let ?raw = "(''cache_key'', VStr (ck_cache_key key)) # key_payload key"
  have d: "distinct (map fst (cache_entry_payload e))" by (simp add: cache_entry_payload_def)
  have entry: "dict_get_none (file_dict (cache_entry_payload e)) ''key'' = VDict (file_dict ?raw)"
      "dict_get_none (file_dict (cache_entry_payload e)) ''artifact_digests'' =
        VList (map (\<lambda>a. VDict (file_dict (artifact_payload a))) artifacts)"
      "get_str (file_dict (cache_entry_payload e)) ''source_receipt_id'' = source"
      "get_str (file_dict (cache_entry_payload e)) ''created_at'' = created_at"
      "dict_get_none (file_dict (cache_entry_payload e)) ''schema_version'' = VInt ITERATION_CACHE_SCHEMA_VERSION"
      "dict_get_none (file_dict (cache_entry_payload e)) ''entry_id'' = VStr (ce_entry_id e)"
    unfolding stored_lookups [OF d] using fields
    by (simp_all add: cache_entry_payload_def json_sorted_VDict comp_def del: json_sorted.simps(2))
  have strs: "map py_str (map VStr ss) = ss" for ss by (simp add: comp_def)
  have "iteration_cache_entry_from_payload (file_dict (cache_entry_payload e)) = Inr e"
    unfolding iteration_cache_entry_from_payload_def entry payload_lookups stored_key_arguments strs
    using rebuild_key [OF assms(1)] arts assms(2) fields(6)
    by (simp add: stored_key_arguments strs del: map_map)
  then show "sr_decode cache_repo (file_dict (sr_encode cache_repo e)) = Inr e" by (simp add: cache_repo_def)
qed

definition example_key_arguments :: IterationCacheKey where
  "example_key_arguments = (let h = replicate 64 CHR ''a'' in
     \<lparr>ck_cache_key = '''', ck_workspace_identity = h, ck_declared_input_hash = h, ck_stage_definition_hash = h,
      ck_target_identity = h, ck_working_directory = ''.'', ck_environment_identity = h,
      ck_environment_identity_schema_version = 0, ck_requested_policy_hash = h, ck_effective_policy_hash = h,
      ck_toolchain_hash = h, ck_lockfile_hash = h, ck_config_generation = h, ck_policy_hash = h, ck_provider_hash = h,
      ck_network_policy = ''none'', ck_dependency_receipt_hashes = [h], ck_schema_version = 0\<rparr>)"

definition example_output :: ArtifactDigest where
  "example_output = \<lparr>ad_path = ''out/log'', ad_sha256 = sha256_hex []\<rparr>"

definition example_workspace :: "string \<Rightarrow> nat list option" where
  "example_workspace path = (if path = ''out/log'' then Some [] else None)"

lemma example_output_valid: "artifact_check example_output = None"
  using sha256_hex_lower_hex [of _ "[]"]
  by (simp add: artifact_check_def example_output_def unsafe_path_def has_control_def startswith_def SHA64_def fullmatch_Rep)

lemma example_key_built: "\<exists>k. build_iteration_cache_key example_key_arguments (VInt 1) = Inr k"
proof -
  have "fullmatch DAG_SAFE_ID ''none''" by code_simp
  with example_digests(1) show ?thesis
    by (simp add: build_iteration_cache_key_def key_checks_def example_key_arguments_def Let_def)
qed

lemma example_entry_created:
  "\<exists>e. create_iteration_cache_entry k ''receipt-000000000000000000000000'' [example_output] (clock 1) = Inr e"
proof -
  have "clock 1 \<noteq> []" using length_clock [of 1] by (cases "clock 1") simp_all
  with example_effect_ids(1) show ?thesis by (simp add: create_iteration_cache_entry_def length_clock)
qed

theorem cache_entry_roundtrip_witness:
  "\<exists>k e. build_iteration_cache_key example_key_arguments (VInt 1) = Inr k \<and>
     create_iteration_cache_entry k ''receipt-000000000000000000000000'' [example_output] (clock 1) = Inr e \<and>
     iteration_cache_entry_from_payload (cache_entry_payload e) = Inr e"
proof -
  obtain k where k: "build_iteration_cache_key example_key_arguments (VInt 1) = Inr k" using example_key_built by blast
  obtain e where e: "create_iteration_cache_entry k ''receipt-000000000000000000000000'' [example_output] (clock 1) = Inr e"
    using example_entry_created by blast
  from cache_entry_roundtrip [OF k e] example_output_valid k e show ?thesis by auto
qed

lemma cache_prefix: "is_ascii_alnum CHR ''c''" "\<forall>c \<in> set ''ache-''. is_ascii_alnum c \<or> c = CHR ''-''"
  by code_simp+

lemma cache_repo_id:
  assumes "fullmatch CACHE_ID i"
  shows "repo_id cache_repo i = Inr ()"
proof -
  have "validate_cache_id i = None" using assms by (simp add: validate_cache_id_def)
  from short_id_record [of _ _ i validate_cache_id, OF assms [unfolded CACHE_ID_def] cache_prefix _ this]
  show ?thesis by (simp add: repo_id_def cache_repo_def)
qed

lemma example_entry_weight:
  assumes k: "build_iteration_cache_key example_key_arguments (VInt 1) = Inr k"
    and e: "create_iteration_cache_entry k ''receipt-000000000000000000000000'' [example_output] (clock 1) = Inr e"
  shows "json_weight 0 (VDict (envelope_dict cache_repo (new_envelope cache_repo (ce_entry_id e) 1 e))) \<le> 40000"
proof -
  obtain v where k': "k = example_key_arguments\<lparr>ck_environment_identity_schema_version := 1,
      ck_schema_version := ITERATION_CACHE_SCHEMA_VERSION, ck_cache_key := content_digest v\<rparr>"
    using k by (auto simp: build_iteration_cache_key_def bind_result_Inr_iff Let_def)
  obtain w where e': "e = \<lparr>ce_entry_id = ''cache-'' @ take 24 (content_digest w), ce_key = k,
      ce_source_receipt_id = ''receipt-000000000000000000000000'', ce_artifact_digests = [example_output],
      ce_created_at = clock 1, ce_schema_version = ITERATION_CACHE_SCHEMA_VERSION\<rparr>"
    using e by (auto simp: create_iteration_cache_entry_def)
  have l: "length (content_digest v) = 64" "length (content_digest w) = 64"
    using content_digest_SHA64 by (simp_all add: SHA64_def fullmatch_Rep)
  show ?thesis
    using l by (simp add: e' k' envelope_dict_def cache_repo_def new_envelope_def cache_entry_payload_def key_payload_def
        artifact_payload_def example_output_def example_key_arguments_def Let_def of_strings_def length_clock
        str_of_int_def str_of_nat.simps ITERATION_CACHE_SCHEMA_VERSION_def)
qed

lemma example_cached:
  assumes k: "build_iteration_cache_key example_key_arguments (VInt 1) = Inr k"
    and e: "create_iteration_cache_entry k ''receipt-000000000000000000000000'' [example_output] (clock 1) = Inr e"
  shows "\<exists>fs. cache_lookup fs example_workspace k = Inr \<lparr>cl_hit = True, cl_reason = None, cl_entry = Some e\<rparr>"
proof -
  have id: "fullmatch CACHE_ID (ce_entry_id e)" "ce_key e = k" "ce_artifact_digests e = [example_output]"
    "startswith (ce_entry_id e) ''cache-''"
    using e CACHE_ID_digest by (auto simp: create_iteration_cache_entry_def startswith_def)
  have m: "2 * 40000 < sr_max_bytes cache_repo" by (simp add: cache_repo_def)
  obtain fs where c: "repo_create cache_repo [] (ce_entry_id e) e = Inr (fs, new_envelope cache_repo (ce_entry_id e) 1 e)"
    using repo_create_fits [OF cache_repo_id [OF id(1)] _ example_entry_weight [OF k e] m, of "[]"] by auto
  have keys: "map fst fs = [ce_entry_id e]"
    using c by (auto simp: write_file_def elim!: repo_createE split: if_splits)
  have ids: "cache_ids fs = [ce_entry_id e]"
    using id(4) by (simp add: cache_ids_def list_ids_def keys Let_def)
  have "codec_keeps cache_repo e" using cache_codec_keeps [OF k e] example_output_valid by simp
  then have "scan_loop fs (Some k) (cache_ids fs) = Inr ([e], False, False)"
    using repo_create_reads(1) [OF c] by (simp add: ids new_envelope_def)
  moreover have "artifact_status example_workspace [example_output] = None"
    by (simp add: example_workspace_def example_output_def)
  ultimately have "cache_lookup fs example_workspace k = Inr \<lparr>cl_hit = True, cl_reason = None, cl_entry = Some e\<rparr>"
    using id by (simp add: cache_lookup_def cache_scan_def del: artifact_status.simps)
  then show ?thesis by blast
qed

theorem cache_hit_sound_witness:
  "\<exists>fs k l e. build_iteration_cache_key example_key_arguments (VInt 1) = Inr k \<and>
     cache_lookup fs example_workspace k = Inr l \<and> cl_entry l = Some e \<and>
     (\<forall>a \<in> set (ce_artifact_digests e). \<exists>bytes. example_workspace (ad_path a) = Some bytes \<and> sha256_hex bytes = ad_sha256 a)"
proof -
  obtain k where k: "build_iteration_cache_key example_key_arguments (VInt 1) = Inr k" using example_key_built by blast
  obtain e where e: "create_iteration_cache_entry k ''receipt-000000000000000000000000'' [example_output] (clock 1) = Inr e"
    using example_entry_created by blast
  obtain fs where "cache_lookup fs example_workspace k = Inr \<lparr>cl_hit = True, cl_reason = None, cl_entry = Some e\<rparr>"
    using example_cached [OF k e] by blast
  with cache_hit_sound [OF this] k show ?thesis by force
qed

definition legacy_files :: files where
  "legacy_files = [(''cache-000000000000000000000000'', Json (VDict
     [(''payload'', VDict []), (''record_id'', VStr ''cache-000000000000000000000000''), (''revision'', VInt 1),
      (''schema_version'', VInt 1)]))]"

lemma legacy_read:
  "repo_read cache_repo legacy_files ''cache-000000000000000000000000'' =
     Inl (RepoForgeError ''STATE_SCHEMA_UNSUPPORTED'' ''Unsupported state schema version: 1'')"
  "''cache-000000000000000000000000'' \<in> set (cache_ids legacy_files)"
proof -
  have id: "fullmatch CACHE_ID ''cache-000000000000000000000000''" by code_simp
  let ?raw = "VDict [(''payload'', VDict []), (''record_id'', VStr ''cache-000000000000000000000000''),
      (''revision'', VInt 1), (''schema_version'', VInt 1)]"
  have "json_weight 0 ?raw \<le> 1000" by (simp add: str_of_int_def str_of_nat.simps)
  then have "encoded_size ?raw \<le> 512000" by (rule weight_fits) simp
  moreover have "str_of_int 1 = ''1''" by code_simp
  ultimately show "repo_read cache_repo legacy_files ''cache-000000000000000000000000'' =
     Inl (RepoForgeError ''STATE_SCHEMA_UNSUPPORTED'' ''Unsupported state schema version: 1'')"
    using cache_repo_id [OF id]
    by (simp add: repo_read_def read_file_def legacy_files_def decode_envelope_def file_size_def cache_repo_def
        same_keys_def ENVELOPE_FIELDS_def dict_get_none_def state_error_def ITERATION_CACHE_SCHEMA_VERSION_def)
  show "''cache-000000000000000000000000'' \<in> set (cache_ids legacy_files)"
    by (simp add: cache_ids_def list_ids_def legacy_files_def startswith_def Let_def)
qed

theorem other_schema_blocks_put_witness:
  "\<exists>x. cache_put (\<lambda>_ fs. fs) 256 legacy_files
     \<lparr>ce_entry_id = '''', ce_key = example_key_arguments, ce_source_receipt_id = '''', ce_artifact_digests = [],
      ce_created_at = '''', ce_schema_version = 2\<rparr> {} = Inl x"
  by (rule other_schema_blocks_put [OF legacy_read(2,1)])

end
