(* ===== verification/Durable_Effects.thy ===== *)
theory Durable_Effects
  imports Operation_Manager Execution_Stores
begin

text \<open>
  What the two executors of state-changing operations share: the store of operation results
  (adapters/persistence/json\_operation\_result\_store.py), the identity captured before and after an
  effect (application/effect\_identity.py), the effect boundary (application/idempotency.py), and the
  computations themselves. An executor reads and writes four stores, keeps local variables, raises and
  catches exceptions; what it wrote before it raised stays written. It is a function from the world to
  a result and the world after it.
\<close>

section \<open>Operation results\<close>

definition RESULT_MAX_BYTES :: nat where
  "RESULT_MAX_BYTES = 1000000"

definition result_store_save :: "files \<Rightarrow> string \<Rightarrow> pydict \<Rightarrow> files result" where
  "result_store_save fs i result =
     bind_result (checked (validate_operation_id i) ()) (\<lambda>_.
     bind_result (checked (operation_path i) ()) (\<lambda>_.
       write_file RESULT_MAX_BYTES fs i
         (VDict [(''operation_id'', VStr i), (''result'', VDict result), (''schema_version'', VInt 1)])))"

definition result_decode :: "json_file \<Rightarrow> string \<Rightarrow> pydict result" where
  "result_decode f expected =
     (case f of
        NotJson \<Rightarrow> Inl (RepoForgeError ''OPERATION_CORRUPT'' ''Operation result is not valid UTF-8 JSON'')
      | Json (VDict raw) \<Rightarrow>
          if \<not> same_keys raw [''operation_id'', ''result'', ''schema_version'']
          then Inl (RepoForgeError ''OPERATION_CORRUPT'' ''Operation result fields do not match schema version 1'')
          else if dict_get_none raw ''schema_version'' \<notin> {VInt 1, VBool True}
          then Inl (RepoForgeError ''OPERATION_SCHEMA_UNSUPPORTED''
            (''Unsupported operation result schema version: '' @ py_repr (dict_get_none raw ''schema_version'')))
          else if dict_get_none raw ''operation_id'' \<noteq> VStr expected
          then Inl (RepoForgeError ''OPERATION_CORRUPT'' ''Operation result identity does not match its filename'')
          else (case dict_get_none raw ''result'' of
              VDict result \<Rightarrow> Inr result
            | _ \<Rightarrow> Inl (RepoForgeError ''OPERATION_CORRUPT'' ''Operation result payload must be an object''))
      | Json _ \<Rightarrow> Inl (RepoForgeError ''OPERATION_CORRUPT'' ''Operation result fields do not match schema version 1''))"

definition result_store_read :: "files \<Rightarrow> string \<Rightarrow> pydict option result" where
  "result_store_read fs i =
     bind_result (checked (validate_operation_id i) ()) (\<lambda>_.
     bind_result (checked (operation_path i) ()) (\<lambda>_.
     bind_result (read_file RESULT_MAX_BYTES fs i) (\<lambda>data.
     case data of None \<Rightarrow> Inr None | Some f \<Rightarrow> bind_result (result_decode f i) (\<lambda>r. Inr (Some r)))))"

definition result_store_delete :: "files \<Rightarrow> string \<Rightarrow> files result" where
  "result_store_delete fs i =
     bind_result (checked (validate_operation_id i) ()) (\<lambda>_.
     bind_result (checked (operation_path i) ()) (\<lambda>_. Inr (delete_file fs i)))"

section \<open>The identity of an effect\<close>

definition IDENTITY_KEYS :: "string list" where
  "IDENTITY_KEYS = [''workspace_id'', ''repo_id'', ''issue_number'', ''target_issue'', ''branch'', ''remote'', ''base'',
     ''head_sha'', ''previous_head_sha'', ''remote_head_before'', ''remote_head_after'', ''workspace_fingerprint'',
     ''sha256'', ''path'', ''url'', ''pr_number'', ''commit'', ''generation'', ''target_base_sha'', ''transaction_id'',
     ''publication_id'', ''source_repository_id'', ''destination_repository_id'', ''source_ref'', ''destination_ref'',
     ''commit_sha'', ''tree_sha'', ''profile_id'', ''actor_id'', ''installation_id'', ''lease_id'', ''topology_digest'',
     ''capability_digest'', ''permission_digest'', ''config_revision'', ''policy_revision'', ''remote_version'',
     ''review_digest'', ''reconciled'']"

definition scalar_kept :: "pyval \<Rightarrow> bool" where
  "scalar_kept v = (case v of
       VStr s \<Rightarrow> s \<noteq> [] \<and> length s \<le> 512 \<and> \<not> has_control s
     | VInt _ \<Rightarrow> True | VBool _ \<Rightarrow> True | _ \<Rightarrow> False)"

definition bounded_scalars :: "pyval \<Rightarrow> pydict" where
  "bounded_scalars v = (case v of
       VDict d \<Rightarrow> filter (\<lambda>kv. fst kv \<in> set IDENTITY_KEYS \<and> scalar_kept (snd kv)) d
     | _ \<Rightarrow> [])"

text \<open>
  What \<open>ctx.workspace\<close> and the git adapter report of a workspace: the record and repository fields, the
  head and the fingerprint, each of which can raise.
\<close>

record workspace_view =
  wv_fields :: "string \<Rightarrow> (string \<times> string \<times> string \<times> string) result"
  wv_head :: "string result"
  wv_fingerprint :: "string result"

definition setdefault :: "pydict \<Rightarrow> string \<Rightarrow> pyval \<Rightarrow> pydict" where
  "setdefault d k v = (if k \<in> set (map fst d) then d else d @ [(k, v)])"

text \<open>\<open>except RepoForgeError: pass\<close>\<close>

definition unless_refused :: "'a result \<Rightarrow> pydict \<Rightarrow> ('a \<Rightarrow> pydict result) \<Rightarrow> pydict result" where
  "unless_refused r d f = (case r of Inl (RepoForgeError _ _) \<Rightarrow> Inr d | Inl x \<Rightarrow> Inl x | Inr a \<Rightarrow> f a)"

definition observed_identity :: "workspace_view \<Rightarrow> string \<Rightarrow> pydict \<Rightarrow> pydict result" where
  "observed_identity view workspace_id identity =
     unless_refused (wv_fields view workspace_id) identity (\<lambda>(repo_id, branch, base, remote).
       let named = setdefault (setdefault (setdefault (setdefault identity ''repo_id'' (VStr repo_id))
             ''branch'' (VStr branch)) ''base'' (VStr base)) ''remote'' (VStr remote)
       in unless_refused (wv_head view) named (\<lambda>head.
          let headed = dict_set named ''head_sha'' (VStr head) in
          unless_refused (wv_fingerprint view) headed (\<lambda>fp.
            Inr (dict_set headed ''workspace_fingerprint'' (VStr fp)))))"

definition capture_effect_identity :: "workspace_view \<Rightarrow> pydict option \<Rightarrow> pyval \<Rightarrow> pydict result" where
  "capture_effect_identity view details result =
     (let given = (case details of None \<Rightarrow> [] | Some d \<Rightarrow> d);
          identity = bounded_scalars (VDict given);
          publication_scope = (dict_get_none given ''effect_identity_scope'' = VStr ''publication'')
      in bind_result
           (case dict_get_none identity ''workspace_id'' of
              VStr w \<Rightarrow> if publication_scope then Inr identity else observed_identity view w identity
            | _ \<Rightarrow> Inr identity)
           (\<lambda>identity. Inr (sort_key fst (foldl (\<lambda>d (k, v). dict_set d k v) identity (bounded_scalars result)))))"

section \<open>The effect boundary\<close>

record EffectBoundary =
  eb_started :: bool
  eb_rolled_back :: bool
  eb_authoritative_result :: pyval
  eb_replayed :: bool
  eb_reconciled :: bool

definition config_error :: "string \<Rightarrow> exn" where
  "config_error m = RepoForgeError ''CONFIG_INVALID'' m"

definition new_boundary :: EffectBoundary where
  "new_boundary = \<lparr>eb_started = False, eb_rolled_back = False, eb_authoritative_result = VNone,
     eb_replayed = False, eb_reconciled = False\<rparr>"

definition boundary_begin :: "EffectBoundary \<Rightarrow> EffectBoundary" where
  "boundary_begin b = b\<lparr>eb_started := True, eb_rolled_back := False\<rparr>"

definition boundary_rollback :: "EffectBoundary \<Rightarrow> EffectBoundary result" where
  "boundary_rollback b =
     (if \<not> eb_started b then Inl (config_error ''Cannot roll back an effect boundary that was not started'')
      else Inr (b\<lparr>eb_rolled_back := True\<rparr>))"

definition boundary_record_result :: "EffectBoundary \<Rightarrow> pyval \<Rightarrow> EffectBoundary result" where
  "boundary_record_result b result =
     (if \<not> eb_started b then Inl (config_error ''Cannot record an authoritative result before the effect boundary'')
      else Inr (b\<lparr>eb_authoritative_result := result\<rparr>))"

definition boundary_record_replay :: "EffectBoundary \<Rightarrow> bool \<Rightarrow> EffectBoundary" where
  "boundary_record_replay b by_reconciliation = b\<lparr>eb_replayed := True, eb_reconciled := by_reconciliation\<rparr>"

section \<open>Computations\<close>

text \<open>
  The four collections, the local variables of an executor (the receipt it holds, the result of the
  operation), the boundary object it shares with the operation, and the published outcome.
\<close>

record world =
  w_ops :: files
  w_receipts :: files
  w_results :: files
  w_keys :: files
  w_receipt :: "EffectReceipt StateEnvelope"
  w_result :: pyval
  w_boundary :: "EffectBoundary option"
  w_published :: "EffectReceipt option"

type_synonym 'a act = "world \<Rightarrow> 'a result \<times> world"

definition return_act :: "'a \<Rightarrow> 'a act" where
  "return_act a = (\<lambda>w. (Inr a, w))"

definition lift_act :: "'a result \<Rightarrow> 'a act" where
  "lift_act r = (\<lambda>w. (r, w))"

definition raise_act :: "exn \<Rightarrow> 'a act" where
  "raise_act e = (\<lambda>w. (Inl e, w))"

definition modify_act :: "(world \<Rightarrow> world) \<Rightarrow> unit act" where
  "modify_act f = (\<lambda>w. (Inr (), f w))"

definition bind_act :: "'a act \<Rightarrow> ('a \<Rightarrow> 'b act) \<Rightarrow> 'b act" where
  "bind_act m f = (\<lambda>w. case m w of (Inl e, w') \<Rightarrow> (Inl e, w') | (Inr a, w') \<Rightarrow> f a w')"

definition then_act :: "'a act \<Rightarrow> 'b act \<Rightarrow> 'b act" where
  "then_act m m' = bind_act m (\<lambda>_. m')"

definition catch_act :: "'a act \<Rightarrow> (exn \<Rightarrow> 'a act) \<Rightarrow> 'a act" where
  "catch_act m h = (\<lambda>w. case m w of (Inl e, w') \<Rightarrow> h e w' | (Inr a, w') \<Rightarrow> (Inr a, w'))"

definition reading :: "(world \<Rightarrow> 'a act) \<Rightarrow> 'a act" where
  "reading f = (\<lambda>w. f w w)"

section \<open>The environment of a call\<close>

text \<open>
  Every access to the outside has a number of its own in the text of an executor. At each the
  environment says what the access raises if it fails (an error of the file system, or the crash of
  the process, after which every later access fails), what the clock shows, what the workspace looks
  like, what other processes did to the receipts before it, and how a manager call meets them.
\<close>

record effect_env =
  ee_fault :: "nat \<Rightarrow> exn option"
  ee_clock :: "nat \<Rightarrow> string"
  ee_epoch :: "nat \<Rightarrow> int"
  ee_view :: "nat \<Rightarrow> workspace_view"
  ee_peers :: "nat \<Rightarrow> files \<Rightarrow> files"
  ee_mgr :: "nat \<Rightarrow> mgr_env"
  ee_hex :: "nat \<Rightarrow> string"
  ee_name :: "exn \<Rightarrow> string"

definition access :: "effect_env \<Rightarrow> nat \<Rightarrow> 'a act \<Rightarrow> 'a act" where
  "access env k m = (case ee_fault env k of Some e \<Rightarrow> raise_act e | None \<Rightarrow> m)"

definition manager_call ::
  "effect_env \<Rightarrow> nat \<Rightarrow> (mgr_env \<Rightarrow> files \<Rightarrow> (files \<times> OperationTask) result) \<Rightarrow> OperationTask act" where
  "manager_call env k f = access env k (\<lambda>w.
     case f (ee_mgr env k) (w_ops w) of
       Inl e \<Rightarrow> (Inl e, w) | Inr (fs, t) \<Rightarrow> (Inr t, w\<lparr>w_ops := fs\<rparr>))"

definition save_result :: "effect_env \<Rightarrow> nat \<Rightarrow> string \<Rightarrow> pydict \<Rightarrow> unit act" where
  "save_result env k operation_id result = access env k (\<lambda>w.
     case result_store_save (w_results w) operation_id result of
       Inl e \<Rightarrow> (Inl e, w) | Inr fs \<Rightarrow> (Inr (), w\<lparr>w_results := fs\<rparr>))"

definition create_receipt :: "effect_env \<Rightarrow> nat \<Rightarrow> EffectReceipt result \<Rightarrow> unit act" where
  "create_receipt env k r = access env k (\<lambda>w.
     let others = w\<lparr>w_receipts := ee_peers env k (w_receipts w)\<rparr> in
     case bind_result r (effect_store_create (w_receipts others)) of
       Inl e \<Rightarrow> (Inl e, others) | Inr (fs, e) \<Rightarrow> (Inr (), others\<lparr>w_receipts := fs, w_receipt := e\<rparr>))"

text \<open>
  A transition of the held receipt and its save against the held revision. The post identity is
  captured when the call names one.
\<close>

definition no_effect_args :: effect_args where
  "no_effect_args = \<lparr>ea_result_reference = None, ea_error_code = None, ea_error_message = None,
     ea_effect_boundary_crossed = None, ea_post_identity = None\<rparr>"

definition save_receipt ::
  "effect_env \<Rightarrow> nat \<Rightarrow> EffectReceiptState \<Rightarrow> effect_args \<Rightarrow> pydict option result \<Rightarrow> unit act" where
  "save_receipt env k target args post = access env k (\<lambda>w.
     let others = w\<lparr>w_receipts := ee_peers env k (w_receipts w)\<rparr> in
     case bind_result post (\<lambda>p.
            bind_result (transition_effect_receipt (env_value (w_receipt w)) target (ee_clock env k) (args\<lparr>ea_post_identity := p\<rparr>))
              (\<lambda>r. effect_store_save (w_receipts others) r (env_revision (w_receipt w)))) of
       Inl e \<Rightarrow> (Inl e, others) | Inr (fs, e) \<Rightarrow> (Inr (), others\<lparr>w_receipts := fs, w_receipt := e\<rparr>))"

definition captured :: "effect_env \<Rightarrow> nat \<Rightarrow> pydict option \<Rightarrow> pyval \<Rightarrow> pydict option result" where
  "captured env k details result = bind_result (capture_effect_identity (ee_view env k) details result) (\<lambda>d. Inr (Some d))"

definition publish_outcome :: "unit act" where
  "publish_outcome = modify_act (\<lambda>w. w\<lparr>w_published := Some (env_value (w_receipt w))\<rparr>)"

text \<open>The operation: what it does to the boundary it shares with the executor, and what it returns or raises.\<close>

type_synonym operation = "EffectBoundary option \<Rightarrow> pyval result \<times> EffectBoundary option"

definition run_operation :: "operation \<Rightarrow> pyval act" where
  "run_operation operation = (\<lambda>w.
     case operation (w_boundary w) of (r, b) \<Rightarrow> (r, w\<lparr>w_boundary := b\<rparr>))"

text \<open>\<open>audited\<close>: the gate and the policy check before the operation, the audit record after it.\<close>

definition audited_act :: "effect_env \<Rightarrow> nat \<Rightarrow> nat \<Rightarrow> 'a act \<Rightarrow> 'a act" where
  "audited_act env before after m =
     access env before (bind_act m (\<lambda>a. access env after (return_act a)))"

definition boundary_started :: "world \<Rightarrow> bool" where
  "boundary_started w = (case w_boundary w of None \<Rightarrow> False | Some b \<Rightarrow> eb_started b)"

definition boundary_rolled_back :: "world \<Rightarrow> bool" where
  "boundary_rolled_back w = (case w_boundary w of None \<Rightarrow> False | Some b \<Rightarrow> eb_rolled_back b)"

definition authoritative_result :: "world \<Rightarrow> pyval" where
  "authoritative_result w = (case w_boundary w of None \<Rightarrow> VNone | Some b \<Rightarrow> eb_authoritative_result b)"

definition durable_result :: "pyval \<Rightarrow> pydict result" where
  "durable_result v = bind_result (sanitize_persisted_data [] [] v) (\<lambda>p.
     Inr (case p of VDict d \<Rightarrow> d | _ \<Rightarrow> [(''value'', p)]))"

definition request_fingerprint :: "pyval \<Rightarrow> string" where
  "request_fingerprint request = content_digest request"

definition has_code :: "exn \<Rightarrow> string \<Rightarrow> bool" where
  "has_code e code = (case e of RepoForgeError c _ \<Rightarrow> c = code | _ \<Rightarrow> False)"

definition failed_args :: "effect_env \<Rightarrow> string \<Rightarrow> exn \<Rightarrow> effect_args" where
  "failed_args env code exc = no_effect_args\<lparr>ea_error_code := Some code, ea_error_message := Some (ee_name env exc)\<rparr>"

definition fail_operation ::
  "effect_env \<Rightarrow> nat \<Rightarrow> string \<Rightarrow> string \<Rightarrow> exn \<Rightarrow> string option \<Rightarrow> string \<Rightarrow> OperationRetryability \<Rightarrow> OperationTask act" where
  "fail_operation env k operation_id code exc result_ref receipt retry =
     manager_call env k (\<lambda>m fs. mgr_fail m fs operation_id
       (no_args\<lparr>arg_error_code := Some code, arg_error_message := Some (ee_name env exc),
          arg_result_reference := result_ref, arg_receipt_id := Some receipt, arg_retryability := retry\<rparr>)
       None (Some (ee_clock env k)))"

definition detail_workspace :: "pydict option \<Rightarrow> string option" where
  "detail_workspace details =
     (case details of None \<Rightarrow> None
      | Some d \<Rightarrow> (case dict_get_none d ''workspace_id'' of VNone \<Rightarrow> None | v \<Rightarrow> Some (py_str v)))"

section \<open>Weakest preconditions\<close>

text \<open>From \<open>w\<close> a computation ends in \<open>Q\<close> with the value it returns, or in \<open>E\<close> with what it raises.\<close>

definition wp :: "'a act \<Rightarrow> ('a \<Rightarrow> world \<Rightarrow> bool) \<Rightarrow> (exn \<Rightarrow> world \<Rightarrow> bool) \<Rightarrow> world \<Rightarrow> bool" where
  "wp m Q E w = (case m w of (Inr a, w') \<Rightarrow> Q a w' | (Inl e, w') \<Rightarrow> E e w')"

named_theorems wp_simps
named_theorems wp_rules

lemma wp_values [wp_simps]:
  "wp (return_act a) Q E w = Q a w"
  "wp (raise_act e) Q E w = E e w"
  "wp (reading g) Q E w = wp (g w) Q E w"
  by (simp_all add: wp_def return_act_def raise_act_def reading_def)

lemma wp_updates [wp_simps]:
  "wp (modify_act f) Q E w = Q () (f w)"
  "wp publish_outcome Q E w = Q () (w\<lparr>w_published := Some (env_value (w_receipt w))\<rparr>)"
  by (simp_all add: wp_def modify_act_def publish_outcome_def)

lemma wp_bind [wp_simps]:
  "wp (bind_act m f) Q E w = wp m (\<lambda>a. wp (f a) Q E) E w"
  by (auto simp: wp_def bind_act_def split: prod.splits sum.splits)

lemma wp_then [wp_simps]:
  "wp (then_act m m') Q E w = wp m (\<lambda>_. wp m' Q E) E w"
  by (simp add: then_act_def wp_bind)

lemma wp_catch [wp_simps]:
  "wp (catch_act m h) Q E w = wp m Q (\<lambda>e. wp (h e) Q E) w"
  by (auto simp: wp_def catch_act_def split: prod.splits sum.splits)

lemma wp_if [wp_simps]: "wp (if b then m else m') Q E w \<longleftrightarrow> (if b then wp m Q E w else wp m' Q E w)"
  by simp

lemma wp_mono: "wp m Q E w \<Longrightarrow> (\<And>a w. Q a w \<Longrightarrow> Q' a w) \<Longrightarrow> (\<And>e w. E e w \<Longrightarrow> E' e w) \<Longrightarrow> wp m Q' E' w"
  by (auto simp: wp_def split: prod.splits sum.splits)

lemma wp_lift [wp_rules]: "(\<And>a. r = Inr a \<Longrightarrow> Q a w) \<Longrightarrow> (\<And>e. r = Inl e \<Longrightarrow> E e w) \<Longrightarrow> wp (lift_act r) Q E w"
  by (cases r) (simp_all add: wp_def lift_act_def)

lemma wp_access [wp_rules]: "(\<And>e. E e w) \<Longrightarrow> wp m Q E w \<Longrightarrow> wp (access env k m) Q E w"
  by (simp add: access_def wp_simps split: option.split)

lemma wp_manager [wp_rules]:
  "(\<And>e. E e w) \<Longrightarrow> (\<And>t fs. Q t (w\<lparr>w_ops := fs\<rparr>)) \<Longrightarrow> wp (manager_call env k f) Q E w"
  unfolding manager_call_def by (rule wp_access) (auto simp: wp_def split: sum.splits)

lemma wp_fail [wp_rules]:
  "(\<And>e. E e w) \<Longrightarrow> (\<And>t fs. Q t (w\<lparr>w_ops := fs\<rparr>)) \<Longrightarrow> wp (fail_operation env k oid code exc ref rc retry) Q E w"
  unfolding fail_operation_def by (rule wp_manager)

lemma wp_save_result [wp_rules]:
  assumes "\<And>e. E e w" "\<And>fs. result_store_save (w_results w) oid d = Inr fs \<Longrightarrow> Q () (w\<lparr>w_results := fs\<rparr>)"
  shows "wp (save_result env k oid d) Q E w"
  unfolding save_result_def using assms by (intro wp_access) (auto simp: wp_def split: sum.splits)

lemma wp_run [wp_rules]:
  assumes "\<And>r b. operation (w_boundary w) = (Inr r, b) \<Longrightarrow> Q r (w\<lparr>w_boundary := b\<rparr>)"
    and "\<And>e b. operation (w_boundary w) = (Inl e, b) \<Longrightarrow> E e (w\<lparr>w_boundary := b\<rparr>)"
  shows "wp (run_operation operation) Q E w"
  using assms by (auto simp: wp_def run_operation_def split: prod.splits sum.splits)

lemma wp_audited [wp_rules]:
  "(\<And>e. E e w) \<Longrightarrow> wp m (\<lambda>a w. Q a w \<and> (\<forall>e. E e w)) E w \<Longrightarrow> wp (audited_act env j k m) Q E w"
  unfolding audited_act_def
  by (rule wp_access, assumption, simp add: wp_simps, erule wp_mono) (auto intro!: wp_access simp: wp_simps)

text \<open>A receipt that was saved is held, is valid, and can be read.\<close>

lemma wp_create_receipt [wp_rules]:
  assumes "\<And>e fs. E e (w\<lparr>w_receipts := fs\<rparr>)"
    and "\<And>r fs. r0 = Inr r \<Longrightarrow> effect_check r = None \<Longrightarrow>
      effect_store_read fs (er_receipt_id r) = Inr (Some (new_envelope effect_repo (er_receipt_id r) 1 r)) \<Longrightarrow>
      Q () (w\<lparr>w_receipts := fs, w_receipt := new_envelope effect_repo (er_receipt_id r) 1 r\<rparr>)"
  shows "wp (create_receipt env k r0) Q E w"
  unfolding create_receipt_def
proof (rule wp_access)
  show "E e w" for e using assms(1) [of e "w_receipts w"] by simp
  show "wp (\<lambda>w. let others = w\<lparr>w_receipts := ee_peers env k (w_receipts w)\<rparr> in
     case bind_result r0 (effect_store_create (w_receipts others)) of
       Inl e \<Rightarrow> (Inl e, others) | Inr (fs, e) \<Rightarrow> (Inr (), others\<lparr>w_receipts := fs, w_receipt := e\<rparr>)) Q E w"
  proof (cases "bind_result r0 (effect_store_create (ee_peers env k (w_receipts w)))")
    case (Inl e)
    with assms(1) show ?thesis by (simp add: wp_def Let_def)
  next
    case (Inr x)
    obtain fs e where x: "x = (fs, e)" by (cases x)
    from Inr x obtain r where r: "r0 = Inr r" "effect_check r = None"
      "repo_create effect_repo (ee_peers env k (w_receipts w)) (er_receipt_id r) r = Inr (fs, e)"
      by (auto simp: bind_result_Inr_iff effect_store_repo)
    with repo_create_reads(1) [OF r(3) effect_codec_keeps [OF r(2)]] repo_create_fresh(2) [OF r(3)] Inr x assms(2)
    show ?thesis by (auto simp: wp_def Let_def effect_store_read_def)
  qed
qed

lemma wp_transition_receipt:
  assumes "\<And>e fs. E e (w\<lparr>w_receipts := fs\<rparr>)"
    and "\<And>p r fs e. transition_effect_receipt (env_value (w_receipt w)) target (ee_clock env k) (args\<lparr>ea_post_identity := p\<rparr>) = Inr r \<Longrightarrow>
      post = Inr p \<Longrightarrow> env_value e = r \<Longrightarrow> effect_store_read fs (er_receipt_id r) = Inr (Some e) \<Longrightarrow>
      Q () (w\<lparr>w_receipts := fs, w_receipt := e\<rparr>)"
  shows "wp (save_receipt env k target args post) Q E w"
  unfolding save_receipt_def
proof (rule wp_access)
  show "E e w" for e using assms(1) [of e "w_receipts w"] by simp
  let ?m = "bind_result post (\<lambda>p. bind_result
      (transition_effect_receipt (env_value (w_receipt w)) target (ee_clock env k) (args\<lparr>ea_post_identity := p\<rparr>))
      (\<lambda>r. effect_store_save (ee_peers env k (w_receipts w)) r (env_revision (w_receipt w))))"
  show "wp (\<lambda>w. let others = w\<lparr>w_receipts := ee_peers env k (w_receipts w)\<rparr> in
     case bind_result post (\<lambda>p.
            bind_result (transition_effect_receipt (env_value (w_receipt w)) target (ee_clock env k) (args\<lparr>ea_post_identity := p\<rparr>))
              (\<lambda>r. effect_store_save (w_receipts others) r (env_revision (w_receipt w)))) of
       Inl e \<Rightarrow> (Inl e, others) | Inr (fs, e) \<Rightarrow> (Inr (), others\<lparr>w_receipts := fs, w_receipt := e\<rparr>)) Q E w"
  proof (cases ?m)
    case (Inl e)
    with assms(1) show ?thesis by (simp add: wp_def Let_def)
  next
    case (Inr x)
    obtain fs e where x: "x = (fs, e)" by (cases x)
    from Inr x obtain p r where r: "post = Inr p"
      "transition_effect_receipt (env_value (w_receipt w)) target (ee_clock env k) (args\<lparr>ea_post_identity := p\<rparr>) = Inr r"
      "effect_check r = None"
      "repo_save effect_repo (ee_peers env k (w_receipts w)) (er_receipt_id r) r (env_revision (w_receipt w)) = Inr (fs, e)"
      by (auto simp: bind_result_Inr_iff effect_store_repo)
    note s = repo_save_reads [OF r(4) effect_codec_keeps [OF r(3)]]
    have "env_value e = r" "effect_store_read fs (er_receipt_id r) = Inr (Some e)"
      using s(1,4) by (simp_all add: new_envelope_def effect_store_read_def)
    with assms(2) [OF r(2,1)] Inr x show ?thesis by (simp add: wp_def Let_def)
  qed
qed

lemma transition_target:
  assumes "transition_effect_receipt r s now a = Inr r'"
  shows "er_state r' = s" "er_receipt_id r' = er_receipt_id r" "er_operation_id r' = er_operation_id r"
    "effect_check r' = None" "s = er_state r \<or> s \<in> set (effect_transitions (er_state r))"
  using assms by (auto elim!: transition_effectE)

lemma wp_save_receipt [wp_rules]:
  assumes "\<And>e fs. E e (w\<lparr>w_receipts := fs\<rparr>)"
    and "\<And>fs e. er_state (env_value e) = target \<Longrightarrow> er_receipt_id (env_value e) = er_receipt_id (env_value (w_receipt w)) \<Longrightarrow>
      er_operation_id (env_value e) = er_operation_id (env_value (w_receipt w)) \<Longrightarrow>
      target = er_state (env_value (w_receipt w)) \<or> target \<in> set (effect_transitions (er_state (env_value (w_receipt w)))) \<Longrightarrow>
      effect_store_read fs (er_receipt_id (env_value (w_receipt w))) = Inr (Some e) \<Longrightarrow>
      Q () (w\<lparr>w_receipts := fs, w_receipt := e\<rparr>)"
  shows "wp (save_receipt env k target args post) Q E w"
  using assms(1)
proof (rule wp_transition_receipt)
  fix p r fs e
  assume "transition_effect_receipt (env_value (w_receipt w)) target (ee_clock env k) (args\<lparr>ea_post_identity := p\<rparr>) = Inr r"
    and e: "env_value e = r" "effect_store_read fs (er_receipt_id r) = Inr (Some e)"
  from transition_target [OF this(1)] e show "Q () (w\<lparr>w_receipts := fs, w_receipt := e\<rparr>)" by (intro assms(2)) simp_all
qed

lemma result_saved_read:
  assumes "result_store_save fs i d = Inr fs'"
  shows "result_store_read fs' i = Inr (Some (file_dict d))"
proof -
  let ?v = "[(''operation_id'', VStr i), (''result'', VDict d), (''schema_version'', VInt 1)]"
  from assms have ids: "validate_operation_id i = None" "operation_path i = None"
    and w: "write_file RESULT_MAX_BYTES fs i (VDict ?v) = Inr fs'"
    by (auto simp: result_store_save_def bind_result_Inr_iff)
  have k: "distinct (map fst ?v)" by simp
  have keys: "same_keys (file_dict ?v) [''operation_id'', ''result'', ''schema_version'']"
    unfolding same_keys_def file_dict_def keys_sorted by simp
  have "result_decode (Json (VDict (file_dict ?v))) i = Inr (file_dict d)"
    unfolding result_decode_def stored_lookups [OF k] json_file.case pyval.case
    using keys by (simp add: json_sorted_VDict del: json_sorted.simps(2))
  then show ?thesis
    using ids by (simp add: result_store_read_def read_after_write [OF w] json_sorted_VDict del: json_sorted.simps(2))
qed

lemma boundary_updates [simp]:
  "boundary_started (w\<lparr>w_ops := fs\<rparr>) = boundary_started w"
  "boundary_started (w\<lparr>w_receipts := fs\<rparr>) = boundary_started w"
  "boundary_started (w\<lparr>w_results := fs\<rparr>) = boundary_started w"
  "boundary_started (w\<lparr>w_keys := fs\<rparr>) = boundary_started w"
  "boundary_started (w\<lparr>w_receipt := e\<rparr>) = boundary_started w"
  "boundary_started (w\<lparr>w_result := v\<rparr>) = boundary_started w"
  "boundary_started (w\<lparr>w_published := p\<rparr>) = boundary_started w"
  "boundary_rolled_back (w\<lparr>w_ops := fs\<rparr>) = boundary_rolled_back w"
  "boundary_rolled_back (w\<lparr>w_receipts := fs\<rparr>) = boundary_rolled_back w"
  "boundary_rolled_back (w\<lparr>w_results := fs\<rparr>) = boundary_rolled_back w"
  "boundary_rolled_back (w\<lparr>w_keys := fs\<rparr>) = boundary_rolled_back w"
  "boundary_rolled_back (w\<lparr>w_receipt := e\<rparr>) = boundary_rolled_back w"
  "boundary_rolled_back (w\<lparr>w_result := v\<rparr>) = boundary_rolled_back w"
  "boundary_rolled_back (w\<lparr>w_published := p\<rparr>) = boundary_rolled_back w"
  by (simp_all add: boundary_started_def boundary_rolled_back_def)

end
