(* ===== verification/Effect_Example.thy ===== *)
theory Effect_Example
  imports Durable_Effects
begin

text \<open>
  A concrete start of a durable call, for the witnesses of the two executors: the operation and its
  receipt are created, the receipt is applying and the operation is running. The stores start empty
  and nobody else touches them; the clock moves on at the access \<open>m\<close>, and the accesses from \<open>n\<close> on fail, as after a crash.
\<close>

abbreviation hex24 :: string where
  "hex24 \<equiv> ''000000000000000000000000''"

definition until :: "nat \<Rightarrow> nat \<Rightarrow> effect_env" where
  "until m n = \<lparr>ee_fault = (\<lambda>k. if k < n then None else Some (RuntimeError ''crash'')), ee_clock = (\<lambda>k. if k < m then clock 0 else clock 2),
     ee_epoch = (\<lambda>_. 0), ee_view = (\<lambda>_. \<lparr>wv_fields = \<lambda>_. Inl (RuntimeError ''crash''), wv_head = Inl (RuntimeError ''crash''), wv_fingerprint = Inl (RuntimeError ''crash'')\<rparr>),
     ee_peers = (\<lambda>_ fs. fs), ee_mgr = (\<lambda>_. quiet 2), ee_hex = (\<lambda>_. hex24), ee_name = (\<lambda>_. ''RuntimeError'')\<rparr>"

definition durable_task :: "OperationState \<Rightarrow> string \<Rightarrow> nat \<Rightarrow> OperationTask" where
  "durable_task s ph u = (example_task s ph u None)\<lparr>op_kind := ''workspace_edit'', cancel_supported := False\<rparr>"

abbreviation accepted_task :: OperationTask where
  "accepted_task \<equiv> durable_task PENDING ''accepted'' 0"

abbreviation applying_task :: OperationTask where
  "applying_task \<equiv> durable_task RUNNING ''running'' 2"

lemma durable_fields [simp]:
  "bounded (Some ''workspace_edit'') ''kind'' 64 (Some SAFE_KIND) = None"
  "bounded (Some ''accepted'') ''phase'' 64 (Some SAFE_PHASE) = None"
  by code_simp+

lemma durable_valid: "current_task accepted_task" "current_task applying_task"
proof -
  have "lifecycle_consistent accepted_task" "lifecycle_consistent applying_task"
    by (simp_all add: lifecycle_consistent_def durable_task_def example_task_def terminal_state_def default_error_code_def)
  then have "\<forall>c \<in> set (record_checks accepted_task). c = None" "\<forall>c \<in> set (record_checks applying_task). c = None"
    by (simp_all add: record_checks_def inconsistencies_Nil) (simp_all add: durable_task_def example_task_def)
  moreover have "\<forall>c \<in> set (field_checks accepted_task). c = None" "\<forall>c \<in> set (field_checks applying_task). c = None"
    by (simp_all add: field_checks_def durable_task_def example_task_def OPERATION_SCHEMA_VERSION_def optional_timestamp_def)
  ultimately show "current_task accepted_task" "current_task applying_task"
    by (simp_all add: current_task_def valid_task_iff) (simp_all add: durable_task_def example_task_def)
qed

lemma durable_fits: "fits accepted_task" "fits applying_task"
  using durable_valid
  by (simp_all add: task_dict_def durable_task_def example_task_def of_opt_def of_opt_int_def binding_payload_def
      of_strings_def length_clock default_error_code_def str_of_int_def str_of_nat.simps)

lemma now_or_clock [simp]: "now_or env k (Some (clock h)) = clock h"
  using length_clock [of h] by (auto simp: now_or_def)

lemma durable_created:
  "mgr_create (quiet 2) hex24 [] None ''workspace_edit'' ''accepted'' False None None None None (Some (clock 0)) =
     Inr (only accepted_task, accepted_task)"
proof -
  have v: "valid_task accepted_task" using durable_valid(1) by (simp add: current_task_def)
  have e: "accepted_task =
     \<lparr>op_id = an_id, op_kind = ''workspace_edit'', op_state = PENDING, op_phase = ''accepted'',
      progress_current = 0, progress_total = None, progress_unit = None, progress_message = None,
      op_task_id = None, op_workspace_id = None, snapshot_binding = None, result_reference = None,
      error_code = None, error_message = None, retryability = RETRY_NONE, cancel_supported = False,
      cancellation_requested_at = None, op_created_at = clock 0, op_updated_at = clock 0,
      op_expires_at = None, op_owner_id = None, op_lease_expires_at = None, receipt_id = None,
      record_provenance = ''current'', record_consistency = ''consistent'', record_diagnostics = [],
      op_schema_version = OPERATION_SCHEMA_VERSION, op_attempt = 0\<rparr>"
    by (simp add: durable_task_def example_task_def default_error_code_def OPERATION_SCHEMA_VERSION_def)
  have "new_operation_task an_id ''workspace_edit'' ''accepted'' (clock 0) False None None None None = Inr accepted_task"
    using v unfolding new_operation_task_def e [symmetric] by simp
  moreover have "op_store_create [] accepted_task = Inr (only accepted_task)"
    using write_only [of accepted_task "[]", OF conjunct2 [OF durable_fits(1)] disjI1 [OF refl]] v
      operation_id_path [OF valid_task_id [OF v]]
    by (simp add: op_store_create_def task_payload_valid [OF v])
  ultimately show ?thesis by (simp add: mgr_create_def audited_def)
qed

lemma durable_moves: "transition_operation accepted_task RUNNING (clock 2) no_args = Inr applying_task"
proof -
  have tr: "transitioned accepted_task RUNNING no_args None (clock 2) = applying_task"
    by (simp add: transitioned_def durable_task_def example_task_def no_args_def terminal_state_def default_error_code_def)
  have "valid_task accepted_task" "valid_task (transitioned accepted_task RUNNING no_args None (clock 2))"
    using durable_valid by (simp_all only: tr current_task_def)
  then show ?thesis
    unfolding tr [symmetric]
    by (simp add: transition_operation_def) (simp add: durable_task_def example_task_def no_args_def)
qed

lemma durable_task_simps [simp]:
  "op_id (durable_task s ph u) = an_id" "op_state (durable_task s ph u) = s" "op_updated_at (durable_task s ph u) = clock u"
  "cancellation_requested_at (durable_task s ph u) = None"
  by (simp_all add: durable_task_def example_task_def)

lemma durable_started:
  "mgr_start (quiet 2) (only accepted_task) an_id None None None None (Some (clock 2)) = Inr (only applying_task, applying_task)"
proof -
  have r: "op_store_read (only accepted_task) an_id = Inr (Some accepted_task)"
    using only_read(1) [OF durable_fits(1)] by simp
  have s: "store_save (quiet 2) 0 (only accepted_task) applying_task (clock 0) = Inr (only applying_task, applying_task)"
    using only_save [OF durable_fits] by simp
  have "no_args\<lparr>arg_receipt_id := None\<rparr> = no_args" by (simp add: no_args_def)
  moreover have "applying_task \<noteq> accepted_task" by (metis OperationState.distinct(1) durable_task_simps(2))
  ultimately show ?thesis
    by (simp add: mgr_start_def mgr_save_transition_def mgr_status_def r durable_moves s)
qed

section \<open>The receipt\<close>

definition durable_receipt :: "EffectReceiptState \<Rightarrow> nat \<Rightarrow> string option \<Rightarrow> string \<Rightarrow> EffectReceipt" where
  "durable_receipt s t key fp =
     \<lparr>er_receipt_id = a_receipt, er_operation_id = an_id, er_action = ''workspace_edit'', er_idempotency_key_hash = key,
      er_request_fingerprint = fp, er_state = s, er_accepted_at = clock 0, er_updated_at = clock t, er_correlation_id = hex24,
      er_pre_identity = [], er_post_identity = [], er_effect_boundary_crossed = False,
      er_result_reference = None, er_error_code = None, er_error_message = None, er_schema_version = 1\<rparr>"

lemma durable_receipt_valid:
  assumes "fullmatch SHA64 fp" "case key of None \<Rightarrow> True | Some h \<Rightarrow> fullmatch SHA64 h" "(s, t) \<in> {(ACCEPTED, 0), (APPLYING, 2)}"
  shows "effect_check (durable_receipt s t key fp) = None"
proof -
  have "fullmatch SAFE_ID ''workspace_edit''" "fullmatch SAFE_ID hex24" by code_simp+
  moreover have "\<forall>c \<in> set (effect_evidence_checks (durable_receipt s t key fp)). c = None"
    using assms(3) by (auto simp: effect_evidence_checks_def durable_receipt_def Let_def)
  moreover have "effect_times_check (durable_receipt s t key fp) = None"
    using assms(3) by (auto simp: effect_times_check_def durable_receipt_def receipt_timestamp_def clock_instant [of 2])
  ultimately show ?thesis
    using assms(1,2) example_effect_ids example_effect_identity
    by (auto simp: effect_check_def durable_receipt_def EFFECT_RECEIPT_SCHEMA_VERSION_def effect_optional_def split: option.splits)
qed

lemma durable_receipt_weight:
  assumes "length fp = 64" "case key of None \<Rightarrow> True | Some h \<Rightarrow> length h = 64"
  shows "json_weight 0 (VDict (envelope_dict effect_repo (new_envelope effect_repo a_receipt 1 (durable_receipt ACCEPTED t key fp)))) \<le> 10000"
    and "json_weight 0 (VDict (envelope_dict effect_repo (new_envelope effect_repo a_receipt (1 + 1) (durable_receipt APPLYING t key fp)))) \<le> 10000"
proof -
  have k: "json_weight n (of_opt key) \<le> 1000 + json_weight n VNone" for n
    using assms(2) by (cases key) (simp_all add: of_opt_def)
  show "json_weight 0 (VDict (envelope_dict effect_repo (new_envelope effect_repo a_receipt 1 (durable_receipt ACCEPTED t key fp)))) \<le> 10000"
    and "json_weight 0 (VDict (envelope_dict effect_repo (new_envelope effect_repo a_receipt (1 + 1) (durable_receipt APPLYING t key fp)))) \<le> 10000"
    using assms(1) k [of "Suc (Suc 0)"]
    by (simp_all add: envelope_dict_def effect_repo_def new_envelope_def effect_dict_def durable_receipt_def
      identity_dict_def of_opt_def [of None] length_clock str_of_int_def str_of_nat.simps EFFECT_RECEIPT_SCHEMA_VERSION_def)
qed

abbreviation durable_envelope :: "EffectReceiptState \<Rightarrow> int \<Rightarrow> nat \<Rightarrow> string option \<Rightarrow> string \<Rightarrow> EffectReceipt StateEnvelope" where
  "durable_envelope s n t key fp \<equiv> new_envelope effect_repo a_receipt n (durable_receipt s t key fp)"

lemma durable_receipt_stored:
  assumes "fullmatch SHA64 fp" "length fp = 64" "case key of None \<Rightarrow> True | Some h \<Rightarrow> fullmatch SHA64 h \<and> length h = 64"
  shows "\<exists>fs fs'. effect_store_create [] (durable_receipt ACCEPTED 0 key fp) = Inr (fs, durable_envelope ACCEPTED 1 0 key fp) \<and>
    effect_store_save fs (durable_receipt APPLYING 2 key fp) 1 = Inr (fs', durable_envelope APPLYING 2 2 key fp)"
proof -
  have valid: "effect_check (durable_receipt ACCEPTED 0 key fp) = None" "effect_check (durable_receipt APPLYING 2 key fp) = None"
    by (rule durable_receipt_valid; use assms in \<open>auto split: option.splits\<close>)+
  have m: "2 * 10000 < sr_max_bytes effect_repo" by (simp add: effect_repo_def)
  have k: "case key of None \<Rightarrow> True | Some h \<Rightarrow> length h = 64" using assms(3) by (auto split: option.splits)
  note weight = durable_receipt_weight [OF assms(2) k]
  obtain fs where c: "repo_create effect_repo [] a_receipt (durable_receipt ACCEPTED 0 key fp) = Inr (fs, durable_envelope ACCEPTED 1 0 key fp)"
    using repo_create_fits [OF receipt_repo_ids(2) [OF example_effect_ids(1)] _ weight(1) m, of "[]"] by auto
  note r = repo_create_reads(1) [OF c effect_codec_keeps [OF valid(1)]]
  obtain fs' where "repo_save effect_repo fs a_receipt (durable_receipt APPLYING 2 key fp) 1 = Inr (fs', durable_envelope APPLYING (1 + 1) 2 key fp)"
    using repo_save_fits [OF r _ weight(2) m] by (auto simp: new_envelope_def)
  with c valid show ?thesis by (auto simp: effect_store_repo durable_receipt_def)
qed

lemma durable_receipt_acts:
  assumes "fullmatch SHA64 fp" "length fp = 64" "case key of None \<Rightarrow> True | Some h \<Rightarrow> fullmatch SHA64 h \<and> length h = 64"
    and "i < n" "m \<le> j" "j < n"
  shows "\<exists>fs fs'. (\<forall>w. w_receipts w = [] \<longrightarrow>
      create_receipt (until m n) i (bind_result (captured (until m n) i None VNone)
        (create_effect_receipt a_receipt an_id ''workspace_edit'' key fp (clock 0) hex24)) w =
      (Inr (), w\<lparr>w_receipts := fs, w_receipt := durable_envelope ACCEPTED 1 0 key fp\<rparr>)) \<and>
    (\<forall>w. w_receipts w = fs \<and> w_receipt w = durable_envelope ACCEPTED 1 0 key fp \<longrightarrow>
      save_receipt (until m n) j APPLYING no_effect_args (Inr None) w =
      (Inr (), w\<lparr>w_receipts := fs', w_receipt := durable_envelope APPLYING 2 2 key fp\<rparr>))"
proof -
  have valid: "effect_check (durable_receipt ACCEPTED 0 key fp) = None" "effect_check (durable_receipt APPLYING 2 key fp) = None"
    by (rule durable_receipt_valid; use assms in \<open>auto split: option.splits\<close>)+
  obtain fs fs' where s: "effect_store_create [] (durable_receipt ACCEPTED 0 key fp) = Inr (fs, durable_envelope ACCEPTED 1 0 key fp)"
    "effect_store_save fs (durable_receipt APPLYING 2 key fp) 1 = Inr (fs', durable_envelope APPLYING 2 2 key fp)"
    using durable_receipt_stored [OF assms(1-3)] by blast
  have "captured (until m n) i None VNone = Inr (Some [])"
    by (simp add: captured_def capture_effect_identity_def bounded_scalars_def Let_def dict_get_none_def)
  moreover have "create_effect_receipt a_receipt an_id ''workspace_edit'' key fp (clock 0) hex24 (Some []) = Inr (durable_receipt ACCEPTED 0 key fp)"
    using valid(1) by (simp add: create_effect_receipt_def normalize_effect_identity_def identity_dict_def dict_from_def
        validate_effect_receipt_def durable_receipt_def EFFECT_RECEIPT_SCHEMA_VERSION_def)
  moreover have "transition_effect_receipt (durable_receipt ACCEPTED 0 key fp) APPLYING (clock 2) (no_effect_args\<lparr>ea_post_identity := None\<rparr>) =
      Inr (durable_receipt APPLYING 2 key fp)"
    using valid by (simp add: transition_effect_receipt_def validate_effect_receipt_def no_effect_args_def durable_receipt_def)
  ultimately show ?thesis
    using s assms(4-6)
    by (intro exI [where x = fs] exI [where x = fs']) (simp add: create_receipt_def save_receipt_def access_def until_def new_envelope_def)
qed

section \<open>The world before the call, and the operation\<close>

definition blank :: world where
  "blank = \<lparr>w_ops = [], w_receipts = [], w_results = [], w_keys = [], w_receipt = durable_envelope ACCEPTED 0 0 None [],
     w_result = VNone, w_boundary = Some new_boundary, w_published = None\<rparr>"

lemma blank_simps [simp]:
  "w_ops blank = []" "w_receipts blank = []" "w_keys blank = []" "\<not> boundary_started blank" "w_boundary blank = Some new_boundary"
  by (simp_all add: blank_def boundary_started_def new_boundary_def)

text \<open>It crosses the boundary and returns.\<close>

definition crossing :: operation where
  "crossing b = (Inr (VInt 1), map_option boundary_begin b)"

lemmas act_defs = then_act_def bind_act_def catch_act_def lift_act_def return_act_def raise_act_def modify_act_def reading_def
  access_def audited_act_def run_operation_def

lemma until_simps [simp]:
  "ee_fault (until m n) k = (if k < n then None else Some (RuntimeError ''crash''))" "ee_mgr (until m n) k = quiet 2"
  "ee_clock (until m n) k = (if k < m then clock 0 else clock 2)" "ee_hex (until m n) k = hex24" "ee_peers (until m n) k fs = fs"
  "ee_epoch (until m n) k = 0"
  by (simp_all add: until_def)

lemma until_down [simp]:
  assumes "n \<le> k"
  shows "save_result (until m n) k i d w = (Inl (RuntimeError ''crash''), w)"
    and "save_receipt (until m n) k t a p w = (Inl (RuntimeError ''crash''), w)"
  using assms by (simp_all add: save_result_def save_receipt_def access_def raise_act_def)

lemma crossed_simps [simp]:
  "eb_started (boundary_begin b)" "\<not> eb_rolled_back (boundary_begin b)"
  "eb_authoritative_result (boundary_begin new_boundary) = VNone"
  by (simp_all add: boundary_begin_def new_boundary_def)

end
