(* ===== verification/Outcome_Receipts.thy ===== *)
theory Outcome_Receipts
  imports Effect_Example
begin

text \<open>
  application/outcome\_receipts.py: the executor of state-changing operations that have no idempotency
  key. It creates an operation and a receipt, runs the operation, and records in the receipt how far
  the effect got.
\<close>

section \<open>The executor\<close>

record outcome_call =
  oc_operation_id :: string
  oc_receipt_id :: string
  oc_details :: "pydict option"

definition outcome_reference :: "outcome_call \<Rightarrow> string" where
  "outcome_reference c = ''operation-result:'' @ oc_operation_id c"

text \<open>The handler of a failed output validation, inside \<open>execute\<close>.\<close>

definition output_invalid :: "effect_env \<Rightarrow> outcome_call \<Rightarrow> exn \<Rightarrow> pyval act" where
  "output_invalid env c exc =
     then_act (save_receipt env 7 FAILED_AFTER_EFFECT
       ((failed_args env ''FAILED_AFTER_EFFECT'' exc)\<lparr>ea_result_reference := Some (outcome_reference c)\<rparr>) (Inr None))
    (then_act (fail_operation env 8 (oc_operation_id c) ''FAILED_AFTER_EFFECT'' exc (Some (outcome_reference c))
       (oc_receipt_id c) RETRY_NONE)
    (raise_act (RepoForgeError ''FAILED_AFTER_EFFECT''
       ''FAILED_AFTER_EFFECT: the effect is durable but output validation failed'')))"

definition execute_effect ::
  "effect_env \<Rightarrow> outcome_call \<Rightarrow> operation \<Rightarrow> (pyval \<Rightarrow> pyval result) \<Rightarrow> pyval act" where
  "execute_effect env c operation encoder =
     bind_act (run_operation operation) (\<lambda>result.
     then_act (modify_act (\<lambda>w. w\<lparr>w_result := result\<rparr>))
    (bind_act (lift_act (durable_result result)) (\<lambda>durable.
     then_act (save_result env 5 (oc_operation_id c) durable)
    (then_act (reading (\<lambda>w. save_receipt env 6 APPLIED_UNVALIDATED
       (no_effect_args\<lparr>ea_result_reference := Some (outcome_reference c),
          ea_effect_boundary_crossed := Some (boundary_started w)\<rparr>)
       (captured env 6 (oc_details c) result)))
    (bind_act (catch_act (lift_act (bind_result (encoder result) (sanitize_persisted_data [] []))) (output_invalid env c)) (\<lambda>_.
     then_act (save_receipt env 9 APPLIED_VALIDATED
       (no_effect_args\<lparr>ea_result_reference := Some (outcome_reference c)\<rparr>) (Inr None))
    (then_act (manager_call env 10 (\<lambda>m fs. mgr_succeed m fs (oc_operation_id c) (outcome_reference c)
       (Some (oc_receipt_id c)) None (Some (ee_clock env 10))))
    (then_act publish_outcome
    (return_act result)))))))))"

text \<open>
  The handler around the audited execution. An exception that is one of the \<open>deferred_exceptions\<close>
  leaves the receipt to the recovery of the journal.
\<close>

definition effect_failed ::
  "effect_env \<Rightarrow> outcome_call \<Rightarrow> (exn \<Rightarrow> bool) \<Rightarrow> exn \<Rightarrow> pyval act" where
  "effect_failed env c deferred exc = reading (\<lambda>w.
     let receipt = env_value (w_receipt w); oid = oc_operation_id c; rid = oc_receipt_id c in
     if er_state receipt = APPLIED_VALIDATED \<and> w_result w \<noteq> VNone
     then then_act publish_outcome (return_act (w_result w))
     else if has_code exc ''FAILED_AFTER_EFFECT'' then raise_act exc
     else if deferred exc then raise_act exc
     else if authoritative_result w \<noteq> VNone then
       bind_act (lift_act (durable_result (authoritative_result w))) (\<lambda>durable.
       then_act (save_result env 12 oid durable)
      (then_act (save_receipt env 13 FAILED_AFTER_EFFECT
         ((failed_args env ''FAILED_AFTER_EFFECT'' exc)\<lparr>ea_result_reference := Some (outcome_reference c),
            ea_effect_boundary_crossed := Some True\<rparr>)
         (captured env 13 (oc_details c) (authoritative_result w)))
      (then_act (fail_operation env 14 oid ''FAILED_AFTER_EFFECT'' exc (Some (outcome_reference c)) rid RETRY_NONE)
      (raise_act (RepoForgeError ''FAILED_AFTER_EFFECT''
         ''FAILED_AFTER_EFFECT: the effect completed before local finalization failed'')))))
     else if boundary_rolled_back w then
       then_act (save_receipt env 15 ROLLED_BACK
         ((failed_args env ''EFFECT_ROLLED_BACK'' exc)\<lparr>ea_effect_boundary_crossed := Some True\<rparr>)
         (captured env 15 (oc_details c) VNone))
      (then_act (fail_operation env 16 oid ''EFFECT_ROLLED_BACK'' exc None rid RETRY_AUTOMATIC)
      (raise_act exc))
     else if er_effect_boundary_crossed receipt \<or> boundary_started w then
       then_act (save_receipt env 17 UNKNOWN
         ((failed_args env ''EFFECT_OUTCOME_UNKNOWN'' exc)\<lparr>ea_effect_boundary_crossed := Some True\<rparr>)
         (captured env 17 (oc_details c) VNone))
      (then_act (fail_operation env 18 oid ''EFFECT_OUTCOME_UNKNOWN'' exc None rid RETRY_MANUAL)
      (raise_act (RepoForgeError ''EFFECT_OUTCOME_UNKNOWN''
         ''EFFECT_OUTCOME_UNKNOWN: the effect boundary was crossed without an authoritative result'')))
     else
       then_act (save_receipt env 19 FAILED_BEFORE_EFFECT (failed_args env ''FAILED_BEFORE_EFFECT'' exc) (Inr None))
      (then_act (fail_operation env 20 oid ''FAILED_BEFORE_EFFECT'' exc None rid RETRY_AUTOMATIC)
      (raise_act exc)))"

definition audited_effect ::
  "effect_env \<Rightarrow> outcome_call \<Rightarrow> operation \<Rightarrow> (pyval \<Rightarrow> pyval result) \<Rightarrow> (exn \<Rightarrow> bool) \<Rightarrow> pyval act" where
  "audited_effect env c operation encoder deferred =
     catch_act (audited_act env 4 11 (execute_effect env c operation encoder)) (effect_failed env c deferred)"

text \<open>The call with its operation and its receipt in place.\<close>

definition run_effect ::
  "effect_env \<Rightarrow> outcome_call \<Rightarrow> operation \<Rightarrow> (pyval \<Rightarrow> pyval result) \<Rightarrow> (exn \<Rightarrow> bool) \<Rightarrow> pyval act" where
  "run_effect env c operation encoder deferred =
     then_act (save_receipt env 2 APPLYING no_effect_args (Inr None))
    (then_act (manager_call env 3 (\<lambda>m fs. mgr_start m fs (oc_operation_id c) None None None None (Some (ee_clock env 3))))
    (then_act (modify_act (\<lambda>w. w\<lparr>w_result := VNone\<rparr>))
    (audited_effect env c operation encoder deferred)))"

definition execute_with_outcome_receipt ::
  "effect_env \<Rightarrow> string \<Rightarrow> pyval \<Rightarrow> operation \<Rightarrow> pydict option \<Rightarrow> (pyval \<Rightarrow> pyval result) \<Rightarrow> (exn \<Rightarrow> bool) \<Rightarrow> pyval act" where
  "execute_with_outcome_receipt env action request operation details encoder deferred =
     bind_act (manager_call env 0 (\<lambda>m fs. mgr_create m (ee_hex env 1) fs None action ''accepted'' False None
       (detail_workspace details) None None (Some (ee_clock env 0)))) (\<lambda>task.
     let rid = ''receipt-'' @ ee_hex env 2 in
     then_act (create_receipt env 1 (bind_result (captured env 1 details VNone)
       (create_effect_receipt rid (op_id task) action None (request_fingerprint request) (ee_clock env 0) (ee_hex env 0))))
    (run_effect env \<lparr>oc_operation_id = op_id task, oc_receipt_id = rid, oc_details = details\<rparr> operation encoder deferred))"

section \<open>What a call leaves behind\<close>

text \<open>The held receipt is validated and stored, and so is the result.\<close>

definition settled :: "pyval \<Rightarrow> world \<Rightarrow> bool" where
  "settled v w \<longleftrightarrow> er_state (env_value (w_receipt w)) = APPLIED_VALIDATED \<and> w_result w = v \<and>
     effect_store_read (w_receipts w) (er_receipt_id (env_value (w_receipt w))) = Inr (Some (w_receipt w)) \<and>
     (\<exists>d. durable_result v = Inr d \<and>
        result_store_read (w_results w) (er_operation_id (env_value (w_receipt w))) = Inr (Some (file_dict d)))"

definition holds :: "outcome_call \<Rightarrow> EffectReceiptState set \<Rightarrow> world \<Rightarrow> bool" where
  "holds c S w \<longleftrightarrow> er_state (env_value (w_receipt w)) \<in> S \<and> er_receipt_id (env_value (w_receipt w)) = oc_receipt_id c \<and>
     er_operation_id (env_value (w_receipt w)) = oc_operation_id c"

lemma execute_effect_outcome:
  assumes "holds c {APPLYING} w"
  shows "wp (execute_effect env c operation encoder) (\<lambda>v w. settled v w \<and> w_published w = Some (env_value (w_receipt w)))
     (\<lambda>e w. holds c {APPLYING, APPLIED_UNVALIDATED, FAILED_AFTER_EFFECT} w \<or> settled (w_result w) w) w"
  using assms unfolding execute_effect_def output_invalid_def
  by (auto simp: wp_simps settled_def holds_def dest!: result_saved_read intro!: wp_rules)

text \<open>A receipt that says that nothing happened, or that all was undone, says so truly.\<close>

definition truthful :: "world \<Rightarrow> bool" where
  "truthful w \<longleftrightarrow> (boundary_started w \<longrightarrow> er_state (env_value (w_receipt w)) \<noteq> FAILED_BEFORE_EFFECT \<and>
     (er_state (env_value (w_receipt w)) = ROLLED_BACK \<longrightarrow> boundary_rolled_back w))"

lemma truthful_unstarted: "\<not> boundary_started w \<Longrightarrow> truthful w"
  by (simp add: truthful_def)

lemma settled_result: "settled v w \<Longrightarrow> settled (w_result w) w"
  by (simp add: settled_def)

lemma effect_failed_outcome:
  assumes "holds c {APPLYING, APPLIED_UNVALIDATED, FAILED_AFTER_EFFECT} w \<or> settled (w_result w) w"
  shows "wp (effect_failed env c deferred exc) (\<lambda>v w. settled v w \<and> w_published w = Some (env_value (w_receipt w)))
     (\<lambda>e. truthful) w"
proof (cases "er_state (env_value (w_receipt w)) = APPLIED_VALIDATED \<and> w_result w \<noteq> VNone")
  case True
  with assms have "settled (w_result w) w" by (auto simp: holds_def)
  with True show ?thesis by (simp add: effect_failed_def wp_simps settled_def)
next
  case False
  from assms have "er_state (env_value (w_receipt w)) \<notin> {FAILED_BEFORE_EFFECT, ROLLED_BACK}"
    by (auto simp: holds_def settled_def)
  with False show ?thesis
    unfolding effect_failed_def Let_def wp_simps if_not_P [OF False]
    by (clarsimp simp: wp_simps) (safe intro!: wp_rules; simp add: wp_simps truthful_def; (safe intro!: wp_rules)?; simp add: truthful_def)
qed

lemma run_effect_outcome:
  assumes "holds c {ACCEPTED} w"
  shows "wp (run_effect env c operation encoder deferred)
     (\<lambda>v w. settled v w \<and> w_published w = Some (env_value (w_receipt w))) (\<lambda>e. truthful) w"
proof -
  have started: "wp (audited_effect env c operation encoder deferred)
     (\<lambda>v w. settled v w \<and> w_published w = Some (env_value (w_receipt w))) (\<lambda>e. truthful) w"
    if "holds c {APPLYING} w" for w
    unfolding audited_effect_def wp_catch
  proof (rule wp_audited)
    show "wp (effect_failed env c deferred e) (\<lambda>v w. settled v w \<and> w_published w = Some (env_value (w_receipt w)))
        (\<lambda>e. truthful) w" for e
      using that by (intro effect_failed_outcome) (auto simp: holds_def)
    show "wp (execute_effect env c operation encoder)
        (\<lambda>v w. (settled v w \<and> w_published w = Some (env_value (w_receipt w))) \<and>
          (\<forall>e. wp (effect_failed env c deferred e) (\<lambda>v w. settled v w \<and> w_published w = Some (env_value (w_receipt w)))
             (\<lambda>e. truthful) w))
        (\<lambda>e. wp (effect_failed env c deferred e) (\<lambda>v w. settled v w \<and> w_published w = Some (env_value (w_receipt w)))
             (\<lambda>e. truthful)) w"
      by (rule wp_mono [OF execute_effect_outcome [OF that]]) (auto intro!: effect_failed_outcome dest: settled_result)
  qed
  show ?thesis
    using assms unfolding run_effect_def
    by (auto simp: wp_simps holds_def truthful_def intro!: wp_rules started)
qed

text \<open>
  Claim C5. The receipt of a call tells the truth about its effect. A call that returns leaves a
  validated receipt and the durable form of its result in the stores, and published that receipt;
  after a call that raises, wherever it failed and whatever other processes did to the receipts, the
  receipt does not say that the operation failed before its effect when the operation had crossed the
  effect boundary, and says that the effect was rolled back only if the operation rolled it back.
\<close>

theorem outcome_receipt_truthful:
  assumes "execute_with_outcome_receipt env action request operation details encoder deferred w = (r, w')"
    and "\<not> boundary_started w"
  shows "case r of
      Inr v \<Rightarrow> er_state (env_value (w_receipt w')) = APPLIED_VALIDATED \<and>
        w_published w' = Some (env_value (w_receipt w')) \<and>
        effect_store_read (w_receipts w') (er_receipt_id (env_value (w_receipt w'))) = Inr (Some (w_receipt w')) \<and>
        (\<exists>d. durable_result v = Inr d \<and>
           result_store_read (w_results w') (er_operation_id (env_value (w_receipt w'))) = Inr (Some (file_dict d)))
    | Inl e \<Rightarrow> boundary_started w' \<longrightarrow> er_state (env_value (w_receipt w')) \<noteq> FAILED_BEFORE_EFFECT \<and>
        (er_state (env_value (w_receipt w')) = ROLLED_BACK \<longrightarrow> boundary_rolled_back w')"
proof -
  have "wp (execute_with_outcome_receipt env action request operation details encoder deferred)
     (\<lambda>v w. settled v w \<and> w_published w = Some (env_value (w_receipt w))) (\<lambda>e. truthful) w"
    using assms(2) unfolding execute_with_outcome_receipt_def Let_def
    by (auto simp: wp_simps truthful_unstarted holds_def new_envelope_def
        create_effect_receipt_def validate_effect_receipt_def bind_result_Inr_iff
        intro!: wp_rules wp_mono [OF run_effect_outcome])
  then show ?thesis
    using assms(1) by (auto simp: wp_def settled_def truthful_def split: sum.splits)
qed

text \<open>
  Claim C39. Output validation that fails after an operation that returned without beginning its effect
  boundary is not recorded: the receipt stays applied-unvalidated and the operation keeps its record,
  because neither handler has a transition that such a receipt allows.
\<close>

theorem unstarted_output_failure_unrecorded:
  assumes "er_state (env_value (w_receipt w)) = APPLIED_UNVALIDATED" "\<not> er_effect_boundary_crossed (env_value (w_receipt w))"
    and "\<not> boundary_started w" "\<not> boundary_rolled_back w" "authoritative_result w = VNone"
  shows "\<exists>e w'. catch_act (output_invalid env c exc) (effect_failed env c deferred) w = (Inl e, w') \<and>
    w_receipt w' = w_receipt w \<and> w_ops w' = w_ops w"
proof -
  have after: "wp (save_receipt env n FAILED_AFTER_EFFECT ((failed_args env code e)\<lparr>ea_result_reference := ref\<rparr>) post) Q E w"
    if "\<And>e fs. E e (w\<lparr>w_receipts := fs\<rparr>)" for n code e ref post Q E
    using assms(1,2) that
    by (intro wp_transition_receipt)
      (auto simp: transition_effect_receipt_def validate_effect_receipt_def effect_check_def effect_evidence_checks_def Let_def
        failed_args_def no_effect_args_def bind_result_Inr_iff split: if_splits option.splits)
  have before: "wp (save_receipt env n FAILED_BEFORE_EFFECT args post) Q E u"
    if "\<And>e fs. E e (u\<lparr>w_receipts := fs\<rparr>)" "w_receipt u = w_receipt w" for n args post u and Q E
    using assms(1) that by (intro wp_transition_receipt) (auto simp: transition_effect_receipt_def bind_result_Inr_iff)
  have "wp (catch_act (output_invalid env c exc) (effect_failed env c deferred)) (\<lambda>_ _. False)
      (\<lambda>_ w'. w_receipt w' = w_receipt w \<and> w_ops w' = w_ops w) w"
    unfolding output_invalid_def wp_catch wp_then
    using assms
    by (intro after) (auto simp: effect_failed_def Let_def wp_simps authoritative_result_def intro!: before)
  then show ?thesis by (auto simp: wp_def split: prod.splits sum.splits)
qed

subsection \<open>Witnesses\<close>

text \<open>The process dies after the operation crossed the boundary, before anything of its result is stored.\<close>

theorem outcome_receipt_truthful_witness:
  "\<exists>e w'. execute_with_outcome_receipt (until 1 5) ''workspace_edit'' (VInt 0) crossing None Inr (\<lambda>_. False) blank = (Inl e, w') \<and>
     boundary_started w' \<and> er_state (env_value (w_receipt w')) \<noteq> FAILED_BEFORE_EFFECT"
proof -
  let ?fp = "request_fingerprint (VInt 0)"
  have fp: "fullmatch SHA64 ?fp" "length ?fp = 64" by (simp_all add: request_fingerprint_def)
  obtain fs fs' where acts: "\<And>w. w_receipts w = [] \<Longrightarrow>
      create_receipt (until 1 5) 1 (bind_result (captured (until 1 5) 1 None VNone)
        (create_effect_receipt a_receipt an_id ''workspace_edit'' None ?fp (clock 0) hex24)) w =
      (Inr (), w\<lparr>w_receipts := fs, w_receipt := durable_envelope ACCEPTED 1 0 None ?fp\<rparr>)"
    "\<And>w. w_receipts w = fs \<Longrightarrow> w_receipt w = durable_envelope ACCEPTED 1 0 None ?fp \<Longrightarrow>
      save_receipt (until 1 5) 2 APPLYING no_effect_args (Inr None) w =
      (Inr (), w\<lparr>w_receipts := fs', w_receipt := durable_envelope APPLYING 2 2 None ?fp\<rparr>)"
    using durable_receipt_acts [OF fp, of None 1 5 1 2] by auto
  have "\<exists>w'. execute_with_outcome_receipt (until 1 5) ''workspace_edit'' (VInt 0) crossing None Inr (\<lambda>_. False) blank =
      (Inl (RuntimeError ''crash''), w') \<and> boundary_started w'"
    by (simp add: execute_with_outcome_receipt_def run_effect_def audited_effect_def act_defs
        manager_call_def durable_created durable_started detail_workspace_def acts [unfolded One_nat_def] Let_def
        execute_effect_def effect_failed_def crossing_def durable_result_def has_code_def
        new_envelope_def durable_receipt_def boundary_started_def boundary_rolled_back_def authoritative_result_def)
  then show ?thesis using outcome_receipt_truthful by fastforce
qed

theorem unstarted_output_failure_unrecorded_witness:
  "\<exists>e w'. catch_act (output_invalid (until 0 0) \<lparr>oc_operation_id = an_id, oc_receipt_id = a_receipt, oc_details = None\<rparr> StopIteration)
     (effect_failed (until 0 0) \<lparr>oc_operation_id = an_id, oc_receipt_id = a_receipt, oc_details = None\<rparr> (\<lambda>_. False))
     (blank\<lparr>w_receipt := durable_envelope APPLIED_UNVALIDATED 3 2 None []\<rparr>) = (Inl e, w') \<and>
     w_receipt w' = durable_envelope APPLIED_UNVALIDATED 3 2 None []"
  using unstarted_output_failure_unrecorded
    [of "blank\<lparr>w_receipt := durable_envelope APPLIED_UNVALIDATED 3 2 None []\<rparr>" "until 0 0"
       "\<lparr>oc_operation_id = an_id, oc_receipt_id = a_receipt, oc_details = None\<rparr>" StopIteration "\<lambda>_. False"]
  by (auto simp: new_envelope_def durable_receipt_def boundary_started_def boundary_rolled_back_def authoritative_result_def
      new_boundary_def)

end
