(* ===== verification/Idempotency.thy ===== *)
theory Idempotency
  imports Effect_Example
begin

text \<open>
  The executor of state-changing operations that carry an idempotency key: application/idempotency.py
  with the records of domain/operations.py and their store
  adapters/persistence/json\_idempotency\_store.py. The lock of a key is held during the whole call, so
  no other process touches the record of the key. Times in seconds are whole numbers.
\<close>

section \<open>Records\<close>

datatype IdempotencyState = IN_PROGRESS | COMPLETED | UNCERTAIN

definition key_state_value :: "IdempotencyState \<Rightarrow> string" where
  "key_state_value s = (case s of IN_PROGRESS \<Rightarrow> ''in_progress'' | COMPLETED \<Rightarrow> ''completed'' | UNCERTAIN \<Rightarrow> ''uncertain'')"

text \<open>The loader does not check the types of the other fields.\<close>

record IdempotencyRecord =
  ir_action :: string
  ir_key_hash :: string
  ir_request_fingerprint :: pyval
  ir_state :: IdempotencyState
  ir_updated_at :: pyval
  ir_updated_at_epoch :: pyval
  ir_correlation_id :: pyval
  ir_result :: pyval
  ir_receipt_id :: pyval
  ir_operation_id :: pyval

definition hash_idempotency_key :: "string \<Rightarrow> string result" where
  "hash_idempotency_key key =
     (if \<not> (8 \<le> length key \<and> length key \<le> 200)
      then Inl (ValueError ''Idempotency key must contain between 8 and 200 characters'')
      else if \<exists>c \<in> set key. ord_c c < 32 \<or> ord_c c = 127
      then Inl (ValueError ''Idempotency key must not contain control characters'')
      else Inr (sha256_hex (utf8_encode key)))"

section \<open>The store\<close>

definition SAFE_ACTION :: regex where
  "SAFE_ACTION = Seq (One is_ascii_lower) (upto (\<lambda>c. is_ascii_lower c \<or> is_digit c \<or> c = CHR ''_'') 1 79)"

definition key_path :: "string \<Rightarrow> string \<Rightarrow> string result" where
  "key_path action key_hash =
     (if \<not> fullmatch SAFE_ACTION action \<or> \<not> fullmatch SHA64 key_hash
      then Inl (config_error ''Invalid idempotency record identity'')
      else Inr (action @ ''-'' @ key_hash))"

definition key_corrupt :: exn where
  "key_corrupt = RepoForgeError ''STATE_PERSISTENCE_FAILED'' ''STATE_PERSISTENCE_FAILED: idempotency record is corrupt''"

definition key_payload_of :: "IdempotencyRecord \<Rightarrow> pyval \<Rightarrow> pydict" where
  "key_payload_of r result =
     [(''action'', VStr (ir_action r)), (''key_hash'', VStr (ir_key_hash r)),
      (''request_fingerprint'', ir_request_fingerprint r), (''state'', VStr (key_state_value (ir_state r))),
      (''updated_at'', ir_updated_at r), (''updated_at_epoch'', ir_updated_at_epoch r),
      (''correlation_id'', ir_correlation_id r), (''result'', result), (''receipt_id'', ir_receipt_id r),
      (''operation_id'', ir_operation_id r)]"

definition KEY_REQUIRED :: "string list" where
  "KEY_REQUIRED = [''action'', ''key_hash'', ''request_fingerprint'', ''state'', ''updated_at'', ''updated_at_epoch'', ''correlation_id'']"

definition key_decode :: "json_file \<Rightarrow> string \<Rightarrow> string \<Rightarrow> IdempotencyRecord result" where
  "key_decode f action key_hash =
     (case f of
        Json (VDict raw) \<Rightarrow>
          (case (dict_get_none raw ''state'') of
             VStr s \<Rightarrow>
               (case enum_of ''IdempotencyState'' key_state_value [IN_PROGRESS, COMPLETED, UNCERTAIN] s of
                  Inr state \<Rightarrow>
                    if \<not> set KEY_REQUIRED \<subseteq> set (map fst raw) \<or>
                       \<not> set (map fst raw) \<subseteq> set (KEY_REQUIRED @ [''result'', ''receipt_id'', ''operation_id'']) \<or>
                       dict_get_none raw ''action'' \<noteq> VStr action \<or> dict_get_none raw ''key_hash'' \<noteq> VStr key_hash
                    then Inl key_corrupt
                    else Inr \<lparr>ir_action = action, ir_key_hash = key_hash,
                      ir_request_fingerprint = dict_get_none raw ''request_fingerprint'', ir_state = state,
                      ir_updated_at = dict_get_none raw ''updated_at'',
                      ir_updated_at_epoch = dict_get_none raw ''updated_at_epoch'',
                      ir_correlation_id = dict_get_none raw ''correlation_id'', ir_result = dict_get_none raw ''result'',
                      ir_receipt_id = dict_get_none raw ''receipt_id'', ir_operation_id = dict_get_none raw ''operation_id''\<rparr>
                | Inl _ \<Rightarrow> Inl key_corrupt)
           | _ \<Rightarrow> Inl key_corrupt)
      | _ \<Rightarrow> Inl key_corrupt)"

definition key_load :: "files \<Rightarrow> string \<Rightarrow> string \<Rightarrow> IdempotencyRecord option result" where
  "key_load fs action key_hash =
     bind_result (key_path action key_hash) (\<lambda>path.
     case map_of fs path of None \<Rightarrow> Inr None
     | Some f \<Rightarrow> bind_result (key_decode f action key_hash) (\<lambda>r. Inr (Some r)))"

definition key_save :: "files \<Rightarrow> IdempotencyRecord \<Rightarrow> files result" where
  "key_save fs r =
     bind_result (key_path (ir_action r) (ir_key_hash r)) (\<lambda>path.
     bind_result (sanitize_persisted_data [] [] (ir_result r)) (\<lambda>result.
       Inr (dict_set fs path (Json (json_sorted (VDict (key_payload_of r result)))))))"

definition key_delete :: "files \<Rightarrow> string \<Rightarrow> string \<Rightarrow> files result" where
  "key_delete fs action key_hash = bind_result (key_path action key_hash) (\<lambda>path. Inr (delete_file fs path))"

section \<open>Calls\<close>

text \<open>
  The arguments of a call, with \<open>serialize\<close> and \<open>deserialize\<close> as functions, and with what
  \<open>reconcile_uncertain\<close>, when it is given, returns or raises if it is called.
\<close>

record keyed_call =
  kc_action :: string
  kc_key :: "string option"
  kc_request :: pyval
  kc_details :: "pydict option"
  kc_encoder :: "pyval \<Rightarrow> pyval result"
  kc_decoder :: "pyval \<Rightarrow> pyval result"
  kc_reconcile :: "pyval result option"
  kc_operation_id :: "string option"
  kc_stale_seconds :: int

text \<open>What a call derives: the hash of its key, its fingerprint, its correlation id and, once it has
  claimed the key, its operation and its receipt.\<close>

record key_claim =
  cl_hash :: string
  cl_fingerprint :: string
  cl_correlation :: string
  cl_operation_id :: string
  cl_receipt_id :: string

definition load_key :: "effect_env \<Rightarrow> nat \<Rightarrow> string \<Rightarrow> string \<Rightarrow> IdempotencyRecord option act" where
  "load_key env k action key_hash = access env k (\<lambda>w. (key_load (w_keys w) action key_hash, w))"

definition save_key :: "effect_env \<Rightarrow> nat \<Rightarrow> IdempotencyRecord \<Rightarrow> unit act" where
  "save_key env k r = access env k (\<lambda>w.
     case key_save (w_keys w) r of Inl e \<Rightarrow> (Inl e, w) | Inr fs \<Rightarrow> (Inr (), w\<lparr>w_keys := fs\<rparr>))"

definition delete_key :: "effect_env \<Rightarrow> nat \<Rightarrow> string \<Rightarrow> string \<Rightarrow> unit act" where
  "delete_key env k action key_hash = access env k (\<lambda>w.
     case key_delete (w_keys w) action key_hash of Inl e \<Rightarrow> (Inl e, w) | Inr fs \<Rightarrow> (Inr (), w\<lparr>w_keys := fs\<rparr>))"

definition read_receipt :: "effect_env \<Rightarrow> nat \<Rightarrow> pyval \<Rightarrow> EffectReceipt StateEnvelope option act" where
  "read_receipt env k i = access env k (\<lambda>w.
     let others = w\<lparr>w_receipts := ee_peers env k (w_receipts w)\<rparr> in
     case i of
       VStr s \<Rightarrow> (effect_store_read (w_receipts others) s, others)
     | _ \<Rightarrow> (Inl (state_error ''STATE_INVALID'' ''State record identifier is invalid''), others))"

definition publish_record_outcome :: "effect_env \<Rightarrow> nat \<Rightarrow> IdempotencyRecord \<Rightarrow> unit act" where
  "publish_record_outcome env k r =
     (if ir_receipt_id r = VNone then return_act ()
      else bind_act (read_receipt env k (ir_receipt_id r)) (\<lambda>found.
        case found of None \<Rightarrow> return_act ()
        | Some e \<Rightarrow> modify_act (\<lambda>w. w\<lparr>w_published := Some (env_value e)\<rparr>)))"

definition materialize :: "keyed_call \<Rightarrow> pyval \<Rightarrow> (pyval \<times> pyval) result" where
  "materialize c result =
     bind_result (kc_encoder c result) (\<lambda>encoded.
     bind_result (sanitize_persisted_data [] [] encoded) (\<lambda>persisted.
     bind_result (kc_decoder c persisted) (\<lambda>safe. Inr (persisted, safe))))"

definition stamped :: "effect_env \<Rightarrow> nat \<Rightarrow> IdempotencyRecord \<Rightarrow> IdempotencyState \<Rightarrow> pyval \<Rightarrow> IdempotencyRecord" where
  "stamped env k r state result = r\<lparr>ir_state := state, ir_updated_at := VStr (ee_clock env k),
     ir_updated_at_epoch := VInt (ee_epoch env k), ir_result := result\<rparr>"

definition record_replay :: "bool \<Rightarrow> unit act" where
  "record_replay by_reconciliation = modify_act (\<lambda>w.
     w\<lparr>w_boundary := map_option (\<lambda>b. boundary_record_replay b by_reconciliation) (w_boundary w)\<rparr>)"

text \<open>\<open>None\<close> is the miss: the reconciler found that the effect did not happen, and the key is free again.\<close>

definition reconcile_key :: "effect_env \<Rightarrow> keyed_call \<Rightarrow> key_claim \<Rightarrow> IdempotencyRecord \<Rightarrow> pyval result \<Rightarrow> pyval option act" where
  "reconcile_key env c k r answer =
     bind_act (lift_act answer) (\<lambda>result.
     if result = VNone then then_act (delete_key env 3 (kc_action c) (cl_hash k)) (return_act None)
     else bind_act (lift_act (materialize c result)) (\<lambda>(persisted, safe).
       if ir_operation_id r = VNone \<or> ir_receipt_id r = VNone
       then raise_act (config_error ''Durable reconciliation identity is missing'')
       else (case ir_operation_id r of
         VStr oid \<Rightarrow>
           (let reference = ''operation-result:'' @ oid in
            bind_act (lift_act (durable_result result)) (\<lambda>durable.
            then_act (save_result env 4 oid durable)
           (bind_act (read_receipt env 5 (ir_receipt_id r)) (\<lambda>found.
            case found of
              None \<Rightarrow> raise_act (config_error ''Durable reconciliation receipt is missing'')
            | Some e \<Rightarrow>
              then_act (modify_act (\<lambda>w. w\<lparr>w_receipt := e\<rparr>))
             (then_act (save_receipt env 6 APPLIED_VALIDATED
                (no_effect_args\<lparr>ea_result_reference := Some reference, ea_effect_boundary_crossed := Some True\<rparr>)
                (captured env 6 (kc_details c) result))
             (then_act (manager_call env 7 (\<lambda>m fs. mgr_reconcile_success m fs oid reference
                (py_str (ir_receipt_id r)) (Some (ee_clock env 7))))
             (then_act (save_key env 8 (stamped env 8 r COMPLETED persisted))
             (then_act publish_outcome
             (then_act (access env 9 (return_act ()))
             (then_act (record_replay True)
             (return_act (Some safe))))))))))))
       | _ \<Rightarrow> raise_act (op_invalid ''operation_id is invalid''))))"

definition replay_key :: "effect_env \<Rightarrow> keyed_call \<Rightarrow> IdempotencyRecord \<Rightarrow> pyval act" where
  "replay_key env c r =
     bind_act (lift_act (kc_decoder c (ir_result r))) (\<lambda>replayed.
     then_act (publish_record_outcome env 10 r)
    (then_act (access env 11 (return_act ()))
    (then_act (record_replay False)
    (return_act replayed))))"

section \<open>Execution and commit\<close>

definition key_owned :: "key_claim \<Rightarrow> IdempotencyRecord option \<Rightarrow> bool" where
  "key_owned k current = (case current of None \<Rightarrow> False | Some r \<Rightarrow> ir_correlation_id r = VStr (cl_correlation k))"

definition claim_reference :: "key_claim \<Rightarrow> string" where
  "claim_reference k = ''operation-result:'' @ cl_operation_id k"

text \<open>The two commits of the record: the durable result before, the materialized one after validation.\<close>

definition commit_key :: "effect_env \<Rightarrow> nat \<Rightarrow> keyed_call \<Rightarrow> key_claim \<Rightarrow> string \<Rightarrow> pyval \<Rightarrow> unit act" where
  "commit_key env n c k what result =
     bind_act (load_key env n (kc_action c) (cl_hash k)) (\<lambda>current.
     if \<not> key_owned k current
     then raise_act (RepoForgeError ''CONFIG_STALE'' (''STALE_IDEMPOTENCY: operation ownership changed before '' @ what @ '' commit''))
     else save_key env (Suc n) (stamped env (Suc n) (the current) COMPLETED result))"

definition serialization_failed :: "effect_env \<Rightarrow> keyed_call \<Rightarrow> key_claim \<Rightarrow> pyval \<Rightarrow> exn \<Rightarrow> (pyval \<times> pyval) act" where
  "serialization_failed env c k result exc =
     then_act (save_receipt env 24 FAILED_AFTER_EFFECT
       ((failed_args env ''FAILED_AFTER_EFFECT'' exc)\<lparr>ea_result_reference := Some (claim_reference k)\<rparr>)
       (captured env 24 (kc_details c) result))
    (then_act (fail_operation env 25 (cl_operation_id k) ''FAILED_AFTER_EFFECT'' exc (Some (claim_reference k))
       (cl_receipt_id k) RETRY_NONE)
    (raise_act (RepoForgeError ''FAILED_AFTER_EFFECT''
       ''FAILED_AFTER_EFFECT: the effect is durable but response serialization failed'')))"

definition execute_keyed :: "effect_env \<Rightarrow> keyed_call \<Rightarrow> key_claim \<Rightarrow> operation \<Rightarrow> pyval act" where
  "execute_keyed env c k operation =
     bind_act (run_operation operation) (\<lambda>result.
     bind_act (lift_act (durable_result result)) (\<lambda>durable.
     then_act (save_result env 20 (cl_operation_id k) durable)
    (then_act (reading (\<lambda>w. save_receipt env 21 APPLIED_UNVALIDATED
       (no_effect_args\<lparr>ea_result_reference := Some (claim_reference k),
          ea_effect_boundary_crossed := Some (boundary_started w)\<rparr>)
       (captured env 21 (kc_details c) result)))
    (then_act (commit_key env 22 c k ''result'' (VDict durable))
    (bind_act (catch_act (lift_act (materialize c result)) (serialization_failed env c k result)) (\<lambda>(persisted, safe).
     then_act (commit_key env 26 c k ''validation'' persisted)
    (then_act (save_receipt env 28 APPLIED_VALIDATED
       (no_effect_args\<lparr>ea_result_reference := Some (claim_reference k)\<rparr>) (Inr None))
    (then_act (manager_call env 29 (\<lambda>m fs. mgr_succeed m fs (cl_operation_id k) (claim_reference k)
       (Some (cl_receipt_id k)) None (Some (ee_clock env 29))))
    (then_act publish_outcome
    (return_act safe))))))))))"

text \<open>The end of the handler: what is raised after the receipt and the key were dealt with.\<close>

definition keyed_error :: "exn \<Rightarrow> bool \<Rightarrow> bool \<Rightarrow> 'a act" where
  "keyed_error exc rolled_back effect_started =
     (if \<not> rolled_back \<and> effect_started
      then raise_act (RepoForgeError ''EFFECT_OUTCOME_UNKNOWN''
        ''EFFECT_OUTCOME_UNKNOWN: the effect boundary was crossed without an authoritative result'')
      else raise_act exc)"

definition settle_key ::
  "effect_env \<Rightarrow> keyed_call \<Rightarrow> key_claim \<Rightarrow> IdempotencyRecord \<Rightarrow> exn \<Rightarrow> bool \<Rightarrow> bool \<Rightarrow> unit act" where
  "settle_key env c k current exc rolled_back effect_started =
     (let oid = cl_operation_id k; rid = cl_receipt_id k in
      if rolled_back then
        then_act (save_receipt env 37 ROLLED_BACK
          ((failed_args env ''EFFECT_ROLLED_BACK'' exc)\<lparr>ea_effect_boundary_crossed := Some True\<rparr>) (Inr None))
       (then_act (fail_operation env 38 oid ''EFFECT_ROLLED_BACK'' exc None rid RETRY_AUTOMATIC)
       (delete_key env 39 (kc_action c) (cl_hash k)))
      else if effect_started then
        then_act (save_receipt env 40 UNKNOWN
          ((failed_args env ''EFFECT_OUTCOME_UNKNOWN'' exc)\<lparr>ea_effect_boundary_crossed := Some True\<rparr>) (Inr None))
       (then_act (fail_operation env 41 oid ''EFFECT_OUTCOME_UNKNOWN'' exc None rid RETRY_MANUAL)
       (save_key env 42 (stamped env 42 current UNCERTAIN VNone)))
      else
        then_act (save_receipt env 43 FAILED_BEFORE_EFFECT (failed_args env ''FAILED_BEFORE_EFFECT'' exc) (Inr None))
       (then_act (fail_operation env 44 oid ''FAILED_BEFORE_EFFECT'' exc None rid RETRY_AUTOMATIC)
       (delete_key env 45 (kc_action c) (cl_hash k))))"

definition authoritative_key ::
  "effect_env \<Rightarrow> keyed_call \<Rightarrow> key_claim \<Rightarrow> IdempotencyRecord option \<Rightarrow> exn \<Rightarrow> pyval \<Rightarrow> pyval act" where
  "authoritative_key env c k current exc result =
     bind_act (lift_act (durable_result result)) (\<lambda>durable.
     then_act (save_result env 33 (cl_operation_id k) durable)
    (then_act (save_receipt env 34 FAILED_AFTER_EFFECT
       ((failed_args env ''FAILED_AFTER_EFFECT'' exc)\<lparr>ea_result_reference := Some (claim_reference k),
          ea_effect_boundary_crossed := Some True\<rparr>) (Inr None))
    (then_act (fail_operation env 35 (cl_operation_id k) ''FAILED_AFTER_EFFECT'' exc (Some (claim_reference k))
       (cl_receipt_id k) RETRY_NONE)
    (then_act (if key_owned k current then save_key env 36 (stamped env 36 (the current) COMPLETED (VDict durable))
       else return_act ())
    (raise_act (RepoForgeError ''FAILED_AFTER_EFFECT''
       ''FAILED_AFTER_EFFECT: the external effect completed before local finalization failed''))))))"

definition keyed_failed :: "effect_env \<Rightarrow> keyed_call \<Rightarrow> key_claim \<Rightarrow> exn \<Rightarrow> pyval act" where
  "keyed_failed env c k exc =
     (let after =
        (if has_code exc ''FAILED_AFTER_EFFECT'' then raise_act exc
         else bind_act (load_key env 32 (kc_action c) (cl_hash k)) (\<lambda>current. reading (\<lambda>w.
           if authoritative_result w \<noteq> VNone then authoritative_key env c k current exc (authoritative_result w)
           else
             let rolled_back = boundary_rolled_back w;
                 effect_started = (er_effect_boundary_crossed (env_value (w_receipt w)) \<or> boundary_started w)
             in then_act (if key_owned k current then settle_key env c k (the current) exc rolled_back effect_started
                  else return_act ())
               (keyed_error exc rolled_back effect_started))))
      in reading (\<lambda>w.
        if er_state (env_value (w_receipt w)) = APPLIED_VALIDATED
        then bind_act (load_key env 30 (kc_action c) (cl_hash k)) (\<lambda>current.
          case current of
            Some r \<Rightarrow> if ir_state r = COMPLETED
              then then_act (publish_record_outcome env 31 r) (lift_act (kc_decoder c (ir_result r)))
              else after
          | None \<Rightarrow> after)
        else after))"

definition execute_and_commit :: "effect_env \<Rightarrow> keyed_call \<Rightarrow> key_claim \<Rightarrow> operation \<Rightarrow> pyval act" where
  "execute_and_commit env c k operation = catch_act (execute_keyed env c k operation) (keyed_failed env c k)"

definition claim_and_run :: "effect_env \<Rightarrow> keyed_call \<Rightarrow> key_claim \<Rightarrow> operation \<Rightarrow> pyval act" where
  "claim_and_run env c k operation =
     bind_act (manager_call env 12 (\<lambda>m fs. mgr_create m (ee_hex env 1) fs (kc_operation_id c) (kc_action c) ''accepted'' False None
       (detail_workspace (kc_details c)) None None (Some (ee_clock env 2)))) (\<lambda>task.
     let k' = k\<lparr>cl_operation_id := op_id task, cl_receipt_id := ''receipt-'' @ ee_hex env 2\<rparr> in
     then_act (create_receipt env 13 (bind_result (captured env 13 (kc_details c) VNone)
       (create_effect_receipt (cl_receipt_id k') (op_id task) (kc_action c) (Some (cl_hash k)) (cl_fingerprint k)
          (ee_clock env 2) (cl_correlation k))))
    (then_act (save_key env 14
       \<lparr>ir_action = kc_action c, ir_key_hash = cl_hash k, ir_request_fingerprint = VStr (cl_fingerprint k),
        ir_state = IN_PROGRESS, ir_updated_at = VStr (ee_clock env 2), ir_updated_at_epoch = VInt (ee_epoch env 2),
        ir_correlation_id = VStr (cl_correlation k), ir_result = VNone, ir_receipt_id = VStr (cl_receipt_id k'),
        ir_operation_id = VStr (op_id task)\<rparr>)
    (then_act (save_receipt env 15 APPLYING no_effect_args (Inr None))
    (then_act (manager_call env 16 (\<lambda>m fs. mgr_start m fs (op_id task) None None None None (Some (ee_clock env 16))))
    (audited_act env 17 18 (execute_and_commit env c k' operation))))))"

section \<open>The decision\<close>

definition LOCAL_MUTATION_ACTIONS :: "string list" where
  "LOCAL_MUTATION_ACTIONS = [''workspace_write_file'', ''workspace_edit'', ''workspace_apply_patch'']"

definition key_stale :: "effect_env \<Rightarrow> keyed_call \<Rightarrow> IdempotencyRecord \<Rightarrow> bool result" where
  "key_stale env c r =
     (case ir_updated_at_epoch r of
        VInt n \<Rightarrow> Inr (kc_stale_seconds c < ee_epoch env 2 - n)
      | VBool b \<Rightarrow> Inr (kc_stale_seconds c < ee_epoch env 2 - (if b then 1 else 0))
      | _ \<Rightarrow> Inl (TypeError ''unsupported operand type(s) for -''))"

definition reconcile_or_run ::
  "effect_env \<Rightarrow> keyed_call \<Rightarrow> key_claim \<Rightarrow> operation \<Rightarrow> IdempotencyRecord \<Rightarrow> pyval result \<Rightarrow> pyval act" where
  "reconcile_or_run env c k operation r answer =
     bind_act (reconcile_key env c k r answer) (\<lambda>outcome.
     case outcome of Some v \<Rightarrow> return_act v | None \<Rightarrow> claim_and_run env c k operation)"

definition keyed_decision :: "effect_env \<Rightarrow> keyed_call \<Rightarrow> key_claim \<Rightarrow> operation \<Rightarrow> IdempotencyRecord option \<Rightarrow> pyval act" where
  "keyed_decision env c k operation existing =
     (case existing of
        None \<Rightarrow> claim_and_run env c k operation
      | Some r \<Rightarrow>
          if (case kc_operation_id c of None \<Rightarrow> False
              | Some oid \<Rightarrow> ir_operation_id r \<noteq> VNone \<and> ir_operation_id r \<noteq> VStr oid)
          then raise_act (RepoForgeError ''IDEMPOTENCY_CONFLICT'' ''IDEMPOTENCY_CONFLICT: the key is bound to another durable operation'')
          else if ir_request_fingerprint r \<noteq> VStr (cl_fingerprint k)
          then raise_act (RepoForgeError ''IDEMPOTENCY_CONFLICT'' ''IDEMPOTENCY_CONFLICT: the key is already bound to different input'')
          else case ir_state r of
            COMPLETED \<Rightarrow> replay_key env c r
          | UNCERTAIN \<Rightarrow>
              (case kc_reconcile c of
                 Some answer \<Rightarrow> reconcile_or_run env c k operation r answer
               | None \<Rightarrow> raise_act (RepoForgeError ''IDEMPOTENCY_UNCERTAIN''
                   ''IDEMPOTENCY_UNCERTAIN: the mutation may have completed before its result receipt was recorded''))
          | IN_PROGRESS \<Rightarrow>
              bind_act (lift_act (key_stale env c r)) (\<lambda>stale.
              if \<not> stale then raise_act (RepoForgeError ''IDEMPOTENCY_IN_PROGRESS''
                   ''IDEMPOTENCY_IN_PROGRESS: the same keyed operation is still running'')
              else case kc_reconcile c of
                Some answer \<Rightarrow> reconcile_or_run env c k operation r answer
              | None \<Rightarrow>
                  if kc_action c \<in> set LOCAL_MUTATION_ACTIONS
                  then then_act (save_key env 19 (stamped env 2 r UNCERTAIN VNone))
                    (raise_act (RepoForgeError ''IDEMPOTENCY_UNCERTAIN''
                       ''IDEMPOTENCY_UNCERTAIN: a stale local mutation claim cannot be replayed safely''))
                  else claim_and_run env c k operation))"

definition execute_idempotent :: "effect_env \<Rightarrow> keyed_call \<Rightarrow> operation \<Rightarrow> pyval act" where
  "execute_idempotent env c operation =
     (case kc_key c of
        None \<Rightarrow> audited_act env 0 1 (run_operation operation)
      | Some key \<Rightarrow>
          (case hash_idempotency_key key of
             Inl (ValueError m) \<Rightarrow> raise_act (config_error m)
           | Inl e \<Rightarrow> raise_act e
           | Inr key_hash \<Rightarrow>
               (let k = \<lparr>cl_hash = key_hash, cl_fingerprint = request_fingerprint (kc_request c),
                       cl_correlation = ee_hex env 0, cl_operation_id = [], cl_receipt_id = []\<rparr> in
                then_act (lift_act (key_path (kc_action c) key_hash))
               (then_act (access env 1 (return_act ()))
               (bind_act (load_key env 2 (kc_action c) key_hash) (keyed_decision env c k operation))))))"

section \<open>Rules for the keys\<close>

lemma wp_load_key [wp_rules]:
  assumes "\<And>e. E e w" "\<And>r. key_load (w_keys w) action key_hash = Inr r \<Longrightarrow> Q r w"
  shows "wp (load_key env k action key_hash) Q E w"
  unfolding load_key_def using assms
  by (intro wp_access) (auto simp: wp_def split: sum.splits)

definition has_file :: "string \<Rightarrow> files \<Rightarrow> bool" where
  "has_file p fs \<longleftrightarrow> map_of fs p \<noteq> None"

lemma has_file_save: "key_save fs r = Inr fs' \<Longrightarrow> has_file p fs \<Longrightarrow> has_file p fs'"
  by (auto simp: has_file_def key_save_def bind_result_Inr_iff map_of_dict_set)

lemma has_file_claim:
  "key_save fs r = Inr fs' \<Longrightarrow> key_path (ir_action r) (ir_key_hash r) = Inr p \<Longrightarrow> has_file p fs'"
  by (auto simp: has_file_def key_save_def bind_result_Inr_iff map_of_dict_set)

lemma wp_save_key [wp_rules]:
  assumes "\<And>e. E e w"
    and "\<And>fs. key_save (w_keys w) r = Inr fs \<Longrightarrow> \<forall>p. has_file p (w_keys w) \<longrightarrow> has_file p fs \<Longrightarrow>
      \<forall>p. key_path (ir_action r) (ir_key_hash r) = Inr p \<longrightarrow> has_file p fs \<Longrightarrow> Q () (w\<lparr>w_keys := fs\<rparr>)"
  shows "wp (save_key env k r) Q E w"
  unfolding save_key_def using assms has_file_save has_file_claim
  by (intro wp_access) (auto simp: wp_def split: sum.splits)

lemma wp_delete_key [wp_rules]:
  assumes "\<And>e. E e w" "\<And>fs. key_delete (w_keys w) action key_hash = Inr fs \<Longrightarrow> Q () (w\<lparr>w_keys := fs\<rparr>)"
  shows "wp (delete_key env k action key_hash) Q E w"
  unfolding delete_key_def using assms by (intro wp_access) (auto simp: wp_def split: sum.splits)

lemma wp_read_receipt [wp_rules]:
  assumes "\<And>e fs. E e (w\<lparr>w_receipts := fs\<rparr>)" "\<And>fs r. Q r (w\<lparr>w_receipts := fs\<rparr>)"
  shows "wp (read_receipt env k i) Q E w"
  unfolding read_receipt_def
proof (rule wp_access)
  show "E e w" for e using assms(1) [of e "w_receipts w"] by simp
  show "wp (\<lambda>w. let others = w\<lparr>w_receipts := ee_peers env k (w_receipts w)\<rparr> in
     case i of VStr s \<Rightarrow> (effect_store_read (w_receipts others) s, others)
     | _ \<Rightarrow> (Inl (state_error ''STATE_INVALID'' ''State record identifier is invalid''), others)) Q E w"
    using assms by (auto simp: wp_def Let_def split: pyval.splits sum.splits)
qed

lemma wp_publish_record [wp_rules]:
  assumes "\<And>e fs. E e (w\<lparr>w_receipts := fs\<rparr>)" "\<And>fs p. Q () (w\<lparr>w_receipts := fs, w_published := p\<rparr>)"
  shows "wp (publish_record_outcome env k r) Q E w"
proof (cases "ir_receipt_id r = VNone")
  case True
  with assms(2) [where fs = "w_receipts w" and p = "w_published w"] show ?thesis by (simp add: publish_record_outcome_def wp_simps)
next
  case False
  have "Q () (w\<lparr>w_receipts := fs\<rparr>)" for fs using assms(2) [where fs = fs and p = "w_published w"] by simp
  with assms False show ?thesis
    by (auto simp: publish_record_outcome_def wp_simps intro!: wp_rules split: option.split)
qed

lemma key_load_present:
  assumes "key_path action key_hash = Inr p" "has_file p fs"
  shows "key_load fs action key_hash \<noteq> Inr None"
  using assms by (auto simp: key_load_def has_file_def bind_result_Inr_iff)

lemma key_decodeE:
  assumes "key_decode f action key_hash = Inr r"
  obtains raw s state where "f = Json (VDict raw)" "dict_get_none raw ''state'' = VStr s"
    "enum_of ''IdempotencyState'' key_state_value [IN_PROGRESS, COMPLETED, UNCERTAIN] s = Inr state"
    "r = \<lparr>ir_action = action, ir_key_hash = key_hash,
       ir_request_fingerprint = dict_get_none raw ''request_fingerprint'', ir_state = state,
       ir_updated_at = dict_get_none raw ''updated_at'', ir_updated_at_epoch = dict_get_none raw ''updated_at_epoch'',
       ir_correlation_id = dict_get_none raw ''correlation_id'', ir_result = dict_get_none raw ''result'',
       ir_receipt_id = dict_get_none raw ''receipt_id'', ir_operation_id = dict_get_none raw ''operation_id''\<rparr>"
proof -
  from assms obtain raw where f: "f = Json (VDict raw)"
    by (auto simp: key_decode_def split: json_file.splits pyval.splits)
  from assms obtain s where s: "dict_get_none raw ''state'' = VStr s"
    unfolding key_decode_def f by (cases "dict_get_none raw ''state''") simp_all
  from assms obtain state where
    "enum_of ''IdempotencyState'' key_state_value [IN_PROGRESS, COMPLETED, UNCERTAIN] s = Inr state"
    unfolding key_decode_def f json_file.case pyval.case s
    by (cases "enum_of ''IdempotencyState'' key_state_value [IN_PROGRESS, COMPLETED, UNCERTAIN] s") simp_all
  with assms s show thesis
    by (intro that [OF f s]) (auto simp: key_decode_def f split: if_splits)
qed

lemma key_load_ids:
  assumes "key_load fs action key_hash = Inr (Some r)"
  shows "ir_action r = action \<and> ir_key_hash r = key_hash"
proof -
  from assms obtain f where "key_decode f action key_hash = Inr r"
    by (auto simp: key_load_def bind_result_Inr_iff split: option.splits)
  then show ?thesis by (rule key_decodeE) simp
qed

section \<open>At most one effect\<close>

definition crossed_for_good :: "world \<Rightarrow> bool" where
  "crossed_for_good w \<longleftrightarrow> boundary_started w \<and> \<not> boundary_rolled_back w"

lemma execute_keyed_claimed:
  assumes "has_file p (w_keys w)"
  shows "wp (execute_keyed env c k operation) (\<lambda>_ w. has_file p (w_keys w)) (\<lambda>_ w. has_file p (w_keys w)) w"
  using assms unfolding execute_keyed_def commit_key_def serialization_failed_def
  by (auto simp: wp_simps intro!: wp_rules)

lemma keyed_failed_claimed:
  assumes "has_file p (w_keys w)"
  shows "wp (keyed_failed env c k exc) (\<lambda>_ w. crossed_for_good w \<longrightarrow> has_file p (w_keys w))
    (\<lambda>_ w. crossed_for_good w \<longrightarrow> has_file p (w_keys w)) w"
  using assms
  unfolding keyed_failed_def authoritative_key_def settle_key_def keyed_error_def Let_def
  by (auto simp: wp_simps crossed_for_good_def intro!: wp_rules split: option.split)

abbreviation safe_key :: "string \<Rightarrow> 'a \<Rightarrow> world \<Rightarrow> bool" where
  "safe_key p \<equiv> (\<lambda>_ w. crossed_for_good w \<longrightarrow> has_file p (w_keys w))"

lemma execute_and_commit_safe:
  assumes "has_file p (w_keys w)"
  shows "wp (execute_and_commit env c k operation) (safe_key p) (safe_key p) w"
  unfolding execute_and_commit_def wp_catch
  by (rule wp_mono [OF execute_keyed_claimed [OF assms]]) (auto intro: keyed_failed_claimed)

lemma claim_and_run_safe:
  assumes "\<not> boundary_started w" "key_path (kc_action c) (cl_hash k) = Inr p"
  shows "wp (claim_and_run env c k operation) (safe_key p) (safe_key p) w"
  using assms unfolding claim_and_run_def Let_def
  by (auto simp: wp_simps crossed_for_good_def intro!: wp_rules wp_mono [OF execute_and_commit_safe])

lemma replay_keeps_boundary [simp]:
  "boundary_started (w\<lparr>w_boundary := map_option (\<lambda>b. boundary_record_replay b x) (w_boundary v)\<rparr>) = boundary_started v"
  by (cases "w_boundary v") (simp_all add: boundary_started_def boundary_record_replay_def)

lemma reconcile_key_unstarted:
  assumes "\<not> boundary_started w"
  shows "wp (reconcile_key env c k r answer) (\<lambda>_ w. \<not> boundary_started w) (\<lambda>_ w. \<not> boundary_started w) w"
  using assms unfolding reconcile_key_def record_replay_def Let_def
  by (auto simp: wp_simps intro!: wp_rules split: prod.split option.split pyval.split)

lemma reconcile_or_run_safe:
  assumes "\<not> boundary_started w" "key_path (kc_action c) (cl_hash k) = Inr p"
  shows "wp (reconcile_or_run env c k operation r answer) (safe_key p) (safe_key p) w"
proof -
  have "wp (case x of Some v \<Rightarrow> return_act v | None \<Rightarrow> claim_and_run env c k operation) (safe_key p) (safe_key p) u"
    if "\<not> boundary_started u" for x u
    using that claim_and_run_safe [OF that assms(2)]
    by (cases x) (simp_all add: wp_simps crossed_for_good_def)
  then show ?thesis
    unfolding reconcile_or_run_def wp_bind
    by (intro wp_mono [OF reconcile_key_unstarted [OF assms(1)]]) (auto simp: crossed_for_good_def)
qed

lemma keyed_decision_safe:
  assumes "\<not> boundary_started w" "key_path (kc_action c) (cl_hash k) = Inr p"
  shows "wp (keyed_decision env c k operation existing) (safe_key p) (safe_key p) w"
proof (cases existing)
  case None
  with claim_and_run_safe [OF assms] show ?thesis by (simp add: keyed_decision_def)
next
  case (Some r)
  have unstarted: "crossed_for_good w \<longleftrightarrow> False" using assms(1) by (simp add: crossed_for_good_def)
  have "wp (replay_key env c r) (safe_key p) (safe_key p) w"
    using assms(1) unfolding replay_key_def record_replay_def
    by (auto simp: wp_simps crossed_for_good_def intro!: wp_rules)
  with Some reconcile_or_run_safe [OF assms] claim_and_run_safe [OF assms] show ?thesis
    unfolding keyed_decision_def
    by (auto simp: wp_simps unstarted crossed_for_good_def assms(1) intro!: wp_lift wp_save_key
        split: option.split IdempotencyState.split)
qed

lemma execute_idempotent_safe:
  assumes "\<not> boundary_started w" "kc_key c = Some key" "hash_idempotency_key key = Inr key_hash"
    and "key_path (kc_action c) key_hash = Inr p"
  shows "wp (execute_idempotent env c operation) (safe_key p) (safe_key p) w"
  using assms unfolding execute_idempotent_def
  by (auto simp: wp_simps crossed_for_good_def intro!: wp_rules wp_mono [OF keyed_decision_safe [where p = p]])

text \<open>A call that finds a record does not run its operation, unless it takes over a stale claim or
  reconciles.\<close>

lemma keyed_decision_found:
  assumes "kc_action c \<in> set LOCAL_MUTATION_ACTIONS" "kc_reconcile c = None"
  shows "keyed_decision env c k operation (Some r) = keyed_decision env c k operation' (Some r)"
  unfolding keyed_decision_def option.case assms(2) using assms(1) by simp

lemma load_key_cong:
  assumes "\<And>x. key_load (w_keys w) action key_hash = Inr x \<Longrightarrow> f x = g x"
  shows "bind_act (load_key env n action key_hash) f w = bind_act (load_key env n action key_hash) g w"
  using assms
  by (auto simp: bind_act_def load_key_def access_def raise_act_def split: option.splits sum.splits prod.splits)

lemma execute_idempotent_found:
  assumes "kc_key c = Some key" "hash_idempotency_key key = Inr key_hash" "key_path (kc_action c) key_hash = Inr p"
    and "kc_action c \<in> set LOCAL_MUTATION_ACTIONS" "kc_reconcile c = None" "has_file p (w_keys w)"
  shows "execute_idempotent env c operation w = execute_idempotent env c operation' w"
proof -
  let ?k = "\<lparr>cl_hash = key_hash, cl_fingerprint = request_fingerprint (kc_request c), cl_correlation = ee_hex env 0,
     cl_operation_id = [], cl_receipt_id = []\<rparr>"
  have found: "keyed_decision env c ?k operation x = keyed_decision env c ?k operation' x"
    if "key_load (w_keys w) (kc_action c) key_hash = Inr x" for x
    using key_load_present [OF assms(3,6)] that keyed_decision_found [OF assms(4,5)] by (cases x) auto
  have "bind_act (load_key env 2 (kc_action c) key_hash) (keyed_decision env c ?k operation) w =
      bind_act (load_key env 2 (kc_action c) key_hash) (keyed_decision env c ?k operation') w"
    by (rule load_key_cong [OF found])
  then show ?thesis
    using assms(1-3)
    by (simp add: execute_idempotent_def Let_def then_act_def bind_act_def lift_act_def access_def return_act_def raise_act_def
        split: option.split)
qed

lemma execute_idempotent_keeps_file:
  assumes "kc_key c = Some key" "hash_idempotency_key key = Inr key_hash" "key_path (kc_action c) key_hash = Inr p"
    and "kc_action c \<in> set LOCAL_MUTATION_ACTIONS" "kc_reconcile c = None" "has_file p (w_keys w)"
  shows "wp (execute_idempotent env c operation) (\<lambda>_ w. has_file p (w_keys w)) (\<lambda>_ w. has_file p (w_keys w)) w"
proof -
  let ?k = "\<lparr>cl_hash = key_hash, cl_fingerprint = request_fingerprint (kc_request c), cl_correlation = ee_hex env 0,
     cl_operation_id = [], cl_receipt_id = []\<rparr>"
  have "wp (keyed_decision env c ?k operation (Some r)) (\<lambda>_ w. has_file p (w_keys w)) (\<lambda>_ w. has_file p (w_keys w)) w" for r
    using assms(4-6) unfolding keyed_decision_def replay_key_def record_replay_def
    by (auto simp: wp_simps intro!: wp_rules split: option.split IdempotencyState.split)
  then show ?thesis
    using assms key_load_present [OF assms(3,6)] unfolding execute_idempotent_def
    by (auto simp: wp_simps intro!: wp_rules)
qed

text \<open>Later calls with the same key; between two calls the other stores change as they like.\<close>

inductive same_key_calls :: "string \<Rightarrow> string \<Rightarrow> files \<Rightarrow> files \<Rightarrow> bool" for action key where
  none: "same_key_calls action key fs fs"
| call: "same_key_calls action key fs (w_keys w) \<Longrightarrow> kc_action c = action \<Longrightarrow> kc_key c = Some key \<Longrightarrow> kc_reconcile c = None \<Longrightarrow>
    execute_idempotent env c operation w = (r, w') \<Longrightarrow> same_key_calls action key fs (w_keys w')"

lemma same_key_calls_keep:
  assumes "same_key_calls action key fs fs'" "hash_idempotency_key key = Inr key_hash" "key_path action key_hash = Inr p"
    and "action \<in> set LOCAL_MUTATION_ACTIONS" "has_file p fs"
  shows "has_file p fs'"
  using assms(1,5)
proof (induction rule: same_key_calls.induct)
  case (call fs w c env operation r w')
  then have "wp (execute_idempotent env c operation) (\<lambda>_ w. has_file p (w_keys w)) (\<lambda>_ w. has_file p (w_keys w)) w"
    using assms(2-4) by (intro execute_idempotent_keeps_file) simp_all
  with call.hyps(5) show ?case by (auto simp: wp_def split: sum.splits)
qed

text \<open>
  Claim C4. A local mutation with an idempotency key takes effect at most once. If a call crossed its
  effect boundary and did not roll back, then, however it ended, wherever a store failed or the
  process died on the way, and whatever calls with the same key came in between, no later call with
  that key, with any input, runs its operation: what it does is the same for every operation.
\<close>

theorem keyed_effect_at_most_once:
  assumes "execute_idempotent env c operation w = (r, w1)" "kc_key c = Some key" "kc_action c \<in> set LOCAL_MUTATION_ACTIONS"
    and "\<not> boundary_started w" "boundary_started w1" "\<not> boundary_rolled_back w1"
    and "same_key_calls (kc_action c) key (w_keys w1) (w_keys w2)"
    and "kc_action c2 = kc_action c" "kc_key c2 = Some key" "kc_reconcile c2 = None"
  shows "execute_idempotent env2 c2 operation2 w2 = execute_idempotent env2 c2 operation2' w2"
proof (cases "hash_idempotency_key key")
  case (Inl e)
  then show ?thesis using assms(9) by (cases e) (simp_all add: execute_idempotent_def)
next
  case (Inr key_hash)
  show ?thesis
  proof (cases "key_path (kc_action c) key_hash")
    case (Inl e)
    with Inr assms(8,9) show ?thesis by (simp add: execute_idempotent_def Let_def then_act_def bind_act_def lift_act_def)
  next
    case p: (Inr p)
    have "has_file p (w_keys w1)"
      using execute_idempotent_safe [OF assms(4,2) Inr p, of env operation] assms(1,5,6)
      by (auto simp: wp_def crossed_for_good_def split: sum.splits)
    then have "has_file p (w_keys w2)" using same_key_calls_keep [OF assms(7) Inr p assms(3)] by blast
    with execute_idempotent_found [OF assms(9) Inr] p assms(3,8,10) show ?thesis by simp
  qed
qed

section \<open>Completed keys\<close>

definition stored_record :: "IdempotencyRecord \<Rightarrow> pyval \<Rightarrow> IdempotencyRecord" where
  "stored_record r result = r\<lparr>ir_request_fingerprint := json_sorted (ir_request_fingerprint r),
     ir_updated_at := json_sorted (ir_updated_at r), ir_updated_at_epoch := json_sorted (ir_updated_at_epoch r),
     ir_correlation_id := json_sorted (ir_correlation_id r), ir_result := json_sorted result,
     ir_receipt_id := json_sorted (ir_receipt_id r), ir_operation_id := json_sorted (ir_operation_id r)\<rparr>"

lemma key_state_enum: "enum_of n key_state_value [IN_PROGRESS, COMPLETED, UNCERTAIN] (key_state_value s) = Inr s"
  by (cases s) (simp_all add: enum_of_def key_state_value_def)

lemma key_saved_load:
  assumes "key_save fs r = Inr fs'"
  shows "\<exists>result. sanitize_persisted_data [] [] (ir_result r) = Inr result \<and>
    key_load fs' (ir_action r) (ir_key_hash r) = Inr (Some (stored_record r result))"
proof -
  from assms obtain p result where p: "key_path (ir_action r) (ir_key_hash r) = Inr p"
    "sanitize_persisted_data [] [] (ir_result r) = Inr result"
    "fs' = dict_set fs p (Json (json_sorted (VDict (key_payload_of r result))))"
    by (auto simp: key_save_def bind_result_Inr_iff)
  let ?v = "key_payload_of r result"
  have d: "distinct (map fst ?v)" by (simp add: key_payload_of_def)
  have keys: "set (map fst (file_dict ?v)) = set (map fst ?v)" unfolding file_dict_def keys_sorted ..
  have "key_decode (Json (VDict (file_dict ?v))) (ir_action r) (ir_key_hash r) = Inr (stored_record r result)"
    unfolding key_decode_def json_file.case pyval.case stored_lookups [OF d] keys
    by (simp add: key_payload_of_def key_state_enum KEY_REQUIRED_def stored_record_def)
  with p show ?thesis
    by (simp add: key_load_def map_of_dict_set json_sorted_VDict del: json_sorted.simps(2))
qed

text \<open>The key of a call holds a record made for its request.\<close>

definition key_holds :: "keyed_call \<Rightarrow> key_claim \<Rightarrow> IdempotencyState set \<Rightarrow> files \<Rightarrow> bool" where
  "key_holds c k S fs \<longleftrightarrow> (\<exists>r. key_load fs (kc_action c) (cl_hash k) = Inr (Some r) \<and> ir_state r \<in> S \<and>
     ir_request_fingerprint r = VStr (cl_fingerprint k))"

lemma key_holds_save:
  assumes "key_save fs r = Inr fs'" "ir_action r = kc_action c" "ir_key_hash r = cl_hash k" "ir_state r \<in> S"
    "ir_request_fingerprint r = VStr (cl_fingerprint k)"
  shows "key_holds c k S fs'"
  using key_saved_load [OF assms(1)] assms(2-5) by (auto simp: key_holds_def stored_record_def)

lemma key_holds_stamped:
  assumes "key_save fs (stamped env n r s v) = Inr fs'" "key_load fs (kc_action c) (cl_hash k) = Inr (Some r)"
    "key_holds c k S fs"
  shows "key_holds c k {s} fs'"
  using assms(2,3) key_load_ids [OF assms(2)] by (intro key_holds_save [OF assms(1)]) (auto simp: stamped_def key_holds_def)

lemma key_holds_any: "key_holds c k S fs \<Longrightarrow> key_holds c k UNIV fs"
  by (auto simp: key_holds_def)

lemma wp_commit_key:
  assumes "key_holds c k UNIV (w_keys w)" "\<And>e fs. key_holds c k UNIV fs \<Longrightarrow> E e (w\<lparr>w_keys := fs\<rparr>)"
    and "\<And>fs. key_holds c k {COMPLETED} fs \<Longrightarrow> key_holds c k UNIV fs \<Longrightarrow> Q () (w\<lparr>w_keys := fs\<rparr>)"
  shows "wp (commit_key env n c k what result) Q E w"
proof -
  have E: "E e w" for e using assms(2) [OF assms(1), of e] by simp
  have "wp (save_key env (Suc n) (stamped env (Suc n) r COMPLETED result)) Q E w"
    if "key_load (w_keys w) (kc_action c) (cl_hash k) = Inr (Some r)" for r
    using E assms(3) key_holds_stamped [OF _ that assms(1)] key_holds_any by (blast intro: wp_save_key)
  then show ?thesis
    unfolding commit_key_def
    using E by (auto simp: wp_simps key_owned_def intro!: wp_load_key split: option.splits)
qed

lemma execute_keyed_completes:
  assumes "key_holds c k UNIV (w_keys w)"
  shows "wp (execute_keyed env c k operation) (\<lambda>_ w. key_holds c k {COMPLETED} (w_keys w)) (\<lambda>_ w. key_holds c k UNIV (w_keys w)) w"
  using assms unfolding execute_keyed_def serialization_failed_def
  by (auto simp: wp_simps intro!: wp_rules wp_commit_key)

lemma keyed_failed_completed:
  assumes "key_holds c k UNIV (w_keys w)"
  shows "wp (keyed_failed env c k exc) (\<lambda>_ w. key_holds c k {COMPLETED} (w_keys w)) (\<lambda>_ _. True) w"
  using assms
  unfolding keyed_failed_def authoritative_key_def settle_key_def keyed_error_def Let_def
  by (auto simp: wp_simps key_holds_def intro!: wp_rules split: option.split)

lemma claim_and_run_completes:
  "wp (claim_and_run env c k operation) (\<lambda>_ w. key_holds c k {COMPLETED} (w_keys w)) (\<lambda>_ _. True) w"
proof -
  have run: "wp (execute_and_commit env c k' operation) (\<lambda>_ w. key_holds c k {COMPLETED} (w_keys w)) (\<lambda>_ _. True) u"
    if "key_holds c k {IN_PROGRESS} (w_keys u)" "cl_hash k' = cl_hash k" "cl_fingerprint k' = cl_fingerprint k" for k' u
  proof -
    have same: "key_holds c k' S fs = key_holds c k S fs" for S fs using that(2,3) by (simp add: key_holds_def)
    have "key_holds c k' UNIV (w_keys u)" using that(1) key_holds_any same by blast
    then show ?thesis
      unfolding execute_and_commit_def wp_catch same [symmetric]
      by (auto intro: wp_mono [OF execute_keyed_completes] keyed_failed_completed)
  qed
  have claim: "key_holds c k {IN_PROGRESS} fs'"
    if "key_save fs \<lparr>ir_action = kc_action c, ir_key_hash = cl_hash k, ir_request_fingerprint = VStr (cl_fingerprint k),
        ir_state = IN_PROGRESS, ir_updated_at = a, ir_updated_at_epoch = b,
        ir_correlation_id = d, ir_result = VNone, ir_receipt_id = f, ir_operation_id = g\<rparr> = Inr fs'" for fs fs' a b d f g
    by (rule key_holds_save [OF that]) simp_all
  show ?thesis
    unfolding claim_and_run_def Let_def
    by (auto simp: wp_simps intro!: wp_rules wp_mono [OF run] dest!: claim)
qed

lemma reconcile_or_run_completes:
  assumes "key_load (w_keys w) (kc_action c) (cl_hash k) = Inr (Some r)" "ir_request_fingerprint r = VStr (cl_fingerprint k)"
  shows "wp (reconcile_or_run env c k operation r answer) (\<lambda>_ w. key_holds c k {COMPLETED} (w_keys w)) (\<lambda>_ _. True) w"
proof -
  have saved: "key_holds c k {COMPLETED} fs" if "key_save (w_keys w) (stamped env 8 r COMPLETED v) = Inr fs" for v fs
    using assms by (intro key_holds_stamped [OF that, where S = UNIV]) (auto simp: key_holds_def)
  have "wp (reconcile_key env c k r answer) (\<lambda>x w. x \<noteq> None \<longrightarrow> key_holds c k {COMPLETED} (w_keys w)) (\<lambda>_ _. True) w"
    using saved unfolding reconcile_key_def record_replay_def Let_def
    by (auto simp: wp_simps intro!: wp_rules split: prod.split option.split pyval.split)
  then show ?thesis
    unfolding reconcile_or_run_def wp_bind
    by (rule wp_mono) (auto simp: wp_simps intro: claim_and_run_completes split: option.split)
qed

lemma execute_idempotent_completes:
  assumes "kc_key c = Some key" "hash_idempotency_key key = Inr (cl_hash k)" "cl_fingerprint k = request_fingerprint (kc_request c)"
  shows "wp (execute_idempotent env c operation) (\<lambda>_ w. key_holds c k {COMPLETED} (w_keys w)) (\<lambda>_ _. True) w"
proof -
  define k' where "k' = \<lparr>cl_hash = cl_hash k, cl_fingerprint = request_fingerprint (kc_request c),
     cl_correlation = ee_hex env 0, cl_operation_id = [], cl_receipt_id = []\<rparr>"
  have same: "key_holds c k' S fs = key_holds c k S fs" for S fs using assms(3) by (simp add: key_holds_def k'_def)
  have "wp (keyed_decision env c k' operation x) (\<lambda>_ w. key_holds c k' {COMPLETED} (w_keys w)) (\<lambda>_ _. True) w"
    if "key_load (w_keys w) (kc_action c) (cl_hash k') = Inr x" for x
  proof (cases x)
    case None
    then show ?thesis using claim_and_run_completes by (simp add: keyed_decision_def)
  next
    case (Some r)
    show ?thesis
    proof (cases "ir_request_fingerprint r = VStr (cl_fingerprint k')")
      case True
      then have "wp (replay_key env c r) (\<lambda>_ w. key_holds c k' {COMPLETED} (w_keys w)) (\<lambda>_ _. True) w" if "ir_state r = COMPLETED"
        using Some that \<open>key_load _ _ _ = _\<close> unfolding replay_key_def record_replay_def
        by (auto simp: wp_simps key_holds_def intro!: wp_rules)
      with Some True reconcile_or_run_completes [OF that [unfolded Some] True] claim_and_run_completes show ?thesis
        unfolding keyed_decision_def
        by (auto simp: wp_simps intro!: wp_lift wp_save_key split: option.split IdempotencyState.split)
    qed (use Some in \<open>auto simp: keyed_decision_def wp_simps split: option.split\<close>)
  qed
  then have "wp (execute_idempotent env c operation) (\<lambda>_ w. key_holds c k' {COMPLETED} (w_keys w)) (\<lambda>_ _. True) w"
    using assms(1,2) unfolding execute_idempotent_def k'_def
    by (auto simp: wp_simps intro!: wp_lift wp_access wp_load_key)
  then show ?thesis by (simp add: same)
qed

lemma replay_key_keeps:
  "wp (replay_key env c r)
     (\<lambda>v w'. w_keys w' = w_keys w \<and> w_ops w' = w_ops w \<and> w_results w' = w_results w \<and> boundary_started w' = boundary_started w \<and>
        kc_decoder c (ir_result r) = Inr v)
     (\<lambda>_ w'. w_keys w' = w_keys w \<and> w_ops w' = w_ops w \<and> w_results w' = w_results w \<and> boundary_started w' = boundary_started w) w"
  unfolding replay_key_def record_replay_def by (auto simp: wp_simps intro!: wp_rules)

definition receipt_readable :: "effect_env \<Rightarrow> world \<Rightarrow> pyval \<Rightarrow> bool" where
  "receipt_readable env w i \<longleftrightarrow> (case i of VNone \<Rightarrow> True
     | VStr s \<Rightarrow> (case effect_store_read (ee_peers env 10 (w_receipts w)) s of Inl _ \<Rightarrow> False | Inr _ \<Rightarrow> True)
     | _ \<Rightarrow> False)"

lemma replay_key_returns:
  assumes "\<forall>n. ee_fault env n = None" "receipt_readable env w (ir_receipt_id r)"
  shows "fst (replay_key env c r w) = kc_decoder c (ir_result r)"
  using assms
  by (cases "kc_decoder c (ir_result r)")
    (auto simp: replay_key_def then_act_def bind_act_def lift_act_def publish_record_outcome_def read_receipt_def access_def Let_def
      return_act_def modify_act_def record_replay_def receipt_readable_def split: pyval.splits sum.splits option.splits)

lemma execute_idempotent_replays:
  assumes "kc_key c = Some key" "hash_idempotency_key key = Inr h" "key_load (w_keys w) (kc_action c) h = Inr (Some r)"
    and "ir_state r = COMPLETED" "ir_request_fingerprint r = VStr (request_fingerprint (kc_request c))"
  shows "(\<exists>e. execute_idempotent env c operation w = (Inl e, w)) \<or> execute_idempotent env c operation w = replay_key env c r w"
    and "\<forall>n. ee_fault env n = None \<Longrightarrow> kc_operation_id c = None \<Longrightarrow> execute_idempotent env c operation w = replay_key env c r w"
proof -
  from assms(3) obtain p where "key_path (kc_action c) h = Inr p" by (auto simp: key_load_def bind_result_Inr_iff)
  then show "(\<exists>e. execute_idempotent env c operation w = (Inl e, w)) \<or> execute_idempotent env c operation w = replay_key env c r w"
    and "\<forall>n. ee_fault env n = None \<Longrightarrow> kc_operation_id c = None \<Longrightarrow> execute_idempotent env c operation w = replay_key env c r w"
    using assms
    by (auto simp: execute_idempotent_def Let_def then_act_def bind_act_def lift_act_def access_def return_act_def raise_act_def
        load_key_def keyed_decision_def split: option.split)
qed

text \<open>
  Claim C6. A keyed call that returned is remembered. Its key holds a completed record, and while the
  key keeps that record every later call with the same key and the same request leaves the keys, the
  operations and the results as they are and does not start an effect; what it returns is decoded from
  the record, and it does return it when no access fails and the receipt of the record can be read.
\<close>

theorem keyed_success_replayed:
  assumes "execute_idempotent env c operation w = (Inr v, w1)" "kc_key c = Some key" "h = sha256_hex (utf8_encode key)"
  shows "\<exists>r. key_load (w_keys w1) (kc_action c) h = Inr (Some r) \<and> ir_state r = COMPLETED \<and>
    (\<forall>env2 c2 operation2 w2 r2 w3.
       kc_action c2 = kc_action c \<and> kc_key c2 = Some key \<and> kc_request c2 = kc_request c \<and>
       key_load (w_keys w2) (kc_action c) h = key_load (w_keys w1) (kc_action c) h \<and>
       execute_idempotent env2 c2 operation2 w2 = (r2, w3) \<longrightarrow>
       w_keys w3 = w_keys w2 \<and> w_ops w3 = w_ops w2 \<and> w_results w3 = w_results w2 \<and>
       boundary_started w3 = boundary_started w2 \<and>
       (\<forall>v2. r2 = Inr v2 \<longrightarrow> kc_decoder c2 (ir_result r) = Inr v2) \<and>
       ((\<forall>n. ee_fault env2 n = None) \<and> kc_operation_id c2 = None \<and> receipt_readable env2 w2 (ir_receipt_id r) \<longrightarrow>
          r2 = kc_decoder c2 (ir_result r)))"
proof -
  have h: "hash_idempotency_key key = Inr h"
    using assms by (auto simp: execute_idempotent_def hash_idempotency_key_def raise_act_def split: if_splits)
  let ?k = "\<lparr>cl_hash = h, cl_fingerprint = request_fingerprint (kc_request c), cl_correlation = [], cl_operation_id = [], cl_receipt_id = []\<rparr>"
  have "key_holds c ?k {COMPLETED} (w_keys w1)"
    using execute_idempotent_completes [OF assms(2), of ?k env operation w] h assms(1) by (simp add: wp_def)
  then obtain r where r: "key_load (w_keys w1) (kc_action c) h = Inr (Some r)" "ir_state r = COMPLETED"
    "ir_request_fingerprint r = VStr (request_fingerprint (kc_request c))"
    by (auto simp: key_holds_def)
  have "w_keys w3 = w_keys w2 \<and> w_ops w3 = w_ops w2 \<and> w_results w3 = w_results w2 \<and>
       boundary_started w3 = boundary_started w2 \<and> (\<forall>v2. r2 = Inr v2 \<longrightarrow> kc_decoder c2 (ir_result r) = Inr v2) \<and>
       ((\<forall>n. ee_fault env2 n = None) \<and> kc_operation_id c2 = None \<and> receipt_readable env2 w2 (ir_receipt_id r) \<longrightarrow>
          r2 = kc_decoder c2 (ir_result r))"
    if c2: "kc_action c2 = kc_action c" "kc_key c2 = Some key" "kc_request c2 = kc_request c"
      "key_load (w_keys w2) (kc_action c) h = key_load (w_keys w1) (kc_action c) h"
      "execute_idempotent env2 c2 operation2 w2 = (r2, w3)" for env2 c2 operation2 w2 r2 w3
  proof -
    have run: "(\<exists>e. (r2, w3) = (Inl e, w2)) \<or> (r2, w3) = replay_key env2 c2 r w2"
      "\<forall>n. ee_fault env2 n = None \<Longrightarrow> kc_operation_id c2 = None \<Longrightarrow> (r2, w3) = replay_key env2 c2 r w2"
      using execute_idempotent_replays [OF c2(2) h _ r(2), of w2 env2 operation2] c2 r(1,3) by simp_all
    have "fst (r2, w3) = kc_decoder c2 (ir_result r)"
      if "\<forall>n. ee_fault env2 n = None" "kc_operation_id c2 = None" "receipt_readable env2 w2 (ir_receipt_id r)"
      unfolding run(2) [OF that(1,2)] using that(1,3) by (rule replay_key_returns)
    then show ?thesis
      using run(1) replay_key_keeps [of env2 c2 r w2] by (auto simp: wp_def split: prod.splits sum.splits)
  qed
  with r show ?thesis by blast
qed

subsection \<open>Witnesses\<close>

abbreviation a_key :: string where
  "a_key \<equiv> ''00000000''"

abbreviation a_hash :: string where
  "a_hash \<equiv> sha256_hex (utf8_encode a_key)"

definition a_call :: keyed_call where
  "a_call = \<lparr>kc_action = ''workspace_edit'', kc_key = Some a_key, kc_request = VInt 0, kc_details = None, kc_encoder = Inr,
     kc_decoder = Inr, kc_reconcile = None, kc_operation_id = None, kc_stale_seconds = 0\<rparr>"

lemma a_call_simps [simp]:
  "kc_action a_call = ''workspace_edit''" "kc_key a_call = Some a_key" "kc_request a_call = VInt 0" "kc_details a_call = None"
  "kc_reconcile a_call = None" "kc_operation_id a_call = None" "kc_decoder a_call = Inr"
  by (simp_all add: a_call_def)

lemma a_hash: "fullmatch SHA64 a_hash" "length a_hash = 64"
  by (auto simp: SHA64_def fullmatch_Rep sha256_hex_lower_hex)

lemma a_key_hash [simp]: "hash_idempotency_key a_key = Inr a_hash"
  by (simp add: hash_idempotency_key_def)

lemma a_path [simp]: "key_path ''workspace_edit'' a_hash = Inr (''workspace_edit-'' @ a_hash)"
proof -
  have "fullmatch SAFE_ACTION ''workspace_edit''" by code_simp
  then show ?thesis using a_hash(1) by (simp add: key_path_def)
qed

lemma a_saved: "ir_action r = ''workspace_edit'' \<Longrightarrow> ir_key_hash r = a_hash \<Longrightarrow> sanitize_persisted_data [] [] (ir_result r) = Inr v \<Longrightarrow>
    key_save [] r = Inr [(''workspace_edit-'' @ a_hash, Json (json_sorted (VDict (key_payload_of r v))))]"
  by (simp add: key_save_def del: json_sorted.simps)

text \<open>The process dies after the operation crossed the boundary.\<close>

lemma crashed_call:
  "\<exists>w1. execute_idempotent (until 3 20) a_call crossing blank = (Inl (RuntimeError ''crash''), w1) \<and>
     boundary_started w1 \<and> \<not> boundary_rolled_back w1"
proof -
  let ?fp = "request_fingerprint (VInt 0)"
  have fp: "fullmatch SHA64 ?fp" "length ?fp = 64" by (simp_all add: request_fingerprint_def)
  obtain fs fs' where acts: "\<And>w. w_receipts w = [] \<Longrightarrow>
      create_receipt (until 3 20) 13 (bind_result (captured (until 3 20) 13 None VNone)
        (create_effect_receipt a_receipt an_id ''workspace_edit'' (Some a_hash) ?fp (clock 0) hex24)) w =
      (Inr (), w\<lparr>w_receipts := fs, w_receipt := durable_envelope ACCEPTED 1 0 (Some a_hash) ?fp\<rparr>)"
    "\<And>w. w_receipts w = fs \<Longrightarrow> w_receipt w = durable_envelope ACCEPTED 1 0 (Some a_hash) ?fp \<Longrightarrow>
      save_receipt (until 3 20) 15 APPLYING no_effect_args (Inr None) w =
      (Inr (), w\<lparr>w_receipts := fs', w_receipt := durable_envelope APPLYING 2 2 (Some a_hash) ?fp\<rparr>)"
    using durable_receipt_acts [OF fp, of "Some a_hash" 13 20 3 15] a_hash by auto
  show ?thesis
    by (simp add: execute_idempotent_def keyed_decision_def claim_and_run_def act_defs load_key_def key_load_def
        manager_call_def durable_created durable_started detail_workspace_def acts Let_def save_key_def a_saved
        execute_and_commit_def execute_keyed_def keyed_failed_def crossing_def durable_result_def has_code_def
        new_envelope_def durable_receipt_def boundary_started_def boundary_rolled_back_def)
qed

theorem keyed_effect_at_most_once_witness:
  "\<exists>e w1. execute_idempotent (until 3 20) a_call crossing blank = (Inl e, w1) \<and> boundary_started w1 \<and>
     execute_idempotent (until 3 100) a_call crossing w1 = execute_idempotent (until 3 100) a_call (\<lambda>b. (Inr VNone, b)) w1"
proof -
  obtain w1 where w1: "execute_idempotent (until 3 20) a_call crossing blank = (Inl (RuntimeError ''crash''), w1)"
    "boundary_started w1" "\<not> boundary_rolled_back w1" using crashed_call by blast
  have "execute_idempotent (until 3 100) a_call crossing w1 = execute_idempotent (until 3 100) a_call (\<lambda>b. (Inr VNone, b)) w1"
    by (rule keyed_effect_at_most_once [OF w1(1) _ _ _ w1(2,3) same_key_calls.none]) (simp_all add: LOCAL_MUTATION_ACTIONS_def)
  with w1 show ?thesis by blast
qed

text \<open>A call that found the result of an earlier one.\<close>

definition a_record :: IdempotencyRecord where
  "a_record = \<lparr>ir_action = ''workspace_edit'', ir_key_hash = a_hash, ir_request_fingerprint = VStr (request_fingerprint (VInt 0)),
     ir_state = COMPLETED, ir_updated_at = VStr (clock 0), ir_updated_at_epoch = VInt 0, ir_correlation_id = VStr hex24,
     ir_result = VInt 1, ir_receipt_id = VNone, ir_operation_id = VNone\<rparr>"

definition faultless :: effect_env where
  "faultless = (until 3 0)\<lparr>ee_fault := \<lambda>_. None\<rparr>"

theorem keyed_success_replayed_witness:
  "\<exists>fs w1. execute_idempotent faultless a_call crossing (blank\<lparr>w_keys := fs\<rparr>) = (Inr (VInt 1), w1) \<and>
     (\<exists>r. key_load (w_keys w1) ''workspace_edit'' a_hash = Inr (Some r) \<and> ir_state r = COMPLETED)"
proof -
  have v: "sanitize_persisted_data [] [] (ir_result a_record) = Inr (VInt 1)" by (simp add: a_record_def)
  obtain fs where fs: "key_save [] a_record = Inr fs" using a_saved [OF _ _ v] by (simp add: a_record_def)
  have l: "key_load fs ''workspace_edit'' a_hash = Inr (Some (stored_record a_record (VInt 1)))"
    using key_saved_load [OF fs] v by (simp add: a_record_def)
  have "execute_idempotent faultless a_call crossing (blank\<lparr>w_keys := fs\<rparr>) =
      replay_key faultless a_call (stored_record a_record (VInt 1)) (blank\<lparr>w_keys := fs\<rparr>)"
    by (rule execute_idempotent_replays(2) [where key = a_key and h = a_hash]) (use l in \<open>simp_all add: stored_record_def a_record_def faultless_def\<close>)
  moreover have "fst (replay_key faultless a_call (stored_record a_record (VInt 1)) (blank\<lparr>w_keys := fs\<rparr>)) =
      kc_decoder a_call (ir_result (stored_record a_record (VInt 1)))"
    by (rule replay_key_returns) (simp_all add: faultless_def receipt_readable_def stored_record_def a_record_def)
  moreover have "kc_decoder a_call (ir_result (stored_record a_record (VInt 1))) = Inr (VInt 1)"
    by (simp add: stored_record_def)
  ultimately have "fst (execute_idempotent faultless a_call crossing (blank\<lparr>w_keys := fs\<rparr>)) = Inr (VInt 1)"
    by (simp only:)
  then obtain w1 where run: "execute_idempotent faultless a_call crossing (blank\<lparr>w_keys := fs\<rparr>) = (Inr (VInt 1), w1)"
    by (metis prod.collapse)
  obtain r where "key_load (w_keys w1) (kc_action a_call) a_hash = Inr (Some r)" "ir_state r = COMPLETED"
    using keyed_success_replayed [OF run a_call_simps(2) refl] by blast
  with run show ?thesis by auto
qed

end
