(* ===== verification/Spec2Isabelle.thy ===== *)
theory Spec2Isabelle
  imports Egress Redaction Operation_Lifecycle Operation_Work Operation_Manager Work_Queue Lease_Store
    Iteration_Cache Outcome_Receipts Idempotency
begin

text \<open>
  RepoForge (src/src/repoforge) lets a coding agent work on git repositories through a reviewed set of
  operations. Two of its promises carry everything else and are what this library is about: nothing
  secret leaves through a model-visible payload, and every state-changing operation is durable, so that
  after a crash, a lost race or a failing disk the stored records still say what happened. File names
  below are relative to src/src/repoforge.

  \<^bold>\<open>The program and how its parts interact.\<close>
  A front end calls an application service; the service runs its effect through one of two executors,
  application/idempotency.py (calls with an idempotency key) or application/outcome\_receipts.py (calls
  without one). An executor creates an operation record through application/operations/manager.py, an
  effect receipt, and for a keyed call a claim on the key; it runs the effect, which marks an effect
  boundary, stores the result, and moves the receipt, the operation and the key to their final states.
  Long work is queued as work items (domain/operation\_work.py) that workers claim; child processes are
  tracked by process leases; verification runs follow content-addressed plans and graphs, leave
  receipts, and reuse results through an iteration cache. All records are JSON files written through
  adapters/persistence, and texts pass domain/redaction.py and domain/egress.py before they are stored
  or shown.

  \<^bold>\<open>Theories.\<close>

  \<^item> \<^bold>\<open>The language.\<close> Py\_Prelude (exceptions, results, strings), Py\_Regex (the backtracking matcher),
  Py\_Value and Py\_Json (dynamic values, \<open>json.dumps\<close> and what reading it back gives), Iso\_Time
  (\<open>datetime\<close>), Sha256 (the digest, computed on words of 32 bits), Content\_Digest (hashes of payloads).

  \<^item> \<^bold>\<open>Egress and redaction.\<close> Egress models domain/egress.py, Redaction models domain/redaction.py and
  the structured sanitizer. The theorems: the output does not depend on any character inside a
  redaction range, every occurrence of a given secret is redacted, the output is bounded, and the exact
  integer entropy test is the Shannon entropy test.

  \<^item> \<^bold>\<open>Operation records.\<close> Operation\_Task models domain/operation\_task.py, one definition per function;
  Operation\_Lifecycle has the step relation of a record with its invariants by rule induction;
  Operation\_Work models domain/operation\_work.py with its codec.

  \<^item> \<^bold>\<open>Stores.\<close> Operation\_Store models json\_state\_file\_store.py and json\_operation\_store.py;
  State\_Repository models json\_state\_repository.py; Work\_Queue, Lease\_Store, Execution\_Stores and
  Iteration\_Cache model the stores of the same names. The contracts are locales: \<open>versioned_store\<close> and
  \<open>evolving_store\<close> (Store\_Port: compare-and-swap on a version stamp), \<open>revisioned_store\<close>
  (Revisioned\_Store: on a revision number), \<open>write_once\<close> (Execution\_Stores: content that is created
  once). They are interpreted on the operation store, the operation manager, the work queue, the effect
  receipts, the plans and the stage receipts. What their lemmas give: no update is lost, a stored record
  moves only by permitted steps, what was saved is read back exactly, whatever other processes do in
  between. \<open>stamped_steps\<close> (Operation\_Lifecycle) is the contract of records whose stamp grows at every
  step; it is interpreted on operations, manager calls and work items.

  \<^item> \<^bold>\<open>The manager.\<close> Operation\_Manager models application/operations/manager.py, with other processes
  acting between a call's accesses: refinement of the life cycle, cancellation, terminal records.

  \<^item> \<^bold>\<open>Process leases.\<close> Process\_Lease models domain/process\_lease.py and its siblings, Lease\_Store their
  two collections: identity of the process, termination reachable, archiving that loses no lease, and
  pages that say truly whether they are complete.

  \<^item> \<^bold>\<open>Plans and evidence.\<close> Execution\_Plan, Verification\_Dag, Execution\_Receipt and Effect\_Receipt
  model the domain modules of the same names: the plan check against its declarative reading, the
  topological sort with its termination and order, receipts that never forget a crossed boundary. The
  iteration cache returns only entries whose key and artifacts match.

  \<^item> \<^bold>\<open>Executors.\<close> Durable\_Effects has the result store, the captured identity, the effect boundary and
  the computations with their weakest preconditions; Outcome\_Receipts and Idempotency model the two
  executors whole; Effect\_Example has the concrete runs their witnesses use. The theorems: a keyed
  local mutation takes effect at most once, a keyed call that returned is replayed from its record, and
  a receipt never denies an effect that was started.

  \<^bold>\<open>State and effects.\<close> A dataclass is a record, an enum a datatype, a directory of JSON files an
  association list from record ids to file contents, the state of an executor the record \<open>world\<close>. Code
  that raises returns a value of \<open>result\<close>, the exception on the left with the code and message of the
  source. An operation on a collection is one atomic step, as the file locks of the source make it;
  where the source releases a lock between two accesses, what other processes do there is an argument
  (\<open>others\<close>, \<open>ee_peers\<close>, the environments of Work\_Queue and Lease\_Store). In the executors every
  access to a store, a lock, the mutation gate or the audit trail can fail (\<open>ee_fault\<close>); a crash is a
  failure of that access and of all later ones.

  \<^bold>\<open>Bounds and termination.\<close> No definition uses fuel: every loop is structural or has a measure (the
  topological sort removes a stage, a scan moves its offset, the depth-first search marks a stage). The
  constants are those of the source, such as three attempts to request a cancellation, scan pages of
  2000 records, 128 stages of a plan and one megabyte of a result.

  \<^bold>\<open>Limits.\<close> Characters are code points below 256; values have no floating-point numbers, so epoch
  times are whole numbers, and the entropy of a token is compared exactly rather than in floating point.
  Error messages keep the source's text; the structured details of an exception, audit records and
  metrics are output and left out. What the workspace and git report, other processes, clocks and random
  identifiers are arguments of the definitions.

  \<^bold>\<open>Not modelled.\<close> The front ends, the wire contracts (declarations checked by pydantic), the git,
  GitHub, subprocess, language-server and SQLite adapters (their behaviour is that of external programs),
  the workspace services that orchestrate them, configuration loading, approvals, issue graphs, task
  capsules, state recovery, hygiene, rules and skills, observability. In the modelled stores the creation
  of directories, permissions and fsync are left out.
\<close>

end
